(* ===== verification/Prelude.thy ===== *)
theory Prelude
  imports Main "HOL-Library.Word" "HOL-Library.Multiset"
begin

text \<open>
  What the component theories share: the outcome of a Go call (a value or a panic) as a
  state-passing computation, 64-bit signed integer wrap-around, and generic lemmas on lists
  and maps.

  A Go function with side effects is a function from the world before the call to its
  outcome and the world after it.  A panic is an outcome of its own, so that a deferred
  \<open>recover()\<close> is a function on outcomes, and every call that can panic says so in
  its type.
\<close>

section \<open>Theorem collections\<close>

named_theorems go_simps \<open>unfolding rules of the Go effect primitives\<close>
named_theorems model_simps \<open>characteristic equations of the model's operations\<close>

section \<open>Outcomes and effects\<close>

datatype 'a outcome = Return 'a | Panic string

type_synonym ('w, 'a) go = "'w \<Rightarrow> 'a outcome \<times> 'w"

definition go_return :: "'a \<Rightarrow> ('w, 'a) go" where
  "go_return a w = (Return a, w)"

definition go_panic :: "string \<Rightarrow> ('w, 'a) go" where
  "go_panic p w = (Panic p, w)"

definition go_bind :: "('w, 'a) go \<Rightarrow> ('a \<Rightarrow> ('w, 'b) go) \<Rightarrow> ('w, 'b) go" where
  "go_bind m f w =
     (case m w of
        (Return a, w') \<Rightarrow> f a w'
      | (Panic p, w') \<Rightarrow> (Panic p, w'))"

text \<open>
  \<open>go_recover m r\<close> is the body \<open>m\<close> under
  \<open>defer func() { if e := recover(); e != nil { result = r } }()\<close>: a panic of the body
  becomes the normal result \<open>r\<close>; the effects the body had before the panic stay.
\<close>

definition go_recover :: "('w, 'a) go \<Rightarrow> 'a \<Rightarrow> ('w, 'a) go" where
  "go_recover m r w =
     (case m w of
        (Return a, w') \<Rightarrow> (Return a, w')
      | (Panic _, w') \<Rightarrow> (Return r, w'))"

text \<open>\<open>go_defer m d\<close> runs the deferred call \<open>d\<close> after the body, on return and on panic.\<close>

definition go_defer :: "('w, 'a) go \<Rightarrow> ('w \<Rightarrow> 'w) \<Rightarrow> ('w, 'a) go" where
  "go_defer m d w = (case m w of (out, w') \<Rightarrow> (out, d w'))"

fun is_return :: "'a outcome \<Rightarrow> bool" where
  "is_return (Return _) = True"
| "is_return (Panic _) = False"

lemma go_bind_return [simp]: "go_bind (go_return a) f = f a"
  by (rule ext) (simp add: go_bind_def go_return_def)

lemma go_bind_panic [simp]: "go_bind (go_panic p) f = go_panic p"
  by (rule ext) (simp add: go_bind_def go_panic_def)

lemma go_bind_return_right [simp]: "go_bind m go_return = m"
  by (rule ext) (simp add: go_bind_def go_return_def split: prod.splits outcome.splits)

lemma go_bind_assoc: "go_bind (go_bind m f) g = go_bind m (\<lambda>a. go_bind (f a) g)"
  by (rule ext) (simp add: go_bind_def split: prod.splits outcome.splits)

lemma go_recover_returns: "is_return (fst (go_recover m r w))"
  by (simp add: go_recover_def split: prod.splits outcome.splits)

lemma go_recover_world: "snd (go_recover m r w) = snd (m w)"
  by (simp add: go_recover_def split: prod.splits outcome.splits)

lemmas go_unfold [go_simps] = go_return_def go_panic_def go_bind_def go_recover_def go_defer_def

section \<open>Signed 64-bit integers\<close>

text \<open>
  Go's \<open>int\<close>, \<open>int64\<close> and \<open>time.Duration\<close> are 64-bit two's complement on the platforms
  the library targets.  \<open>i64\<close> is such a value; \<open>sint\<close> reads it, \<open>+\<close> wraps.
\<close>

type_synonym i64 = "64 word"

abbreviation max_i64 :: int where "max_i64 \<equiv> 2 ^ 63 - 1"
abbreviation min_i64 :: int where "min_i64 \<equiv> - (2 ^ 63)"

definition in_i64 :: "int \<Rightarrow> bool" where
  "in_i64 x \<longleftrightarrow> min_i64 \<le> x \<and> x \<le> max_i64"

text \<open>The value a mathematical result has once stored in 64 bits.\<close>

definition wrap64 :: "int \<Rightarrow> int" where
  "wrap64 x = (x + 2 ^ 63) mod 2 ^ 64 - 2 ^ 63"

lemma wrap64_in [simp]: "in_i64 (wrap64 x)"
proof -
  have "0 \<le> (x + 2 ^ 63) mod 2 ^ 64" and "(x + 2 ^ 63) mod 2 ^ 64 < (2 ^ 64 :: int)"
    by simp_all
  then show ?thesis by (simp add: wrap64_def in_i64_def)
qed

lemma wrap64_id: "in_i64 x \<Longrightarrow> wrap64 x = x"
  by (simp add: wrap64_def in_i64_def)

section \<open>Lists\<close>

lemma foldr_Cons_comp: "foldr (\<lambda>f g. f g) (fs @ gs) h = foldr (\<lambda>f g. f g) fs (foldr (\<lambda>f g. f g) gs h)"
  by simp

lemma filter_sort_key_same:
  "filter (\<lambda>x. f x = k) (sort_key f xs) = filter (\<lambda>x. f x = k) xs"
  by (rule sort_key_stable)

text \<open>
  Two lists that agree on every band of equal keys, each in its order, have the same stable
  sort: the whole content of ``the order in which entries of different keys were added does
  not matter''.
\<close>

lemma mset_eq_of_bands:
  assumes "\<And>k. filter (\<lambda>x. f x = k) xs = filter (\<lambda>x. f x = k) ys"
  shows "mset xs = mset ys"
proof (rule multiset_eqI)
  fix a
  have "count (mset xs) a = count (mset (filter (\<lambda>x. f x = f a) xs)) a"
    by simp
  also have "\<dots> = count (mset (filter (\<lambda>x. f x = f a) ys)) a"
    by (simp only: assms)
  also have "\<dots> = count (mset ys) a" by simp
  finally show "count (mset xs) a = count (mset ys) a" .
qed

lemma sort_key_eq_of_bands:
  assumes "\<And>k. filter (\<lambda>x. f x = k) xs = filter (\<lambda>x. f x = k) ys"
  shows "sort_key f xs = sort_key f ys"
proof (rule properties_for_sort_key)
  show "mset (sort_key f ys) = mset xs"
    using mset_eq_of_bands [of f xs ys] assms by simp
  show "\<And>k. k \<in> set (sort_key f ys) \<Longrightarrow>
      filter (\<lambda>x. f k = f x) (sort_key f ys) = filter (\<lambda>x. f k = f x) xs"
    using sort_key_stable [of f _ ys] assms by (metis (mono_tags, lifting) filter_cong)
  show "sorted (map f (sort_key f ys))" by simp
qed

section \<open>Transition systems\<close>

text \<open>
  States reachable from an initial one by steps, and the states reachable from a given one.
  A component with an interleaving of operations is a step relation; its invariants are the
  instances of the locale, and hold in every reachable state.
\<close>

inductive reachable :: "('s \<Rightarrow> 's \<Rightarrow> bool) \<Rightarrow> ('s \<Rightarrow> bool) \<Rightarrow> 's \<Rightarrow> bool"
  for step :: "'s \<Rightarrow> 's \<Rightarrow> bool" and init :: "'s \<Rightarrow> bool" where
  reachable_init: "init s \<Longrightarrow> reachable step init s"
| reachable_step: "reachable step init s \<Longrightarrow> step s t \<Longrightarrow> reachable step init t"

inductive steps :: "('s \<Rightarrow> 's \<Rightarrow> bool) \<Rightarrow> 's \<Rightarrow> 's \<Rightarrow> bool"
  for step :: "'s \<Rightarrow> 's \<Rightarrow> bool" where
  steps_refl [intro]: "steps step s s"
| steps_step: "steps step s t \<Longrightarrow> step t u \<Longrightarrow> steps step s u"

lemma steps_one: "step s t \<Longrightarrow> steps step s t"
  by (rule steps_step [OF steps_refl])

lemma step_steps: "steps step t u \<Longrightarrow> step s t \<Longrightarrow> steps step s u"
  by (induction rule: steps.induct) (auto intro: steps.intros)

lemma reachable_steps: "steps step s t \<Longrightarrow> reachable step init s \<Longrightarrow> reachable step init t"
  by (induction rule: steps.induct) (auto intro: reachable_step)

locale inductive_invariant =
  fixes step :: "'s \<Rightarrow> 's \<Rightarrow> bool"
    and init :: "'s \<Rightarrow> bool"
    and inv :: "'s \<Rightarrow> bool"
  assumes inv_init: "init s \<Longrightarrow> inv s"
    and inv_step: "inv s \<Longrightarrow> step s t \<Longrightarrow> inv t"
begin

lemma inv_reachable: "reachable step init s \<Longrightarrow> inv s"
  by (induction rule: reachable.induct) (auto intro: inv_init inv_step)

lemma inv_steps: "steps step s t \<Longrightarrow> inv s \<Longrightarrow> inv t"
  by (induction rule: steps.induct) (auto intro: inv_step)

text \<open>A fact that steps from states with the invariant keep, once true, stays true.\<close>

lemma stable_steps:
  assumes keep: "\<And>s t. inv s \<Longrightarrow> P s \<Longrightarrow> step s t \<Longrightarrow> P t"
    and run: "steps step s t" and "inv s" "P s"
  shows "P t"
proof -
  from run assms(3,4) have "inv t \<and> P t"
    by (induction rule: steps.induct) (auto intro: inv_step keep)
  then show ?thesis ..
qed

end

end
