(* ===== verification/Netip.thy ===== *)
theory Netip
  imports Prelude "HOL-Library.Sublist"
begin

text \<open>
  The parts of Go's standard library the security package parses and compares addresses
  with: \<open>strings.Cut\<close>, \<open>strings.Split\<close>, \<open>strings.TrimSpace\<close>, \<open>net.SplitHostPort\<close>,
  \<open>netip.ParseAddr\<close>, \<open>netip.ParsePrefix\<close>, \<open>netip.PrefixFrom\<close> and
  \<open>netip.Prefix.Contains\<close>.  A Go string is a sequence of bytes, a \<open>string\<close> here.
  Of a parse error only its presence is kept: the library never looks at its text.
\<close>

unbundle bit_operations_syntax

section \<open>Strings\<close>

text \<open>The parts before and after the first (last) occurrence of a byte.\<close>

fun cut_first :: "char \<Rightarrow> string \<Rightarrow> (string \<times> string) option" where
  "cut_first c [] = None"
| "cut_first c (x # xs) =
     (if x = c then Some ([], xs)
      else map_option (\<lambda>(a, b). (x # a, b)) (cut_first c xs))"

definition cut_last :: "char \<Rightarrow> string \<Rightarrow> (string \<times> string) option" where
  "cut_last c s = map_option (\<lambda>(a, b). (rev b, rev a)) (cut_first c (rev s))"

lemma cut_first_None_iff: "cut_first c s = None \<longleftrightarrow> c \<notin> set s"
  by (induction s) auto

lemma cut_first_Some: "cut_first c s = Some (a, b) \<Longrightarrow> s = a @ c # b \<and> c \<notin> set a"
  by (induction s arbitrary: a) (auto split: if_splits)

lemma cut_first_append: "c \<notin> set a \<Longrightarrow> cut_first c (a @ c # b) = Some (a, b)"
  by (induction a) auto

lemma cut_last_None_iff: "cut_last c s = None \<longleftrightarrow> c \<notin> set s"
  by (simp add: cut_last_def cut_first_None_iff)

lemma cut_last_append: "c \<notin> set b \<Longrightarrow> cut_last c (a @ c # b) = Some (a, b)"
  by (simp add: cut_last_def cut_first_append)

text \<open>\<open>strings.SplitSeq(s, sep)\<close> for a one-byte separator; the empty string has one part.\<close>

fun split_on :: "char \<Rightarrow> string \<Rightarrow> string list" where
  "split_on c [] = [[]]"
| "split_on c (x # xs) =
     (if x = c then [] # split_on c xs
      else (case split_on c xs of [] \<Rightarrow> [[x]] | p # ps \<Rightarrow> (x # p) # ps))"

lemma split_on_nonempty: "split_on c s \<noteq> []"
  by (induction s) (auto split: list.splits)

lemma split_on_no_sep: "c \<notin> set s \<Longrightarrow> split_on c s = [s]"
  by (induction s) auto

lemma split_on_append: "c \<notin> set a \<Longrightarrow> split_on c (a @ c # b) = a # split_on c b"
  by (induction a) auto

text \<open>
  \<open>strings.TrimSpace\<close> removes the UTF-8 encodings of the code points with property
  White\_Space at both ends.
\<close>

definition space_encodings :: "string list" where
  "space_encodings =
     [[CHR 0x09], [CHR 0x0A], [CHR 0x0B], [CHR 0x0C], [CHR 0x0D], [CHR 0x20],
      [CHR 0xC2, CHR 0x85], [CHR 0xC2, CHR 0xA0], [CHR 0xE1, CHR 0x9A, CHR 0x80],
      [CHR 0xE2, CHR 0x80, CHR 0x80], [CHR 0xE2, CHR 0x80, CHR 0x81],
      [CHR 0xE2, CHR 0x80, CHR 0x82], [CHR 0xE2, CHR 0x80, CHR 0x83],
      [CHR 0xE2, CHR 0x80, CHR 0x84], [CHR 0xE2, CHR 0x80, CHR 0x85],
      [CHR 0xE2, CHR 0x80, CHR 0x86], [CHR 0xE2, CHR 0x80, CHR 0x87],
      [CHR 0xE2, CHR 0x80, CHR 0x88], [CHR 0xE2, CHR 0x80, CHR 0x89],
      [CHR 0xE2, CHR 0x80, CHR 0x8A], [CHR 0xE2, CHR 0x80, CHR 0xA8],
      [CHR 0xE2, CHR 0x80, CHR 0xA9], [CHR 0xE2, CHR 0x80, CHR 0xAF],
      [CHR 0xE2, CHR 0x81, CHR 0x9F], [CHR 0xE3, CHR 0x80, CHR 0x80]]"

fun is_prefix_of :: "string \<Rightarrow> string \<Rightarrow> bool" where
  "is_prefix_of [] s = True"
| "is_prefix_of (x # xs) [] = False"
| "is_prefix_of (x # xs) (y # ys) = (x = y \<and> is_prefix_of xs ys)"

lemma is_prefix_of_eq: "is_prefix_of p s = prefix p s"
  by (induction p s rule: is_prefix_of.induct) auto

function trim_left :: "string list \<Rightarrow> string \<Rightarrow> string" where
  "trim_left ps s =
     (case find (\<lambda>p. p \<noteq> [] \<and> is_prefix_of p s) ps of
        None \<Rightarrow> s
      | Some p \<Rightarrow> trim_left ps (drop (length p) s))"
  by pat_completeness auto
termination
  by (relation "measure (\<lambda>(ps, s). length s)")
     (auto simp: find_Some_iff is_prefix_of_eq prefix_def)

declare trim_left.simps [simp del]

definition TrimSpace :: "string \<Rightarrow> string" where
  "TrimSpace s = rev (trim_left (map rev space_encodings) (rev (trim_left space_encodings s)))"

lemma trim_left_id: "find (\<lambda>p. p \<noteq> [] \<and> is_prefix_of p s) ps = None \<Longrightarrow> trim_left ps s = s"
  by (simp add: trim_left.simps)

section \<open>Addresses\<close>

text \<open>
  A \<open>netip.Addr\<close> is the zero \<open>Addr\<close>, an IPv4 address, or an IPv6 address with a zone
  (empty when absent).  An IPv4-mapped IPv6 address (\<open>::ffff:a.b.c.d\<close>) is an \<open>Addr6\<close>,
  distinct from the \<open>Addr4\<close> it maps.
\<close>

datatype Addr = ZeroAddr | Addr4 "32 word" | Addr6 "128 word" string

fun BitLen :: "Addr \<Rightarrow> nat" where
  "BitLen ZeroAddr = 0"
| "BitLen (Addr4 _) = 32"
| "BitLen (Addr6 _ _) = 128"

fun zone_of :: "Addr \<Rightarrow> string" where
  "zone_of (Addr6 _ z) = z"
| "zone_of _ = []"

fun withoutZone :: "Addr \<Rightarrow> Addr" where
  "withoutZone (Addr6 w _) = Addr6 w []"
| "withoutZone a = a"

text \<open>\<open>Unmap\<close> turns an IPv4-mapped IPv6 address into the IPv4 address (documented in netip).\<close>

definition map4in6 :: "32 word \<Rightarrow> 128 word" where
  "map4in6 w = push_bit 32 0xffff OR ucast w"

section \<open>Parsing addresses\<close>

definition dec_digit :: "char \<Rightarrow> int option" where
  "dec_digit c = (let n = of_char c in if 48 \<le> n \<and> n \<le> 57 then Some (n - 48) else None)"

definition hex_digit :: "char \<Rightarrow> int option" where
  "hex_digit c = (let n = of_char c in
     if 48 \<le> n \<and> n \<le> 57 then Some (n - 48)
     else if 97 \<le> n \<and> n \<le> 102 then Some (n - 87)
     else if 65 \<le> n \<and> n \<le> 70 then Some (n - 55)
     else None)"

text \<open>
  \<open>parseIPv4Fields\<close>: \<open>fs\<close> the fields stored, \<open>val\<close> and \<open>digLen\<close> the octet being
  read.  A dot is refused at the start, at the end and after a dot.
\<close>

fun parseIPv4Fields :: "string \<Rightarrow> int list \<Rightarrow> int \<Rightarrow> nat \<Rightarrow> int list option" where
  "parseIPv4Fields [] fs val digLen = (if length fs < 3 then None else Some (fs @ [val]))"
| "parseIPv4Fields (c # cs) fs val digLen =
     (case dec_digit c of
        Some d \<Rightarrow>
          if digLen = 1 \<and> val = 0 then None
          else if val * 10 + d > 255 then None
          else parseIPv4Fields cs fs (val * 10 + d) (Suc digLen)
      | None \<Rightarrow>
          if c = CHR ''.'' then
            if digLen = 0 \<or> cs = [] then None
            else if length fs = 3 then None
            else parseIPv4Fields cs (fs @ [val]) 0 0
          else None)"

definition be_int :: "int \<Rightarrow> int list \<Rightarrow> int" where
  "be_int base ds = foldl (\<lambda>n d. n * base + d) 0 ds"

definition parseIPv4 :: "string \<Rightarrow> Addr option" where
  "parseIPv4 s = map_option (\<lambda>fs. Addr4 (of_int (be_int 256 fs))) (parseIPv4Fields s [] 0 0)"

text \<open>
  The loop of \<open>parseIPv6\<close>: \<open>n\<close> 16-bit groups still fit, \<open>ip\<close> holds the groups read,
  \<open>ell\<close> the position of the ellipsis.  It returns the unread rest with them.
\<close>

fun parseIPv6_loop ::
    "nat \<Rightarrow> string \<Rightarrow> int list \<Rightarrow> nat option \<Rightarrow> (string \<times> int list \<times> nat option) option" where
  "parseIPv6_loop 0 s ip ell = Some (s, ip, ell)"
| "parseIPv6_loop (Suc n) s ip ell =
     (let ds = takeWhile (\<lambda>c. hex_digit c \<noteq> None) s;
          rest = dropWhile (\<lambda>c. hex_digit c \<noteq> None) s;
          ip' = ip @ [be_int 16 (List.map_filter hex_digit ds)]
      in if length ds > 4 \<or> ds = [] then None
         else if rest \<noteq> [] \<and> hd rest = CHR ''.'' then
           if ell = None \<and> length ip \<noteq> 6 then None
           else if length ip + 2 > 8 then None
           else (case parseIPv4Fields s [] 0 0 of
                   Some [a, b, c, d] \<Rightarrow> Some ([], ip @ [a * 256 + b, c * 256 + d], ell)
                 | _ \<Rightarrow> None)
         else (case rest of
             [] \<Rightarrow> Some ([], ip', ell)
           | c # t \<Rightarrow>
               if c \<noteq> CHR '':'' then None
               else (case t of
                   [] \<Rightarrow> None
                 | c' # t' \<Rightarrow>
                     if c' = CHR '':'' then
                       if ell \<noteq> None then None
                       else if t' = [] then Some ([], ip', Some (length ip'))
                       else parseIPv6_loop n t' ip' (Some (length ip'))
                     else parseIPv6_loop n t ip' ell)))"

definition expand_ellipsis :: "int list \<Rightarrow> nat option \<Rightarrow> int list option" where
  "expand_ellipsis ip ell =
     (if length ip < 8 then
        (case ell of
           None \<Rightarrow> None
         | Some e \<Rightarrow> Some (take e ip @ replicate (8 - length ip) 0 @ drop e ip))
      else if ell \<noteq> None then None
      else Some ip)"

definition parseIPv6 :: "string \<Rightarrow> Addr option" where
  "parseIPv6 inp =
     (let (s, zone, zone_ok) =
        (case cut_first (CHR ''%'') inp of
           None \<Rightarrow> (inp, [], True)
         | Some (a, z) \<Rightarrow> (a, z, z \<noteq> []))
      in if \<not> zone_ok then None
         else if is_prefix_of ''::'' s \<and> drop 2 s = [] then Some (Addr6 0 zone)
         else
           (case (if is_prefix_of ''::'' s then parseIPv6_loop 8 (drop 2 s) [] (Some 0)
                  else parseIPv6_loop 8 s [] None) of
              None \<Rightarrow> None
            | Some (rest, ip, ell) \<Rightarrow>
                if rest \<noteq> [] then None
                else map_option (\<lambda>gs. Addr6 (of_int (be_int 65536 gs)) zone)
                       (expand_ellipsis ip ell)))"

fun first_special :: "string \<Rightarrow> char option" where
  "first_special [] = None"
| "first_special (c # cs) =
     (if c = CHR ''.'' \<or> c = CHR '':'' \<or> c = CHR ''%'' then Some c else first_special cs)"

definition ParseAddr :: "string \<Rightarrow> Addr option" where
  "ParseAddr s =
     (case first_special s of
        None \<Rightarrow> None
      | Some c \<Rightarrow>
          if c = CHR ''.'' then parseIPv4 s
          else if c = CHR '':'' then parseIPv6 s
          else None)"

section \<open>Prefixes\<close>

text \<open>\<open>p_bits = None\<close> is the invalid prefix (\<open>bitsPlusOne = 0\<close>).\<close>

record Prefix =
  p_addr :: Addr
  p_bits :: "nat option"

definition PrefixFrom :: "Addr \<Rightarrow> int \<Rightarrow> Prefix" where
  "PrefixFrom ip bits =
     \<lparr>p_addr = withoutZone ip,
      p_bits = (if ip \<noteq> ZeroAddr \<and> 0 \<le> bits \<and> bits \<le> int (BitLen ip)
                then Some (nat bits) else None)\<rparr>"

text \<open>\<open>strconv.Atoi\<close> on an unsigned string; the range check happens in the caller.\<close>

definition atoi :: "string \<Rightarrow> int option" where
  "atoi s =
     (if s = [] \<or> \<not> list_all (\<lambda>c. dec_digit c \<noteq> None) s then None
      else Some (be_int 10 (List.map_filter dec_digit s)))"

definition ParsePrefix :: "string \<Rightarrow> Prefix option" where
  "ParsePrefix s =
     (case cut_last (CHR ''/'') s of
        None \<Rightarrow> None
      | Some (a, bitsStr) \<Rightarrow>
          (case ParseAddr a of
             None \<Rightarrow> None
           | Some ip \<Rightarrow>
               if zone_of ip \<noteq> [] then None
               else if length bitsStr > 1
                       \<and> (hd bitsStr = CHR ''0'' \<or> dec_digit (hd bitsStr) = None) then None
               else (case atoi bitsStr of
                       None \<Rightarrow> None
                     | Some bits \<Rightarrow>
                         if bits > int (BitLen ip) then None
                         else Some (PrefixFrom ip bits))))"

fun Contains :: "Prefix \<Rightarrow> Addr \<Rightarrow> bool" where
  "Contains p ip =
     (case p_bits p of
        None \<Rightarrow> False
      | Some n \<Rightarrow>
          if zone_of ip \<noteq> [] then False
          else (case (p_addr p, ip) of
              (Addr4 a, Addr4 b) \<Rightarrow> drop_bit (32 - n) (b XOR a) = 0
            | (Addr6 a _, Addr6 b _) \<Rightarrow> drop_bit (128 - n) (b XOR a) = 0
            | _ \<Rightarrow> False))"

declare Contains.simps [simp del]

section \<open>Splitting host and port\<close>

definition SplitHostPort :: "string \<Rightarrow> (string \<times> string) option" where
  "SplitHostPort hp =
     (case cut_last (CHR '':'') hp of
        None \<Rightarrow> None
      | Some (hd_part, port) \<Rightarrow>
          if is_prefix_of ''['' hp then
            (case cut_first (CHR '']'') hp of
               None \<Rightarrow> None
             | Some (a, b) \<Rightarrow>
                 if b = [] \<or> length a + 1 \<noteq> length hd_part then None
                 else if CHR ''['' \<in> set (drop 1 hp) \<or> CHR '']'' \<in> set b then None
                 else Some (drop 1 a, port))
          else if CHR '':'' \<in> set hd_part then None
          else if CHR ''['' \<in> set hp \<or> CHR '']'' \<in> set hp then None
          else Some (hd_part, port))"

section \<open>What the definitions compute\<close>

lemma word_xor_eq_0_iff [simp]: "a XOR b = 0 \<longleftrightarrow> a = (b :: 'n::len word)"
  by (auto simp: bit_eq_iff bit_simps)

lemma drop_bit_eq_iff_div:
  "drop_bit k a = drop_bit k (b :: 'n::len word) \<longleftrightarrow> uint a div 2 ^ k = uint b div 2 ^ k"
proof -
  have "uint (drop_bit k w) = uint w div 2 ^ k" for w :: "'n word"
    by (simp add: unsigned_drop_bit_eq take_bit_int_eq_self flip: drop_bit_eq_div)
  then show ?thesis by (metis word_uint_eq_iff)
qed

text \<open>
  Containment by numbers: same family, no zone, and equal network numbers.  An IPv4 prefix
  contains no IPv6 address, the IPv4-mapped ones included.
\<close>

lemma Contains4:
  "Contains \<lparr>p_addr = Addr4 a, p_bits = Some n\<rparr> ip \<longleftrightarrow>
     (\<exists>b. ip = Addr4 b \<and> uint b div 2 ^ (32 - n) = uint a div 2 ^ (32 - n))"
  by (cases ip)
     (auto simp: Contains.simps drop_bit_eq_iff_div)

lemma Contains6:
  "Contains \<lparr>p_addr = Addr6 a z, p_bits = Some n\<rparr> ip \<longleftrightarrow>
     (\<exists>b. ip = Addr6 b [] \<and> uint b div 2 ^ (128 - n) = uint a div 2 ^ (128 - n))"
  by (cases ip)
     (auto simp: Contains.simps drop_bit_eq_iff_div)

lemma Contains_zero: "\<not> Contains \<lparr>p_addr = ZeroAddr, p_bits = n\<rparr> ip"
  by (cases ip) (auto simp: Contains.simps split: option.splits)

lemma Contains_invalid: "p_bits p = None \<Longrightarrow> \<not> Contains p ip"
  by (simp add: Contains.simps)

lemma Contains_zone: "zone_of ip \<noteq> [] \<Longrightarrow> \<not> Contains p ip"
  by (simp add: Contains.simps split: option.splits)

lemma Contains_family: "Contains p ip \<Longrightarrow> BitLen (p_addr p) = BitLen ip \<and> ip \<noteq> ZeroAddr"
  by (cases "p_addr p"; cases ip) (auto simp: Contains.simps split: option.splits if_splits)

lemma Contains_single_host:
  "Contains (PrefixFrom ip (int (BitLen ip))) ip' \<longleftrightarrow> ip' \<noteq> ZeroAddr \<and> ip' = withoutZone ip"
  by (cases ip; cases ip')
     (auto simp: PrefixFrom_def Contains.simps)

lemma Contains_all4: "Contains \<lparr>p_addr = Addr4 a, p_bits = Some 0\<rparr> (Addr4 b)"
  using uint_lt2p [of a] uint_lt2p [of b] by (simp add: Contains4)

end
