(* ===== verification/Netip_Text.thy ===== *)
theory Netip_Text
  imports Netip
begin

text \<open>
  The textual form of IPv4 addresses, and what the parsers of theory Netip make of it: every
  dotted quad, with or without a prefix length or a port, is read back as the address it
  denotes.  Used to state the security properties on the strings a configuration holds.
\<close>


definition dig :: "int \<Rightarrow> char" where
  "dig d = char_of (48 + d)"

definition show_octet :: "int \<Rightarrow> string" where
  "show_octet n =
     (if n < 10 then [dig n]
      else if n < 100 then [dig (n div 10), dig (n mod 10)]
      else [dig (n div 100), dig (n div 10 mod 10), dig (n mod 10)])"

definition show_ipv4 :: "int \<Rightarrow> int \<Rightarrow> int \<Rightarrow> int \<Rightarrow> string" where
  "show_ipv4 a b c d =
     show_octet a @ ''.'' @ show_octet b @ ''.'' @ show_octet c @ ''.'' @ show_octet d"

definition ipv4 :: "int \<Rightarrow> int \<Rightarrow> int \<Rightarrow> int \<Rightarrow> 32 word" where
  "ipv4 a b c d = of_int (((a * 256 + b) * 256 + c) * 256 + d)"

lemma of_char_dig: "0 \<le> d \<Longrightarrow> d < 10 \<Longrightarrow> (of_char (dig d) :: int) = 48 + d"
  by (simp add: dig_def)

lemma dec_digit_dig [simp]: "0 \<le> d \<Longrightarrow> d < 10 \<Longrightarrow> dec_digit (dig d) = Some d"
  by (simp add: dec_digit_def of_char_dig)

lemma dig_neq: "0 \<le> d \<Longrightarrow> d < 10 \<Longrightarrow> dec_digit c = None \<Longrightarrow> dig d \<noteq> c"
  by auto

lemma dec_digit_sep [simp]:
  "dec_digit (CHR ''.'') = None" "dec_digit (CHR '':'') = None" "dec_digit (CHR ''/'') = None"
  "dec_digit (CHR ''%'') = None" "dec_digit (CHR '']'') = None" "dec_digit (CHR ''['') = None"
  by (simp_all add: dec_digit_def)

definition is_dec :: "char \<Rightarrow> bool" where
  "is_dec c \<longleftrightarrow> dec_digit c \<noteq> None"

lemma is_dec_dig [simp]: "0 \<le> d \<Longrightarrow> d < 10 \<Longrightarrow> is_dec (dig d)"
  by (simp add: is_dec_def)

lemma not_is_dec_sep [simp]:
  "\<not> is_dec (CHR ''.'')" "\<not> is_dec (CHR '':'')" "\<not> is_dec (CHR ''/'')"
  "\<not> is_dec (CHR ''%'')" "\<not> is_dec (CHR '']'')" "\<not> is_dec (CHR ''['')"
  by (simp_all add: is_dec_def)

lemma div_digits:
  assumes "(0 :: int) \<le> n" "n < 256"
  shows "0 \<le> n div 100" "n div 100 < 10" "n < 100 \<Longrightarrow> n div 10 < 10" "0 \<le> n div 10"
  using assms by (simp_all add: div_less_iff_less_mult)

lemma show_octet_digits: "0 \<le> n \<Longrightarrow> n < 256 \<Longrightarrow> \<forall>c \<in> set (show_octet n). is_dec c"
  by (simp add: show_octet_def div_digits)

lemma octet_digits:
  "(n div 100 * 10 + n div 10 mod 10) * 10 + n mod 10 = (n :: int)"
  "100 * (n div 100) + n div 10 mod 10 * 10 + n mod 10 = (n :: int)"
  "n div 10 * 10 + n mod 10 = (n :: int)"
proof -
  have "n div 10 div 10 = n div 100"
    by (simp add: div_mult2_eq [of 10 10, symmetric])
  then show "(n div 100 * 10 + n div 10 mod 10) * 10 + n mod 10 = n"
    by (metis div_mult_mod_eq)
  then show "100 * (n div 100) + n div 10 mod 10 * 10 + n mod 10 = n"
    by (simp add: distrib_right)
qed simp

lemma parse_dig:
  "0 \<le> d \<Longrightarrow> d < 10 \<Longrightarrow> \<not> (k = 1 \<and> v = 0) \<Longrightarrow> v * 10 + d \<le> 255 \<Longrightarrow>
   parseIPv4Fields (dig d # cs) fs v k = parseIPv4Fields cs fs (v * 10 + d) (Suc k)"
  by auto

lemma parse_octet:
  assumes "0 \<le> n" "n < 256"
  shows "parseIPv4Fields (show_octet n @ rest) fs 0 0
       = parseIPv4Fields rest fs n (length (show_octet n))"
proof -
  have "n div 100 < 10" and "0 < n div 100" if "\<not> n < 100"
    using assms that by (simp_all add: pos_imp_zdiv_pos_iff div_less_iff_less_mult)
  moreover have "n div 10 < 10" and "0 < n div 10" if "n < 100" "\<not> n < 10"
    using assms that by (simp_all add: pos_imp_zdiv_pos_iff div_less_iff_less_mult)
  moreover have "n div 100 * 10 + n div 10 mod 10 \<le> 255" 
    using assms octet_digits(1) [of n] by linarith
  ultimately show ?thesis
    using assms octet_digits [of n]
    by (simp add: show_octet_def parse_dig del: parseIPv4Fields.simps)
qed

lemma show_octet_nonempty [simp]: "show_octet n \<noteq> []"
  by (simp add: show_octet_def)

lemma parse_octet_dot:
  assumes "0 \<le> n" "n < 256" "length fs < 3" "cs \<noteq> []"
  shows "parseIPv4Fields (show_octet n @ CHR ''.'' # cs) fs 0 0 = parseIPv4Fields cs (fs @ [n]) 0 0"
  unfolding parse_octet [OF assms(1,2)] using assms(3,4) by simp

lemma parse_octet_end:
  assumes "0 \<le> n" "n < 256" "length fs = 3"
  shows "parseIPv4Fields (show_octet n) fs 0 0 = Some (fs @ [n])"
  using parse_octet [OF assms(1,2), of "[]" fs] assms(3) by simp

lemma parseIPv4_show:
  assumes "0 \<le> a" "a < 256" "0 \<le> b" "b < 256" "0 \<le> c" "c < 256" "0 \<le> d" "d < 256"
  shows "parseIPv4Fields (show_ipv4 a b c d) [] 0 0 = Some [a, b, c, d]"
  using assms
  by (simp add: show_ipv4_def parse_octet_dot parse_octet_end del: parseIPv4Fields.simps)

lemma first_special_digits:
  "\<forall>c \<in> set xs. is_dec c \<Longrightarrow> first_special (xs @ CHR ''.'' # ys) = Some (CHR ''.'')"
proof (induction xs)
  case (Cons x xs)
  then have "x \<noteq> CHR '':''" "x \<noteq> CHR ''%''" by auto
  with Cons show ?case by simp
qed simp

lemma ParseAddr_show:
  assumes "0 \<le> a" "a < 256" "0 \<le> b" "b < 256" "0 \<le> c" "c < 256" "0 \<le> d" "d < 256"
  shows "ParseAddr (show_ipv4 a b c d) = Some (Addr4 (ipv4 a b c d))"
proof -
  have "first_special (show_ipv4 a b c d) = Some (CHR ''.'')"
    using show_octet_digits [OF assms(1,2)] by (simp add: show_ipv4_def first_special_digits)
  then show ?thesis
    by (simp add: ParseAddr_def parseIPv4_def parseIPv4_show assms be_int_def ipv4_def)
qed

lemma show_ipv4_chars:
  assumes "0 \<le> a" "a < 256" "0 \<le> b" "b < 256" "0 \<le> c" "c < 256" "0 \<le> d" "d < 256"
  shows "\<forall>x \<in> set (show_ipv4 a b c d). is_dec x \<or> x = CHR ''.''"
  using show_octet_digits [OF assms(1,2)] show_octet_digits [OF assms(3,4)]
    show_octet_digits [OF assms(5,6)] show_octet_digits [OF assms(7,8)]
  by (auto simp: show_ipv4_def)

lemma digits_show_octet:
  assumes "0 \<le> n" "n < 256"
  shows "be_int 10 (List.map_filter dec_digit (show_octet n)) = n"
  using assms
  by (simp add: show_octet_def be_int_def List.map_filter_simps div_digits octet_digits)

lemma atoi_show_octet: "0 \<le> n \<Longrightarrow> n < 256 \<Longrightarrow> atoi (show_octet n) = Some n"
  using show_octet_digits [of n]
  by (simp add: atoi_def digits_show_octet list_all_iff is_dec_def)

lemma dig_zero: "0 \<le> d \<Longrightarrow> d < 10 \<Longrightarrow> dig d = CHR ''0'' \<Longrightarrow> d = 0"
  using dec_digit_dig [of d] by (simp add: dec_digit_def)

lemma hd_show_octet:
  assumes "0 \<le> n" "n < 256" "length (show_octet n) > 1"
  shows "hd (show_octet n) \<noteq> CHR ''0'' \<and> dec_digit (hd (show_octet n)) \<noteq> None"
proof -
  have "n < 100 \<Longrightarrow> \<not> n < 10 \<Longrightarrow> n div 10 \<noteq> 0" "\<not> n < 100 \<Longrightarrow> n div 100 \<noteq> 0"
    using assms(1) by (simp_all add: zdiv_eq_0_iff)
  then show ?thesis
    using assms dig_zero [of "n div 10"] dig_zero [of "n div 100"] div_digits [OF assms(1,2)]
    by (auto simp: show_octet_def)
qed

lemma ParsePrefix_show:
  assumes "0 \<le> a" "a < 256" "0 \<le> b" "b < 256" "0 \<le> c" "c < 256" "0 \<le> d" "d < 256"
    and "0 \<le> n" "n \<le> 32"
  shows "ParsePrefix (show_ipv4 a b c d @ ''/'' @ show_octet n) =
    Some \<lparr>p_addr = Addr4 (ipv4 a b c d), p_bits = Some (nat n)\<rparr>"
proof -
  have n: "n < 256" using assms by simp
  have "CHR ''/'' \<notin> set (show_octet n)"
    using show_octet_digits [OF assms(9) n] by auto
  then have cut: "cut_last (CHR ''/'') (show_ipv4 a b c d @ ''/'' @ show_octet n)
      = Some (show_ipv4 a b c d, show_octet n)"
    by (simp add: cut_last_append)
  show ?thesis
    unfolding ParsePrefix_def cut
    using hd_show_octet [OF assms(9) n] assms
    by (auto simp: ParseAddr_show atoi_show_octet PrefixFrom_def)
qed

lemma ParsePrefix_bare:
  assumes "0 \<le> a" "a < 256" "0 \<le> b" "b < 256" "0 \<le> c" "c < 256" "0 \<le> d" "d < 256"
  shows "ParsePrefix (show_ipv4 a b c d) = None"
proof -
  have "CHR ''/'' \<notin> set (show_ipv4 a b c d)" 
    using show_ipv4_chars [OF assms] by auto
  then show ?thesis by (simp add: ParsePrefix_def iffD2 [OF cut_last_None_iff])
qed

lemma SplitHostPort_show:
  assumes "0 \<le> a" "a < 256" "0 \<le> b" "b < 256" "0 \<le> c" "c < 256" "0 \<le> d" "d < 256"
    and port: "set port \<inter> {CHR '':'', CHR ''['', CHR '']''} = {}"
  shows "SplitHostPort (show_ipv4 a b c d @ '':'' @ port) = Some (show_ipv4 a b c d, port)"
proof -
  let ?h = "show_ipv4 a b c d"
  have h: "x \<notin> set ?h" if "x \<in> {CHR '':'', CHR ''['', CHR '']''}" for x
    using show_ipv4_chars [OF assms(1-8)] that by auto
  have cut: "cut_last (CHR '':'') (?h @ '':'' @ port) = Some (?h, port)"
    using port by (simp add: cut_last_append)
  have "\<not> is_prefix_of ''['' (?h @ '':'' @ port)"
    using h [of "CHR ''[''"] by (cases ?h) auto
  then show ?thesis
    using h port cut by (auto simp: SplitHostPort_def)
qed
end
