(* ===== verification/Breaker.thy ===== *)
theory Breaker
  imports Prelude
begin

text \<open>
  Package breaker (breaker/breaker.go): the circuit breaker.  Every method holds the mutex, so
  each is one atomic step; \<open>now\<close> is what the clock returns in that step (a method reads it at
  most once).  Counters are 64-bit and wrap; \<open>Time.Sub\<close> saturates.
\<close>

section \<open>State\<close>

datatype State = Closed | Open | HalfOpen

record BreakerConfig =
  FailureThreshold :: int
  OpenTimeout :: int  \<comment> \<open>nanoseconds\<close>
  HalfOpenMaxSuccess :: int

record Breaker =
  cfg :: BreakerConfig
  br_state :: State
  failures :: int
  successes :: int
  openedAt :: int

text \<open>\<open>New\<close>: closed, every other field zero.\<close>

definition New :: "BreakerConfig \<Rightarrow> Breaker" where
  "New c = \<lparr>cfg = c, br_state = Closed, failures = 0, successes = 0, openedAt = 0\<rparr>"

section \<open>Operations\<close>

definition clamp64 :: "int \<Rightarrow> int" where
  "clamp64 d = max min_i64 (min max_i64 d)"

definition Time_Sub :: "int \<Rightarrow> int \<Rightarrow> int" where
  "Time_Sub t u = clamp64 (t - u)"

definition checkOpenTimeout :: "int \<Rightarrow> Breaker \<Rightarrow> Breaker" where
  "checkOpenTimeout now b =
     (if br_state b = Open \<and> Time_Sub now (openedAt b) \<ge> OpenTimeout (cfg b)
      then b\<lparr>br_state := HalfOpen, successes := 0\<rparr> else b)"

definition toOpen :: "int \<Rightarrow> Breaker \<Rightarrow> Breaker" where
  "toOpen now b = b\<lparr>br_state := Open, openedAt := now, successes := 0\<rparr>"

definition Breaker_State :: "int \<Rightarrow> Breaker \<Rightarrow> State \<times> Breaker" where
  "Breaker_State now b = (let b' = checkOpenTimeout now b in (br_state b', b'))"

definition Breaker_Allow :: "int \<Rightarrow> Breaker \<Rightarrow> bool \<times> Breaker" where
  "Breaker_Allow now b =
     (let b' = checkOpenTimeout now b
      in (case br_state b' of
            Closed \<Rightarrow> True
          | HalfOpen \<Rightarrow> successes b' < HalfOpenMaxSuccess (cfg b')
          | Open \<Rightarrow> False, b'))"

definition OnSuccess :: "Breaker \<Rightarrow> Breaker" where
  "OnSuccess b =
     (case br_state b of
        Closed \<Rightarrow> b\<lparr>failures := 0\<rparr>
      | HalfOpen \<Rightarrow>
          (let b' = b\<lparr>successes := wrap64 (successes b + 1)\<rparr>
           in if successes b' \<ge> HalfOpenMaxSuccess (cfg b')
              then b'\<lparr>br_state := Closed, failures := 0, successes := 0\<rparr> else b')
      | Open \<Rightarrow> b)"

definition OnFailure :: "int \<Rightarrow> Breaker \<Rightarrow> Breaker" where
  "OnFailure now b =
     (case br_state b of
        Closed \<Rightarrow>
          (let b' = b\<lparr>failures := wrap64 (failures b + 1)\<rparr>
           in if failures b' \<ge> FailureThreshold (cfg b') then toOpen now b' else b')
      | HalfOpen \<Rightarrow> toOpen now b
      | Open \<Rightarrow> b)"

section \<open>The specification\<close>

text \<open>
  What the package comment promises: a counter of consecutive failures while closed, the
  moment of tripping while open, a counter of consecutive successes while half open.  The
  counters are natural numbers, and only the field that matters is there.
\<close>

datatype abreaker = AClosed nat | AOpen int | AHalfOpen nat

text \<open>Thresholds below one act as one.\<close>

definition threshold :: "int \<Rightarrow> nat" where
  "threshold k = nat (max 1 k)"

definition a_timeout :: "BreakerConfig \<Rightarrow> int \<Rightarrow> abreaker \<Rightarrow> abreaker" where
  "a_timeout c now a =
     (case a of AOpen t \<Rightarrow> (if now - t \<ge> OpenTimeout c then AHalfOpen 0 else a) | _ \<Rightarrow> a)"

definition a_allow :: "BreakerConfig \<Rightarrow> abreaker \<Rightarrow> bool" where
  "a_allow c a =
     (case a of AClosed _ \<Rightarrow> True | AOpen _ \<Rightarrow> False | AHalfOpen _ \<Rightarrow> 0 < HalfOpenMaxSuccess c)"

definition a_success :: "BreakerConfig \<Rightarrow> abreaker \<Rightarrow> abreaker" where
  "a_success c a =
     (case a of
        AClosed _ \<Rightarrow> AClosed 0
      | AOpen t \<Rightarrow> AOpen t
      | AHalfOpen n \<Rightarrow>
          (if Suc n < threshold (HalfOpenMaxSuccess c) then AHalfOpen (Suc n) else AClosed 0))"

definition a_failure :: "BreakerConfig \<Rightarrow> int \<Rightarrow> abreaker \<Rightarrow> abreaker" where
  "a_failure c now a =
     (case a of
        AClosed n \<Rightarrow> (if Suc n < threshold (FailureThreshold c) then AClosed (Suc n) else AOpen now)
      | AOpen t \<Rightarrow> AOpen t
      | AHalfOpen _ \<Rightarrow> AOpen now)"

definition abs_breaker :: "Breaker \<Rightarrow> abreaker" where
  "abs_breaker b =
     (case br_state b of
        Closed \<Rightarrow> AClosed (nat (failures b))
      | Open \<Rightarrow> AOpen (openedAt b)
      | HalfOpen \<Rightarrow> AHalfOpen (nat (successes b)))"

section \<open>The system\<close>

text \<open>
  Callers invoke the methods in any order and number, at times that never go back (the
  clock is monotonic).  Nothing ties a reported success or failure to an allowed request.
\<close>

record breaker_sys =
  brk :: Breaker
  br_clock :: int

inductive br_step :: "breaker_sys \<Rightarrow> breaker_sys \<Rightarrow> bool" where
  br_tick: "br_clock s \<le> t \<Longrightarrow> br_step s (s\<lparr>br_clock := t\<rparr>)"
| br_query: "br_step s (s\<lparr>brk := snd (Breaker_State (br_clock s) (brk s))\<rparr>)"
| br_allow: "br_step s (s\<lparr>brk := snd (Breaker_Allow (br_clock s) (brk s))\<rparr>)"
| br_success: "br_step s (s\<lparr>brk := OnSuccess (brk s)\<rparr>)"
| br_failure: "br_step s (s\<lparr>brk := OnFailure (br_clock s) (brk s)\<rparr>)"

inductive_cases br_stepE: "br_step s t"

definition cfg_i64 :: "BreakerConfig \<Rightarrow> bool" where
  "cfg_i64 c \<longleftrightarrow> in_i64 (FailureThreshold c) \<and> in_i64 (OpenTimeout c) \<and> in_i64 (HalfOpenMaxSuccess c)"

definition br_init :: "breaker_sys \<Rightarrow> bool" where
  "br_init s \<longleftrightarrow> (\<exists>c. cfg_i64 c \<and> brk s = New c)"

text \<open>
  The invariant: a counter that matters is below its threshold, so no counter overflows, and
  the breaker opened in the past.
\<close>

definition br_ok :: "int \<Rightarrow> Breaker \<Rightarrow> bool" where
  "br_ok now b \<longleftrightarrow>
     cfg_i64 (cfg b) \<and>
     (br_state b = Closed \<longrightarrow> 0 \<le> failures b \<and> failures b < max 1 (FailureThreshold (cfg b))) \<and>
     (br_state b = HalfOpen \<longrightarrow> 0 \<le> successes b \<and> successes b < max 1 (HalfOpenMaxSuccess (cfg b))) \<and>
     (br_state b = Open \<longrightarrow> openedAt b \<le> now)"

definition br_inv :: "breaker_sys \<Rightarrow> bool" where
  "br_inv s \<longleftrightarrow> br_ok (br_clock s) (brk s)"

lemma clamp64_ge_iff: "in_i64 k \<Longrightarrow> 0 \<le> d \<Longrightarrow> clamp64 d \<ge> k \<longleftrightarrow> d \<ge> k"
  by (auto simp: clamp64_def in_i64_def)

lemma wrap64_Suc: "0 \<le> n \<Longrightarrow> n < max 1 k \<Longrightarrow> in_i64 k \<Longrightarrow> wrap64 (n + 1) = n + 1"
  by (rule wrap64_id) (auto simp: in_i64_def)

lemma threshold_less: "0 \<le> n \<Longrightarrow> Suc (nat n) < threshold k \<longleftrightarrow> n + 1 < max 1 k"
  by (simp add: threshold_def) linarith

lemmas br_ops = checkOpenTimeout_def toOpen_def Breaker_State_def Breaker_Allow_def OnSuccess_def
  OnFailure_def Time_Sub_def

lemma br_ok_wrap:
  assumes "br_ok now b"
  shows "br_state b = Closed \<Longrightarrow> wrap64 (failures b + 1) = failures b + 1"
    and "br_state b = HalfOpen \<Longrightarrow> wrap64 (successes b + 1) = successes b + 1"
  using assms by (auto simp: br_ok_def cfg_i64_def intro: wrap64_Suc)

lemma br_ok_ops:
  assumes "br_ok now b"
  shows "br_ok now (checkOpenTimeout now b)" "br_ok now (OnSuccess b)" "br_ok now (OnFailure now b)"
    and "now \<le> t \<Longrightarrow> br_ok t b"
  using assms
  by (cases "br_state b"; auto simp: br_ops Let_def br_ok_wrap [OF assms] br_ok_def)+

lemma cfg_ops [simp]:
  "cfg (checkOpenTimeout now b) = cfg b" "cfg (OnSuccess b) = cfg b" "cfg (OnFailure now b) = cfg b"
  by (auto simp: br_ops Let_def split: State.splits)

text \<open>The methods that query the breaker act on it as \<open>checkOpenTimeout\<close> does.\<close>

lemma snd_query [simp]:
  "snd (Breaker_State now b) = checkOpenTimeout now b"
  "snd (Breaker_Allow now b) = checkOpenTimeout now b"
  by (simp_all add: Breaker_State_def Breaker_Allow_def Let_def)

lemma br_inv_step: "br_inv s \<Longrightarrow> br_step s t \<Longrightarrow> br_inv t"
  by (erule br_stepE) (auto simp: br_inv_def br_ok_ops)

lemma br_inv_init: "br_init s \<Longrightarrow> br_inv s"
  by (auto simp: br_init_def br_inv_def br_ok_def New_def)

interpretation br: inductive_invariant br_step br_init br_inv
  by unfold_locales (auto intro: br_inv_init br_inv_step)

section \<open>Refinement\<close>

text \<open>The simulation, operation by operation.\<close>

lemma abs_timeout:
  "br_ok now b \<Longrightarrow> abs_breaker (checkOpenTimeout now b) = a_timeout (cfg b) now (abs_breaker b)"
  by (auto simp: checkOpenTimeout_def Time_Sub_def abs_breaker_def a_timeout_def br_ok_def cfg_i64_def
      clamp64_ge_iff split: State.splits)

lemma abs_success:
  assumes "br_ok now b"
  shows "abs_breaker (OnSuccess b) = a_success (cfg b) (abs_breaker b)"
  using assms
  by (cases "br_state b")
     (auto simp: OnSuccess_def abs_breaker_def a_success_def Let_def br_ok_wrap [OF assms] br_ok_def
       threshold_less nat_add_distrib)

lemma abs_failure:
  assumes "br_ok now b"
  shows "abs_breaker (OnFailure now b) = a_failure (cfg b) now (abs_breaker b)"
  using assms
  by (cases "br_state b")
     (auto simp: OnFailure_def toOpen_def abs_breaker_def a_failure_def Let_def br_ok_wrap [OF assms]
       br_ok_def threshold_less nat_add_distrib)

lemma abs_allow_state: "br_ok now b \<Longrightarrow>
   (case br_state b of Closed \<Rightarrow> True | HalfOpen \<Rightarrow> successes b < HalfOpenMaxSuccess (cfg b) | Open \<Rightarrow> False)
     = a_allow (cfg b) (abs_breaker b)"
  by (cases "br_state b") (auto simp: br_ok_def a_allow_def abs_breaker_def)

lemma abs_allow:
  assumes "br_ok now b"
  shows "fst (Breaker_Allow now b) = a_allow (cfg b) (a_timeout (cfg b) now (abs_breaker b))"
  using abs_allow_state [OF br_ok_ops(1) [OF assms]]
  by (simp add: Breaker_Allow_def Let_def abs_timeout [OF assms])

section \<open>Requests in flight\<close>

text \<open>
  The discipline callers keep: a request runs only if \<open>Allow\<close> let it through, and reports
  one success or one failure when it is done.  The second component counts the requests in
  flight.
\<close>

inductive br_use :: "breaker_sys \<times> nat \<Rightarrow> breaker_sys \<times> nat \<Rightarrow> bool" where
  use_tick: "br_clock s \<le> t \<Longrightarrow> br_use (s, n) (s\<lparr>br_clock := t\<rparr>, n)"
| use_query: "br_use (s, n) (s\<lparr>brk := snd (Breaker_State (br_clock s) (brk s))\<rparr>, n)"
| use_allowed: "Breaker_Allow (br_clock s) (brk s) = (True, b) \<Longrightarrow> br_use (s, n) (s\<lparr>brk := b\<rparr>, Suc n)"
| use_refused: "Breaker_Allow (br_clock s) (brk s) = (False, b) \<Longrightarrow> br_use (s, n) (s\<lparr>brk := b\<rparr>, n)"
| use_success: "br_use (s, Suc n) (s\<lparr>brk := OnSuccess (brk s)\<rparr>, n)"
| use_failure: "br_use (s, Suc n) (s\<lparr>brk := OnFailure (br_clock s) (brk s)\<rparr>, n)"

inductive_cases br_useE: "br_use p q"

lemma br_use_step: "br_use p q \<Longrightarrow> br_step (fst p) (fst q)"
proof (erule br_useE, goal_cases)
  case (3 s b n)
  then show ?case using br_allow [of s] by simp
next
  case (4 s b n)
  then show ?case using br_allow [of s] by simp
next
  case (2 s n)
  then show ?case using br_query [of s] by simp
qed (auto intro: br_tick br_success br_failure)

lemma br_use_inv: "br_inv (fst p) \<Longrightarrow> br_use p q \<Longrightarrow> br_inv (fst q)"
  by (rule br_inv_step [OF _ br_use_step])

interpretation brU: inductive_invariant br_use "\<lambda>p. br_init (fst p) \<and> snd p = 0" "\<lambda>p. br_inv (fst p)"
  by unfold_locales (auto intro: br_inv_init br_use_inv)

section \<open>Runs of failures and of successes\<close>

lemma a_simps [simp]:
  "a_success c (AClosed n) = AClosed 0"
  "a_success c (AOpen t) = AOpen t"
  "a_success c (AHalfOpen n) =
     (if Suc n < threshold (HalfOpenMaxSuccess c) then AHalfOpen (Suc n) else AClosed 0)"
  "a_failure c now (AClosed n) =
     (if Suc n < threshold (FailureThreshold c) then AClosed (Suc n) else AOpen now)"
  "a_failure c now (AOpen t) = AOpen t"
  "a_failure c now (AHalfOpen n) = AOpen now"
  by (simp_all add: a_success_def a_failure_def)

lemma threshold_pos [simp]: "0 < threshold k"
  by (simp add: threshold_def)

lemma a_failures_open [simp]: "fold (a_failure c) ts (AOpen u) = AOpen u"
  by (induction ts) simp_all

lemma a_failures:
  "n < threshold (FailureThreshold c) \<Longrightarrow>
   fold (a_failure c) ts (AClosed n) =
     (if n + length ts < threshold (FailureThreshold c) then AClosed (n + length ts)
      else AOpen (ts ! (threshold (FailureThreshold c) - Suc n)))"
proof (induction ts arbitrary: n)
  case (Cons t ts)
  show ?case
  proof (cases "Suc n < threshold (FailureThreshold c)")
    case True
    with Cons.IH [of "Suc n"] show ?thesis by (auto simp: nth_Cons')
  next
    case False
    with Cons.prems have "threshold (FailureThreshold c) = Suc n" by simp
    then show ?thesis by simp
  qed
qed simp

lemma abs_failures:
  "br_ok now b \<Longrightarrow> sorted (now # ts) \<Longrightarrow>
   abs_breaker (fold OnFailure ts b) = fold (a_failure (cfg b)) ts (abs_breaker b)"
proof (induction ts arbitrary: now b)
  case (Cons t ts)
  then have "br_ok t b" "sorted (t # ts)" by (auto intro: br_ok_ops(4))
  then show ?case using Cons.IH [of t "OnFailure t b"] by (simp add: abs_failure br_ok_ops)
qed simp

lemma a_successes:
  "(a_success c ^^ k) (AHalfOpen 0) =
     (if k < threshold (HalfOpenMaxSuccess c) then AHalfOpen k else AClosed 0)"
  by (induction k) auto

lemma abs_successes:
  "br_ok now b \<Longrightarrow> br_ok now ((OnSuccess ^^ k) b) \<and> cfg ((OnSuccess ^^ k) b) = cfg b \<and>
     abs_breaker ((OnSuccess ^^ k) b) = (a_success (cfg b) ^^ k) (abs_breaker b)"
  by (induction k) (auto simp: br_ok_ops abs_success)

lemma abs_closed: "abs_breaker b = AClosed n \<Longrightarrow> br_state b = Closed"
  and abs_open: "abs_breaker b = AOpen u \<Longrightarrow> br_state b = Open \<and> openedAt b = u"
  and abs_half: "abs_breaker b = AHalfOpen n \<Longrightarrow> br_state b = HalfOpen"
  by (cases "br_state b"; simp add: abs_breaker_def)+

section \<open>Properties\<close>

text \<open>
  C5: in every reachable state the breaker simulates the three-state specification with
  unbounded counters: every operation commutes with the abstraction, and \<open>Allow\<close> and
  \<open>State\<close> return what the specification says after its timeout check.
\<close>

theorem breaker_refines:
  assumes "reachable br_step br_init s" and "b = brk s" and "now = br_clock s" and "c = cfg b"
  shows "abs_breaker (OnSuccess b) = a_success c (abs_breaker b) \<and>
    abs_breaker (OnFailure now b) = a_failure c now (abs_breaker b) \<and>
    abs_breaker (snd (Breaker_State now b)) = a_timeout c now (abs_breaker b) \<and>
    fst (Breaker_State now b) = br_state (snd (Breaker_State now b)) \<and>
    abs_breaker (snd (Breaker_Allow now b)) = a_timeout c now (abs_breaker b) \<and>
    fst (Breaker_Allow now b) = a_allow c (a_timeout c now (abs_breaker b))"
proof -
  have "br_ok now b" using br.inv_reachable [OF assms(1)] assms(2,3) by (simp add: br_inv_def)
  then show ?thesis
    by (simp add: abs_success abs_failure abs_timeout abs_allow assms(4))
       (simp add: Breaker_State_def Let_def)
qed

text \<open>
  while closed, the breaker trips at exactly the threshold: after a success, \<open>k\<close>
  failures in a row leave it closed if \<open>k\<close> is below the threshold (a threshold below one
  counts as one), and otherwise it is open since the failure that reached it.
\<close>

theorem breaker_trips_at_threshold:
  assumes "reachable br_step br_init s" and "br_state (brk s) = Closed" and "sorted (br_clock s # ts)"
  shows "let b = fold OnFailure ts (OnSuccess (brk s)); k = nat (max 1 (FailureThreshold (cfg (brk s))))
    in if length ts < k then br_state b = Closed else br_state b = Open \<and> openedAt b = ts ! (k - 1)"
proof -
  have ok: "br_ok (br_clock s) (brk s)" using br.inv_reachable [OF assms(1)] by (simp add: br_inv_def)
  have "abs_breaker (OnSuccess (brk s)) = AClosed 0"
    using assms(2) by (simp add: OnSuccess_def abs_breaker_def)
  with abs_failures [OF br_ok_ops(2) [OF ok] assms(3)]
  have "abs_breaker (fold OnFailure ts (OnSuccess (brk s))) =
      fold (a_failure (cfg (brk s))) ts (AClosed 0)" by simp
  also note a_failures [OF threshold_pos]
  finally show ?thesis
    using abs_closed abs_open by (auto simp: Let_def threshold_def split: if_splits)
qed

text \<open>
  an open breaker blocks for the whole timeout: whatever callers do, as long as the
  clock is less than \<open>OpenTimeout\<close> after the moment it opened, it stays open and \<open>Allow\<close>
  refuses.
\<close>

theorem breaker_blocks_until_timeout:
  assumes "reachable br_step br_init s" and "br_state (brk s) = Open" and "steps br_step s t"
    and "br_clock t - openedAt (brk s) < OpenTimeout (cfg (brk s))"
  shows "br_state (brk t) = Open \<and> openedAt (brk t) = openedAt (brk s) \<and>
    \<not> fst (Breaker_Allow (br_clock t) (brk t))"
proof -
  let ?o = "openedAt (brk s)" and ?c = "cfg (brk s)"
  let ?P = "\<lambda>t. br_clock t - ?o < OpenTimeout ?c \<longrightarrow>
      br_state (brk t) = Open \<and> openedAt (brk t) = ?o \<and> cfg (brk t) = ?c"
  have timeout: "checkOpenTimeout (br_clock u) (brk u) = brk u"
    if "br_inv u" "?P u" "br_clock u - ?o < OpenTimeout ?c" for u
    using that by (auto simp: checkOpenTimeout_def Time_Sub_def br_inv_def br_ok_def cfg_i64_def clamp64_ge_iff)
  have "?P t"
  proof (rule br.stable_steps [OF _ assms(3)])
    fix u v assume "br_inv u" "?P u" "br_step u v"
    from this(3) show "?P v"
    proof cases
      case br_success
      with \<open>?P u\<close> show ?thesis by (auto simp: OnSuccess_def)
    next
      case br_failure
      with \<open>?P u\<close> show ?thesis by (auto simp: OnFailure_def)
    qed (use \<open>?P u\<close> timeout [OF \<open>br_inv u\<close> \<open>?P u\<close>] in auto)
  qed (use br.inv_reachable [OF assms(1)] assms(2) in auto)
  moreover have "br_inv t"
    by (rule br.inv_steps [OF assms(3) br.inv_reachable [OF assms(1)]])
  ultimately show ?thesis
    using assms(4) timeout [of t] by (auto simp: Breaker_Allow_def Let_def)
qed

text \<open>
  recovery: after the timeout the next \<open>Allow\<close> lets a probe through in the half-open
  state; \<open>HalfOpenMaxSuccess\<close> successes in a row close the breaker, fewer do not, and a
  failure before that opens it again, now.
\<close>

theorem breaker_recovery_cycle:
  assumes "reachable br_step br_init s" and "br_state (brk s) = Open" and "now = br_clock s"
    and "OpenTimeout (cfg (brk s)) \<le> now - openedAt (brk s)" and "b = snd (Breaker_Allow now (brk s))"
    and "0 < HalfOpenMaxSuccess (cfg (brk s))"
  shows "fst (Breaker_Allow now (brk s)) \<and> br_state b = HalfOpen \<and>
    (if int k < HalfOpenMaxSuccess (cfg (brk s))
     then br_state ((OnSuccess ^^ k) b) = HalfOpen \<and>
          br_state (OnFailure now ((OnSuccess ^^ k) b)) = Open \<and>
          openedAt (OnFailure now ((OnSuccess ^^ k) b)) = now
     else br_state ((OnSuccess ^^ k) b) = Closed)"
proof -
  let ?c = "cfg (brk s)"
  have ok: "br_ok now (brk s)" using br.inv_reachable [OF assms(1)] assms(3) by (simp add: br_inv_def)
  have "abs_breaker (brk s) = AOpen (openedAt (brk s))" using assms(2) by (simp add: abs_breaker_def)
  with abs_timeout [OF ok] assms(4) have b: "abs_breaker b = AHalfOpen 0"
    by (simp add: assms(5) a_timeout_def)
  moreover have okb: "br_ok now b" "cfg b = ?c" using ok by (simp_all add: assms(5) br_ok_ops)
  moreover have "fst (Breaker_Allow now (brk s))"
    using abs_allow [OF ok] abs_timeout [OF ok] b assms(5,6) by (simp add: a_allow_def)
  moreover have "int k < HalfOpenMaxSuccess ?c \<longleftrightarrow> k < threshold (HalfOpenMaxSuccess ?c)"
    using assms(6) by (auto simp: threshold_def)
  ultimately show ?thesis
    using abs_successes [OF okb(1), of k] a_successes [of k ?c]
      abs_failure [of now "(OnSuccess ^^ k) b"] abs_half abs_closed abs_open
    by auto
qed

text \<open>
  with \<open>HalfOpenMaxSuccess\<close> at most zero, the zero value of the configuration
  included, a breaker that has opened while nothing is in flight never lets a request
  through again: no request runs, so no success can close it.
\<close>

theorem breaker_stuck_without_probes:
  assumes "reachable br_step br_init s" and "br_state (brk s) \<noteq> Closed"
    and "HalfOpenMaxSuccess (cfg (brk s)) \<le> 0" and "steps br_use (s, 0) (t, n)"
  shows "n = 0 \<and> br_state (brk t) \<noteq> Closed \<and> \<not> fst (Breaker_Allow (br_clock t) (brk t))"
proof -
  let ?P = "\<lambda>p. snd p = 0 \<and> br_state (brk (fst p)) \<noteq> Closed \<and> HalfOpenMaxSuccess (cfg (brk (fst p))) \<le> 0"
  have refused: "\<not> fst (Breaker_Allow (br_clock u) (brk u))" and
    query: "br_state (checkOpenTimeout (br_clock u) (brk u)) \<noteq> Closed"
    if "br_inv u" "br_state (brk u) \<noteq> Closed" "HalfOpenMaxSuccess (cfg (brk u)) \<le> 0" for u
    using that
    by (auto simp: Breaker_Allow_def checkOpenTimeout_def Let_def br_inv_def br_ok_def split: State.splits)
  have "?P (t, n)"
  proof (rule brU.stable_steps [OF _ assms(4)])
    fix p q assume inv: "br_inv (fst p)" and P: "?P p" and "br_use p q"
    from this(3) show "?P q"
    proof cases
      case (use_refused s b k)
      then have "b = checkOpenTimeout (br_clock s) (brk s)" using snd_query(2) by (metis snd_conv)
      with use_refused P query [OF inv] show ?thesis by auto
    qed (use P refused [OF inv] query [OF inv] in auto)
  qed (use br.inv_reachable [OF assms(1)] assms(2,3) in auto)
  moreover have "br_inv t"
    using brU.inv_steps [OF assms(4)] br.inv_reachable [OF assms(1)] by simp
  ultimately show ?thesis using refused by auto
qed

text \<open>
  the half-open state does not limit the probes: as long as none has reported back,
  any number of further requests is let through.
\<close>

theorem breaker_probes_unlimited:
  assumes "reachable br_step br_init s" and "br_state (brk s) = HalfOpen"
    and "0 < HalfOpenMaxSuccess (cfg (brk s))"
  shows "steps br_use (s, k) (s, k + n)"
proof (induction n)
  case (Suc n)
  have "successes (brk s) < HalfOpenMaxSuccess (cfg (brk s))"
    using br.inv_reachable [OF assms(1)] assms(2,3) by (auto simp: br_inv_def br_ok_def)
  then have "Breaker_Allow (br_clock s) (brk s) = (True, brk s)"
    using assms(2) by (simp add: Breaker_Allow_def checkOpenTimeout_def)
  from use_allowed [OF this, of "k + n"] have "br_use (s, k + n) (s, Suc (k + n))" by simp
  with Suc show ?case by (auto intro: steps_step)
qed (simp add: steps_refl)

section \<open>Witnesses\<close>

text \<open>A threshold of two, a timeout of ten, and \<open>k\<close> successes to close.\<close>

definition demo_cfg :: "int \<Rightarrow> BreakerConfig" where
  "demo_cfg k = \<lparr>FailureThreshold = 2, OpenTimeout = 10, HalfOpenMaxSuccess = k\<rparr>"

definition demo_closed :: "int \<Rightarrow> breaker_sys" where
  "demo_closed k = \<lparr>brk = New (demo_cfg k), br_clock = 0\<rparr>"

definition demo_open :: "int \<Rightarrow> int \<Rightarrow> breaker_sys" where
  "demo_open k now = \<lparr>brk = \<lparr>cfg = demo_cfg k, br_state = Open, failures = 2, successes = 0, openedAt = 0\<rparr>,
     br_clock = now\<rparr>"

definition demo_half :: "int \<Rightarrow> int \<Rightarrow> breaker_sys" where
  "demo_half k now = \<lparr>brk = \<lparr>cfg = demo_cfg k, br_state = HalfOpen, failures = 2, successes = 0, openedAt = 0\<rparr>,
     br_clock = now\<rparr>"

lemma demo_closed_reachable: "in_i64 k \<Longrightarrow> reachable br_step br_init (demo_closed k)"
  by (rule reachable_init)
     (auto simp: br_init_def demo_closed_def cfg_i64_def demo_cfg_def in_i64_def intro!: exI [of _ "demo_cfg k"])

lemma demo_open_reachable: "in_i64 k \<Longrightarrow> 0 \<le> now \<Longrightarrow> reachable br_step br_init (demo_open k now)"
proof -
  assume k: "in_i64 k" "0 \<le> now"
  let ?s1 = "(demo_closed k)\<lparr>brk := OnFailure 0 (New (demo_cfg k))\<rparr>"
  let ?s2 = "?s1\<lparr>brk := OnFailure 0 (brk ?s1)\<rparr>"
  have "reachable br_step br_init ?s1"
    using reachable_step [OF demo_closed_reachable [OF k(1)] br_failure] by (simp add: demo_closed_def)
  from reachable_step [OF this br_failure] have "reachable br_step br_init ?s2"
    by (simp add: demo_closed_def)
  moreover have "br_step ?s2 (?s2\<lparr>br_clock := now\<rparr>)"
    by (rule br_tick) (simp add: demo_closed_def k(2))
  ultimately have "reachable br_step br_init (?s2\<lparr>br_clock := now\<rparr>)" by (rule reachable_step)
  moreover have "?s2\<lparr>br_clock := now\<rparr> = demo_open k now"
    by (simp add: demo_closed_def demo_open_def New_def OnFailure_def toOpen_def demo_cfg_def Let_def wrap64_def)
  ultimately show ?thesis by (simp only:)
qed

lemma demo_half_reachable: "in_i64 k \<Longrightarrow> 10 \<le> now \<Longrightarrow> now \<le> max_i64 \<Longrightarrow> reachable br_step br_init (demo_half k now)"
  using reachable_step [OF demo_open_reachable br_query, of k now]
  by (simp add: demo_open_def demo_half_def checkOpenTimeout_def Time_Sub_def clamp64_def demo_cfg_def)

theorem breaker_refines_witness:
  "abs_breaker (OnFailure 5 (New (demo_cfg 1))) = a_failure (demo_cfg 1) 5 (AClosed 0)"
  using breaker_refines [OF reachable_step [OF demo_closed_reachable br_tick [of _ 5]], of 1 "New (demo_cfg 1)" 5 "demo_cfg 1"]
  by (simp add: demo_closed_def New_def abs_breaker_def in_i64_def)

theorem breaker_trips_at_threshold_witness:
  "br_state (OnFailure 3 (OnFailure 1 (OnSuccess (New (demo_cfg 1))))) = Open \<and>
   openedAt (OnFailure 3 (OnFailure 1 (OnSuccess (New (demo_cfg 1))))) = 3"
  using breaker_trips_at_threshold [OF demo_closed_reachable [of 1], of "[1, 3]"]
  by (simp add: demo_closed_def New_def demo_cfg_def in_i64_def Let_def)

theorem breaker_blocks_until_timeout_witness:
  "\<not> fst (Breaker_Allow 9 (brk (demo_open 1 9)))"
  using breaker_blocks_until_timeout [OF demo_open_reachable _ steps_refl, of 1 9]
  by (simp add: demo_open_def demo_cfg_def in_i64_def)

theorem breaker_recovery_cycle_witness:
  "fst (Breaker_Allow 10 (brk (demo_open 1 10))) \<and>
   br_state (OnSuccess (snd (Breaker_Allow 10 (brk (demo_open 1 10))))) = Closed"
  using breaker_recovery_cycle [OF demo_open_reachable _ refl _ refl, of 1 10 1]
  by (simp add: demo_open_def demo_cfg_def in_i64_def)

theorem breaker_stuck_without_probes_witness:
  "\<not> fst (Breaker_Allow 1000 (brk (demo_open 0 1000)))"
  using breaker_stuck_without_probes [OF demo_open_reachable _ _ steps_refl, of 0 1000]
  by (simp add: demo_open_def demo_cfg_def in_i64_def)

theorem breaker_probes_unlimited_witness:
  "steps br_use (demo_half 1 10, 0) (demo_half 1 10, 1000000)"
  using breaker_probes_unlimited [OF demo_half_reachable, of 1 10 0 1000000]
  by (simp add: demo_half_def demo_cfg_def in_i64_def)

end
