(* ===== verification/Breaker_Clock.thy ===== *)
theory Breaker_Clock
  imports Breaker
begin

text \<open>
  The circuit breaker with its clock (breaker/breaker.go): the methods of Breaker take the time
  as an argument, here they read it where the code does.  Shown is that the former stand for
  the latter, and that every breaker in use is in a state of the system of Breaker.
\<close>

section \<open>The methods as they read the clock\<close>

text \<open>A clock: what a reading gives, and the world after it.\<close>

type_synonym 'w clk = "'w \<Rightarrow> int \<times> 'w"

text \<open>
  \<open>now\<close> with the field \<open>nowFunc\<close>, which \<open>New\<close> sets to \<open>time.Now\<close> and which is nil in a breaker
  that was not made by \<open>New\<close>.
\<close>

definition Breaker_now :: "'w clk \<Rightarrow> 'w clk option \<Rightarrow> 'w clk" where
  "Breaker_now time_Now nowFunc = (case nowFunc of Some f \<Rightarrow> f | None \<Rightarrow> time_Now)"

definition clk_checkOpenTimeout :: "'w clk \<Rightarrow> Breaker \<Rightarrow> 'w \<Rightarrow> Breaker \<times> 'w" where
  "clk_checkOpenTimeout now b w =
     (if br_state b = Open
      then (let (t, w') = now w
            in (if Time_Sub t (openedAt b) \<ge> OpenTimeout (cfg b) then b\<lparr>br_state := HalfOpen, successes := 0\<rparr> else b, w'))
      else (b, w))"

definition clk_toOpen :: "'w clk \<Rightarrow> Breaker \<Rightarrow> 'w \<Rightarrow> Breaker \<times> 'w" where
  "clk_toOpen now b w =
     (let b1 = b\<lparr>br_state := Open\<rparr>;
          (t, w') = now w
      in (b1\<lparr>openedAt := t, successes := 0\<rparr>, w'))"

definition clk_State :: "'w clk \<Rightarrow> Breaker \<Rightarrow> 'w \<Rightarrow> State \<times> Breaker \<times> 'w" where
  "clk_State now b w = (let (b', w') = clk_checkOpenTimeout now b w in (br_state b', b', w'))"

definition clk_Allow :: "'w clk \<Rightarrow> Breaker \<Rightarrow> 'w \<Rightarrow> bool \<times> Breaker \<times> 'w" where
  "clk_Allow now b w =
     (let (b', w') = clk_checkOpenTimeout now b w
      in (case br_state b' of
            Closed \<Rightarrow> True
          | HalfOpen \<Rightarrow> successes b' < HalfOpenMaxSuccess (cfg b')
          | Open \<Rightarrow> False, b', w'))"

definition clk_OnFailure :: "'w clk \<Rightarrow> Breaker \<Rightarrow> 'w \<Rightarrow> Breaker \<times> 'w" where
  "clk_OnFailure now b w =
     (case br_state b of
        Closed \<Rightarrow>
          (let b' = b\<lparr>failures := wrap64 (failures b + 1)\<rparr>
           in if failures b' \<ge> FailureThreshold (cfg b') then clk_toOpen now b' w else (b', w))
      | HalfOpen \<Rightarrow> clk_toOpen now b w
      | Open \<Rightarrow> (b, w))"

section \<open>They read it at most once\<close>

text \<open>Whether a method reads the clock: in the open state, or when it opens the breaker.\<close>

definition opens :: "Breaker \<Rightarrow> bool" where
  "opens b \<longleftrightarrow> br_state b = HalfOpen \<or> br_state b = Closed \<and> wrap64 (failures b + 1) \<ge> FailureThreshold (cfg b)"

lemma clk_check_eq:
  "clk_checkOpenTimeout now b w =
     (if br_state b = Open then (checkOpenTimeout (fst (now w)) b, snd (now w)) else (checkOpenTimeout t b, w))"
  by (simp add: clk_checkOpenTimeout_def checkOpenTimeout_def split_beta)

lemma clk_query_eq:
  assumes "t = fst (now w)" "w' = (if br_state b = Open then snd (now w) else w)"
  shows "clk_State now b w = (fst (Breaker_State t b), snd (Breaker_State t b), w')"
    and "clk_Allow now b w = (fst (Breaker_Allow t b), snd (Breaker_Allow t b), w')"
  using assms by (auto simp: clk_State_def clk_Allow_def clk_check_eq [of now b w t] Breaker_State_def Breaker_Allow_def Let_def)

lemma clk_failure_eq:
  "clk_OnFailure now b w = (OnFailure (fst (now w)) b, if opens b then snd (now w) else w)"
  by (auto simp: clk_OnFailure_def OnFailure_def opens_def clk_toOpen_def toOpen_def Let_def split_beta split: State.split)

section \<open>A breaker in use\<close>

text \<open>
  Calls one after the other, as the mutex makes them, with the answers of \<open>State\<close> and
  \<open>Allow\<close>.  Each call comes at a time: \<open>advance t\<close> lets the clock of the world go to \<open>t\<close>.
\<close>

datatype br_call = CallState | CallAllow | CallSuccess | CallFailure

datatype br_answer = IsState State | IsAllowed bool

primrec clk_call :: "'w clk \<Rightarrow> br_call \<Rightarrow> Breaker \<Rightarrow> 'w \<Rightarrow> br_answer list \<times> Breaker \<times> 'w" where
  "clk_call now CallState b w = (let (s, b', w') = clk_State now b w in ([IsState s], b', w'))"
| "clk_call now CallAllow b w = (let (ok, b', w') = clk_Allow now b w in ([IsAllowed ok], b', w'))"
| "clk_call now CallSuccess b w = ([], OnSuccess b, w)"
| "clk_call now CallFailure b w = (let (b', w') = clk_OnFailure now b w in ([], b', w'))"

fun clk_run ::
    "(int \<Rightarrow> 'w \<Rightarrow> 'w) \<Rightarrow> 'w clk \<Rightarrow> (int \<times> br_call) list \<Rightarrow> Breaker \<Rightarrow> 'w \<Rightarrow> br_answer list \<times> Breaker \<times> 'w" where
  "clk_run advance now [] b w = ([], b, w)"
| "clk_run advance now ((t, k) # tks) b w =
     (let (said, b1, w1) = clk_call now k b (advance t w);
          (more, b2, w2) = clk_run advance now tks b1 w1 in (said @ more, b2, w2))"

text \<open>The same calls at the same times on the specification.\<close>

fun a_state :: "abreaker \<Rightarrow> State" where
  "a_state (AClosed _) = Closed"
| "a_state (AOpen _) = Open"
| "a_state (AHalfOpen _) = HalfOpen"

primrec spec_call :: "BreakerConfig \<Rightarrow> int \<Rightarrow> br_call \<Rightarrow> abreaker \<Rightarrow> br_answer list \<times> abreaker" where
  "spec_call c t CallState a = ([IsState (a_state (a_timeout c t a))], a_timeout c t a)"
| "spec_call c t CallAllow a = ([IsAllowed (a_allow c (a_timeout c t a))], a_timeout c t a)"
| "spec_call c t CallSuccess a = ([], a_success c a)"
| "spec_call c t CallFailure a = ([], a_failure c t a)"

fun spec_run :: "BreakerConfig \<Rightarrow> (int \<times> br_call) list \<Rightarrow> abreaker \<Rightarrow> br_answer list \<times> abreaker" where
  "spec_run c [] a = ([], a)"
| "spec_run c ((t, k) # tks) a =
     (let (said, a1) = spec_call c t k a; (more, a2) = spec_run c tks a1 in (said @ more, a2))"

lemma a_state_abs [simp]: "a_state (abs_breaker b) = br_state b"
  by (cases "br_state b") (simp_all add: abs_breaker_def)

lemma call_refines:
  assumes ok: "br_ok (fst (now w)) b" and call: "clk_call now k b w = (said, b', w')"
  shows "br_ok (fst (now w)) b'" and "cfg b' = cfg b"
    and "spec_call (cfg b) (fst (now w)) k (abs_breaker b) = (said, abs_breaker b')"
proof -
  let ?t = "fst (now w)"
  note ops = br_ok_ops(1-3) [OF ok] abs_timeout [OF ok] abs_allow [OF ok] abs_success [OF ok] abs_failure [OF ok]
  have "br_ok ?t b' \<and> cfg b' = cfg b \<and> spec_call (cfg b) ?t k (abs_breaker b) = (said, abs_breaker b')"
  proof (cases k)
    case CallState
    have "br_state (checkOpenTimeout ?t b) = a_state (a_timeout (cfg b) ?t (abs_breaker b))"
      by (simp flip: ops(4))
    with CallState call ops show ?thesis
      by (auto simp: clk_query_eq(1) [OF refl refl] Breaker_State_def Let_def split: if_splits)
  next
    case CallAllow
    with call ops show ?thesis
      by (auto simp: clk_query_eq(2) [OF refl refl] split: if_splits)
  next
    case CallSuccess
    with call ops show ?thesis by auto
  next
    case CallFailure
    with call ops show ?thesis by (auto simp: clk_failure_eq)
  qed
  then show "br_ok ?t b'" "cfg b' = cfg b" "spec_call (cfg b) ?t k (abs_breaker b) = (said, abs_breaker b')"
    by simp_all
qed

lemma run_refines:
  assumes clk: "\<And>t w. fst (now (advance t w)) = t"
  shows "\<lbrakk>\<forall>t \<in> fst ` set tks. br_ok t b; sorted (map fst tks); clk_run advance now tks b w = (said, b', w')\<rbrakk> \<Longrightarrow>
    spec_run (cfg b) tks (abs_breaker b) = (said, abs_breaker b')"
proof (induction tks arbitrary: b w said)
  case (Cons tk tks)
  obtain t k where tk: "tk = (t, k)" by (cases tk)
  obtain s1 b1 w1 where c: "clk_call now k b (advance t w) = (s1, b1, w1)" by (metis prod_cases3)
  obtain s2 where r: "clk_run advance now tks b1 w1 = (s2, b', w')" "said = s1 @ s2"
    using Cons.prems(3) by (auto simp: tk c split: prod.splits)
  have "br_ok (fst (now (advance t w))) b" using Cons.prems(1) by (simp add: tk clk)
  note one = call_refines [OF this c, unfolded clk]
  have "\<forall>u \<in> fst ` set tks. br_ok u b1"
    using br_ok_ops(4) [OF one(1)] Cons.prems(2) by (auto simp: tk)
  from Cons.IH [OF this _ r(1)] Cons.prems(2) one r(2) show ?case by (simp add: tk)
qed simp

text \<open>
  C29: a breaker made by \<open>New\<close>, its methods called in any order at any non-decreasing times,
  answers every \<open>State\<close> and \<open>Allow\<close> as the three-state specification does for the same calls
  at the same times, and ends in the state that stands for the specification's.  The times
  are those the code's clock shows at the call: \<open>time.Now\<close>, or \<open>nowFunc\<close> where it is set.
\<close>

theorem breaker_trace_refines:
  assumes "\<And>t w. fst ((case nowFunc of None \<Rightarrow> time_Now | Some f \<Rightarrow> f) (advance t w)) = t"
    and "sorted (map fst tks)" and "cfg_i64 c"
    and "clk_run advance (Breaker_now time_Now nowFunc) tks (New c) w = (said, b, w')"
  shows "spec_run c tks (AClosed 0) = (said, abs_breaker b)"
proof -
  have clk: "fst (Breaker_now time_Now nowFunc (advance t w)) = t" for t w
    using assms(1) by (cases nowFunc) (simp_all add: Breaker_now_def)
  have "br_ok t (New c)" for t using assms(3) by (simp add: br_ok_def New_def)
  moreover have "abs_breaker (New c) = AClosed 0" "cfg (New c) = c" by (simp_all add: abs_breaker_def New_def)
  ultimately show ?thesis using run_refines [OF clk _ assms(2,4)] by simp
qed

text \<open>
  A world that is its own clock and goes on by a nanosecond at each reading, and a breaker
  that trips, refuses until 1.5 seconds have passed, recovers and closes.
\<close>

definition ticking :: "int clk" where
  "ticking w = (w, w + 1)"

theorem breaker_trace_refines_witness:
  "\<exists>b. clk_run (\<lambda>t _. t) (Breaker_now ticking None)
      [(0, CallAllow), (10, CallFailure), (1500000009, CallAllow), (1500000010, CallAllow),
       (1500000020, CallSuccess), (1500000030, CallState)]
      (New \<lparr>FailureThreshold = 1, OpenTimeout = 1500000000, HalfOpenMaxSuccess = 1\<rparr>) 0 =
        ([IsAllowed True, IsAllowed False, IsAllowed True, IsState Closed], b, 1500000030) \<and>
    spec_run \<lparr>FailureThreshold = 1, OpenTimeout = 1500000000, HalfOpenMaxSuccess = 1\<rparr>
      [(0, CallAllow), (10, CallFailure), (1500000009, CallAllow), (1500000010, CallAllow),
       (1500000020, CallSuccess), (1500000030, CallState)] (AClosed 0) =
        ([IsAllowed True, IsAllowed False, IsAllowed True, IsState Closed], abs_breaker b)"
proof -
  let ?c = "\<lparr>FailureThreshold = 1, OpenTimeout = 1500000000, HalfOpenMaxSuccess = 1\<rparr>"
  let ?ks = "[(0, CallAllow), (10, CallFailure), (1500000009, CallAllow), (1500000010, CallAllow),
       (1500000020, CallSuccess), (1500000030, CallState)]"
  have run: "clk_run (\<lambda>t _. t) (Breaker_now ticking None) ?ks (New ?c) 0 =
      ([IsAllowed True, IsAllowed False, IsAllowed True, IsState Closed],
       \<lparr>cfg = ?c, br_state = Closed, failures = 0, successes = 0, openedAt = 10\<rparr>, 1500000030)"
    by code_simp
  have "cfg_i64 ?c" by (simp add: cfg_i64_def in_i64_def)
  with breaker_trace_refines [OF _ _ this run] run show ?thesis by (simp add: ticking_def)
qed

end
