(* ===== verification/Contextx.thy ===== *)
theory Contextx
  imports Prelude
begin

text \<open>
  Package contextx: the values the library keeps in a request's \<open>context.Context\<close>
  (contextx/keys.go, actor.go, group.go, requestid.go).

  A \<open>context.Context\<close> is what the standard library makes it: a base context, of which
  the library knows nothing, under a stack of \<open>context.WithValue\<close> bindings; a lookup
  returns the innermost binding of the key.  The type \<open>'b\<close> of base contexts is a
  parameter: the gRPC runtime puts the peer, the metadata and the deadline there.
\<close>

section \<open>Contexts of the standard library\<close>

text \<open>
  \<open>contextKey\<close> is unexported, so no other package can bind these keys; keys of other
  packages are \<open>ForeignKey\<close>.
\<close>

datatype contextKey = actorKey | requestIDKey | groupKey

datatype ctx_key = ContextxKey contextKey | ForeignKey nat

record Actor =
  Subject :: string
  Tenant :: string
  ClientID :: string
  Scopes :: "string list"

definition zeroActor :: Actor where
  "zeroActor = \<lparr>Subject = [], Tenant = [], ClientID = [], Scopes = []\<rparr>"

text \<open>The dynamic types a context value can have: those the library asserts, and any other.\<close>

datatype ctx_val = VActor Actor | VString string | VForeign nat

datatype 'b gctx = BaseCtx 'b | ValueCtx "'b gctx" ctx_key ctx_val

fun ctx_value :: "'b gctx \<Rightarrow> ctx_key \<Rightarrow> ctx_val option" where
  "ctx_value (BaseCtx _) k = None"
| "ctx_value (ValueCtx c k' v) k = (if k = k' then Some v else ctx_value c k)"

fun ctx_base :: "'b gctx \<Rightarrow> 'b" where
  "ctx_base (BaseCtx b) = b"
| "ctx_base (ValueCtx c _ _) = ctx_base c"

text \<open>\<open>v, ok := x.(string)\<close> and \<open>v, ok := x.(Actor)\<close>: the zero value when the assertion fails.\<close>

fun as_string :: "ctx_val option \<Rightarrow> string \<times> bool" where
  "as_string (Some (VString s)) = (s, True)"
| "as_string _ = ([], False)"

fun as_actor :: "ctx_val option \<Rightarrow> Actor \<times> bool" where
  "as_actor (Some (VActor a)) = (a, True)"
| "as_actor _ = (zeroActor, False)"

section \<open>The accessors\<close>

definition WithActor :: "'b gctx \<Rightarrow> Actor \<Rightarrow> 'b gctx" where
  "WithActor ctx a = ValueCtx ctx (ContextxKey actorKey) (VActor a)"

definition ActorFromContext :: "'b gctx \<Rightarrow> Actor \<times> bool" where
  "ActorFromContext ctx = (let (a, ok) = as_actor (ctx_value ctx (ContextxKey actorKey)) in (a, ok))"

definition WithGroup :: "'b gctx \<Rightarrow> string \<Rightarrow> 'b gctx" where
  "WithGroup ctx g = ValueCtx ctx (ContextxKey groupKey) (VString g)"

definition GroupFromContext :: "'b gctx \<Rightarrow> string" where
  "GroupFromContext ctx = (let (g, _) = as_string (ctx_value ctx (ContextxKey groupKey)) in g)"

definition WithRequestID :: "'b gctx \<Rightarrow> string \<Rightarrow> 'b gctx" where
  "WithRequestID ctx i = ValueCtx ctx (ContextxKey requestIDKey) (VString i)"

definition RequestIDFromContext :: "'b gctx \<Rightarrow> string" where
  "RequestIDFromContext ctx =
     (let (i, _) = as_string (ctx_value ctx (ContextxKey requestIDKey)) in i)"

section \<open>The contract of a context slot\<close>

text \<open>
  The three With/FromContext pairs share one contract: the setter binds its own key and
  nothing else, the getter reads its own key and nothing else.  The facts clients use
  (what a getter returns after a setter of the same or of another slot) follow from it.
\<close>

locale ctx_slot =
  fixes put :: "'b gctx \<Rightarrow> 'v \<Rightarrow> 'b gctx"
    and get :: "'b gctx \<Rightarrow> 'r"
    and key :: contextKey
    and emb :: "'v \<Rightarrow> ctx_val"
    and proj :: "ctx_val option \<Rightarrow> 'r"
  assumes put_value:
      "ctx_value (put c v) k = (if k = ContextxKey key then Some (emb v) else ctx_value c k)"
    and put_base: "ctx_base (put c v) = ctx_base c"
    and get_value: "get c = proj (ctx_value c (ContextxKey key))"
begin

lemma get_put: "get (put c v) = proj (Some (emb v))"
  by (simp add: get_value put_value)

lemma get_base: "get (BaseCtx b) = proj None"
  by (simp add: get_value)

lemma get_foreign: "k \<noteq> ContextxKey key \<Longrightarrow> get (ValueCtx c k x) = get c"
  by (simp add: get_value)

lemma value_other: "k \<noteq> ContextxKey key \<Longrightarrow> ctx_value (put c v) k = ctx_value c k"
  by (simp add: put_value)

lemma get_cong: "ctx_value c (ContextxKey key) = ctx_value c' (ContextxKey key) \<Longrightarrow> get c = get c'"
  by (simp add: get_value)

lemma last_put_wins: "get (put (put c v) v') = get (put c' v')"
  by (simp add: get_put)

end

lemmas slot_defs =
  WithActor_def ActorFromContext_def WithGroup_def GroupFromContext_def
  WithRequestID_def RequestIDFromContext_def

interpretation actor_slot: ctx_slot WithActor ActorFromContext actorKey VActor as_actor
  by unfold_locales (auto simp: slot_defs)

interpretation group_slot: ctx_slot WithGroup GroupFromContext groupKey VString "\<lambda>v. fst (as_string v)"
  by unfold_locales (auto simp: slot_defs split: prod.splits)

interpretation reqid_slot:
  ctx_slot WithRequestID RequestIDFromContext requestIDKey VString "\<lambda>v. fst (as_string v)"
  by unfold_locales (auto simp: slot_defs split: prod.splits)

lemmas slot_get_put = actor_slot.get_put group_slot.get_put reqid_slot.get_put

section \<open>Properties\<close>

text \<open>
  each setter is read back by its own getter, whatever the context held before: the
  last value set wins, and the presence flag of the actor is true.
\<close>

theorem contextx_roundtrip:
  "ActorFromContext (WithActor ctx a) = (a, True) \<and>
   GroupFromContext (WithGroup ctx g) = g \<and>
   RequestIDFromContext (WithRequestID ctx i) = i"
  by (simp add: slot_get_put)

text \<open>
  the slots do not interfere: setting one of actor, group and request id leaves what
  the other two getters return as it was.
\<close>

theorem contextx_frame:
  "GroupFromContext (WithActor ctx a) = GroupFromContext ctx \<and>
   RequestIDFromContext (WithActor ctx a) = RequestIDFromContext ctx \<and>
   ActorFromContext (WithGroup ctx g) = ActorFromContext ctx \<and>
   RequestIDFromContext (WithGroup ctx g) = RequestIDFromContext ctx \<and>
   ActorFromContext (WithRequestID ctx i) = ActorFromContext ctx \<and>
   GroupFromContext (WithRequestID ctx i) = GroupFromContext ctx"
  by (auto intro!: group_slot.get_cong reqid_slot.get_cong actor_slot.get_cong
      simp: actor_slot.value_other group_slot.value_other reqid_slot.value_other)

end
