(* ===== verification/Grpc.thy ===== *)
theory Grpc
  imports Contextx
begin

text \<open>
  What the library touches of gRPC: status codes, errors, the types of handlers and
  interceptors, and the functions of the gRPC packages it calls.  The gRPC packages are not
  part of the repository; their functions are the fields of a record that every definition
  using them takes as an argument.
\<close>

section \<open>Errors and statuses\<close>

datatype code =
    OK | Canceled | Unknown | InvalidArgument | DeadlineExceeded | NotFound | AlreadyExists
  | PermissionDenied | ResourceExhausted | FailedPrecondition | Aborted | OutOfRange
  | Unimplemented | Internal | Unavailable | DataLoss | Unauthenticated | OtherCode nat

text \<open>
  An error value: what \<open>status.Error(c, m)\<close> builds, the two errors of a finished context,
  or any other error, by its text.
\<close>

datatype gerror = StatusError code string | CtxCanceled | CtxDeadlineExceeded | PlainError string

record gstatus =
  st_code :: code
  st_msg :: string

section \<open>The functions of the gRPC packages\<close>

text \<open>
  \<open>metadata.FromIncomingContext\<close>, \<open>MD.Get\<close>, \<open>peer.FromContext\<close> (the text of the peer's
  \<open>Addr\<close>; \<open>Some None\<close> when \<open>Addr\<close> is nil) and \<open>status.FromError\<close>.
\<close>

record ('b, 'md) grpc_api =
  FromIncomingContext :: "'b gctx \<Rightarrow> 'md \<times> bool"
  MD_Get :: "'md \<Rightarrow> string \<Rightarrow> string list"
  peer_FromContext :: "'b gctx \<Rightarrow> string option option"
  status_FromError :: "gerror option \<Rightarrow> gstatus \<times> bool"

text \<open>
  The documented behaviour of \<open>status.FromError\<close> on the errors the status package makes:
  it returns their code and message, and true.
\<close>

definition status_errors_recognised :: "('b, 'md) grpc_api \<Rightarrow> bool" where
  "status_errors_recognised A \<longleftrightarrow>
     (\<forall>c m. c \<noteq> OK \<longrightarrow>
        status_FromError A (Some (StatusError c m)) = (\<lparr>st_code = c, st_msg = m\<rparr>, True))"

section \<open>Handlers and interceptors\<close>

text \<open>
  A unary handler returns a pair \<open>(any, error)\<close>; a nil of either is \<open>None\<close>.  A stream
  handler gets the stream, of which the library reads and replaces only the context.
\<close>

type_synonym 'resp unary_result = "'resp option \<times> gerror option"

type_synonym ('w, 'b, 'req, 'resp) unary_handler =
  "'b gctx \<Rightarrow> 'req \<Rightarrow> ('w, 'resp unary_result) go"

text \<open>The arguments of an interceptor: context, request, full method name, handler.\<close>

type_synonym ('w, 'b, 'req, 'resp) unary_interceptor =
  "'b gctx \<Rightarrow> 'req \<Rightarrow> string \<Rightarrow> ('w, 'b, 'req, 'resp) unary_handler
     \<Rightarrow> ('w, 'resp unary_result) go"

record ('b, 'ss) server_stream =
  ss_ctx :: "'b gctx"
  ss_base :: 'ss

type_synonym ('w, 'b, 'srv, 'ss) stream_handler =
  "'srv \<Rightarrow> ('b, 'ss) server_stream \<Rightarrow> ('w, gerror option) go"

type_synonym ('w, 'b, 'srv, 'ss) stream_interceptor =
  "'srv \<Rightarrow> ('b, 'ss) server_stream \<Rightarrow> string \<Rightarrow> ('w, 'b, 'srv, 'ss) stream_handler
     \<Rightarrow> ('w, gerror option) go"

section \<open>A concrete instance\<close>

text \<open>
  An instance of the gRPC functions for evaluating the model on concrete inputs: the base
  context holds the peer's address and the incoming metadata.
\<close>

type_synonym demo_md = "(string \<times> string list) list"
type_synonym demo_base = "string option \<times> demo_md option"

fun demo_from_error :: "gerror option \<Rightarrow> gstatus \<times> bool" where
  "demo_from_error None = (\<lparr>st_code = OK, st_msg = []\<rparr>, True)"
| "demo_from_error (Some (StatusError c m)) = (\<lparr>st_code = c, st_msg = m\<rparr>, True)"
| "demo_from_error (Some CtxCanceled) = (\<lparr>st_code = Unknown, st_msg = ''context canceled''\<rparr>, False)"
| "demo_from_error (Some CtxDeadlineExceeded) =
     (\<lparr>st_code = Unknown, st_msg = ''context deadline exceeded''\<rparr>, False)"
| "demo_from_error (Some (PlainError m)) = (\<lparr>st_code = Unknown, st_msg = m\<rparr>, False)"

definition demo_api :: "(demo_base, demo_md) grpc_api" where
  "demo_api =
     \<lparr>FromIncomingContext =
        (\<lambda>ctx. case snd (ctx_base ctx) of None \<Rightarrow> ([], False) | Some md \<Rightarrow> (md, True)),
      MD_Get = (\<lambda>md k. case map_of md k of None \<Rightarrow> [] | Some vs \<Rightarrow> vs),
      peer_FromContext = (\<lambda>ctx. map_option Some (fst (ctx_base ctx))),
      status_FromError = demo_from_error\<rparr>"

lemma demo_api_recognises: "status_errors_recognised demo_api"
  by (simp add: status_errors_recognised_def demo_api_def)

end
