(* ===== verification/Cache.thy ===== *)
theory Cache
  imports Grpc "HOL-Library.Word"
begin

text \<open>
  Package cache: the in-process layer (cache/l1.go), the Redis layer (cache/redis.go) and
  their combination (cache/tiered.go).

  Byte slices are addresses into a heap (\<open>None\<close> is nil), because the code clones them to keep
  its buffers private.  Ristretto and Redis are not part of the repository: their clients are
  fields of record arguments.  The singleflight tables are in the world, one per object.
\<close>

section \<open>Slices\<close>

type_synonym bytes = "8 word list"
type_synonym slice = "nat option"

text \<open>\<open>type call struct\<close>: the wait group is done or not.\<close>

record call =
  wg_done :: bool
  c_val :: slice
  c_err :: "gerror option"

record 'rc cache_world =
  heap :: "nat \<Rightarrow> bytes"
  next_addr :: nat
  cnow :: int
  rc :: 'rc
  loads :: "string \<rightharpoonup> nat"
  calls :: "call list"

definition alloc :: "bytes \<Rightarrow> ('rc, 'x) cache_world_scheme \<Rightarrow> slice \<times> ('rc, 'x) cache_world_scheme" where
  "alloc b w = (Some (next_addr w),
     w\<lparr>heap := (heap w)(next_addr w := b), next_addr := next_addr w + 1\<rparr>)"

text \<open>\<open>bytes.Clone\<close>: nil stays nil.\<close>

definition clone :: "slice \<Rightarrow> ('rc, 'x) cache_world_scheme \<Rightarrow> slice \<times> ('rc, 'x) cache_world_scheme" where
  "clone s w = (case s of None \<Rightarrow> (None, w) | Some a \<Rightarrow> alloc (heap w a) w)"

section \<open>L1 (l1.go)\<close>

text \<open>Ristretto: \<open>NewCache\<close> (counters, cost, buffer), \<open>Get\<close>, \<open>SetWithTTL\<close> and \<open>Wait\<close>, at a time.\<close>

record 'rc rist_api =
  rist_NewCache :: "int \<Rightarrow> int \<Rightarrow> int \<Rightarrow> gerror + 'rc"
  rist_Get :: "int \<Rightarrow> string \<Rightarrow> 'rc \<Rightarrow> slice option \<times> 'rc"
  rist_SetWithTTL :: "int \<Rightarrow> string \<Rightarrow> slice \<Rightarrow> int \<Rightarrow> int \<Rightarrow> 'rc \<Rightarrow> 'rc"
  rist_Wait :: "'rc \<Rightarrow> 'rc"

text \<open>The counter budget is ten per entry, wrapping like \<open>int64\<close>.\<close>

definition NewL1 :: "'rc rist_api \<Rightarrow> int \<Rightarrow> gerror + 'rc" where
  "NewL1 R maxCost = rist_NewCache R (wrap64 (maxCost * 10)) maxCost 64"

text \<open>\<open>Get\<close> returns the value, whether it was a hit, and an error.\<close>

type_synonym get_result = "slice \<times> bool \<times> gerror option"

definition L1_Get ::
    "'rc rist_api \<Rightarrow> string \<Rightarrow> ('rc, 'x) cache_world_scheme \<Rightarrow> get_result \<times> ('rc, 'x) cache_world_scheme" where
  "L1_Get R key w =
     (let (found, r) = rist_Get R (cnow w) key (rc w); w1 = w\<lparr>rc := r\<rparr>
      in case found of
           None \<Rightarrow> ((None, False, None), w1)
         | Some v \<Rightarrow> (let (v', w2) = clone v w1 in ((v', True, None), w2)))"

definition L1_Set ::
    "'rc rist_api \<Rightarrow> string \<Rightarrow> slice \<Rightarrow> int \<Rightarrow> ('rc, 'x) cache_world_scheme
       \<Rightarrow> gerror option \<times> ('rc, 'x) cache_world_scheme" where
  "L1_Set R key val ttl w =
     (let (v, w1) = clone val w
      in (None, w1\<lparr>rc := rist_Wait R (rist_SetWithTTL R (cnow w1) key v 1 ttl (rc w1))\<rparr>))"

section \<open>Singleflight\<close>

text \<open>
  The critical section that joins a running load (\<open>Inl\<close>) or registers a new one (\<open>Inr\<close>), and
  what follows: waiting, recording the loader's result, waking the waiters, removing the
  entry, and the value a caller gets.
\<close>

definition sf_enter ::
    "string \<Rightarrow> ('rc, 'x) cache_world_scheme \<Rightarrow> (nat + nat) \<times> ('rc, 'x) cache_world_scheme" where
  "sf_enter key w =
     (case loads w key of
        Some c \<Rightarrow> (Inl c, w)
      | None \<Rightarrow>
          (Inr (length (calls w)),
           w\<lparr>calls := calls w @ [\<lparr>wg_done = False, c_val = None, c_err = None\<rparr>],
             loads := (loads w)(key \<mapsto> length (calls w))\<rparr>))"

definition sf_loaded ::
    "nat \<Rightarrow> slice \<Rightarrow> gerror option \<Rightarrow> ('rc, 'x) cache_world_scheme \<Rightarrow> ('rc, 'x) cache_world_scheme" where
  "sf_loaded c val err w = w\<lparr>calls := (calls w)[c := (calls w ! c)\<lparr>c_val := val, c_err := err\<rparr>]\<rparr>"

definition sf_signal :: "nat \<Rightarrow> ('rc, 'x) cache_world_scheme \<Rightarrow> ('rc, 'x) cache_world_scheme" where
  "sf_signal c w = w\<lparr>calls := (calls w)[c := (calls w ! c)\<lparr>wg_done := True\<rparr>]\<rparr>"

definition sf_delete :: "string \<Rightarrow> ('rc, 'x) cache_world_scheme \<Rightarrow> ('rc, 'x) cache_world_scheme" where
  "sf_delete key w = w\<lparr>loads := (loads w)(key := None)\<rparr>"

definition sf_result ::
    "nat \<Rightarrow> ('rc, 'x) cache_world_scheme \<Rightarrow> (slice \<times> gerror option) \<times> ('rc, 'x) cache_world_scheme" where
  "sf_result c w =
     (if c_err (calls w ! c) \<noteq> None then ((None, c_err (calls w ! c)), w)
      else (let (v, w') = clone (c_val (calls w ! c)) w in ((v, None), w')))"

text \<open>
  \<open>GetOrSet\<close> of one caller with nothing running beside it: \<open>None\<close> when it waits for a load
  that has not ended, and so for ever.
\<close>

type_synonym ('rc, 'x) loader = "(('rc, 'x) cache_world_scheme, slice \<times> gerror option) go"

definition sf_run ::
    "(string \<Rightarrow> slice \<Rightarrow> int \<Rightarrow> ('rc, 'x) cache_world_scheme \<Rightarrow> ('rc, 'x) cache_world_scheme)
       \<Rightarrow> string \<Rightarrow> int \<Rightarrow> ('rc, 'x) loader \<Rightarrow> ('rc, 'x) cache_world_scheme
       \<Rightarrow> ((slice \<times> gerror option) outcome \<times> ('rc, 'x) cache_world_scheme) option" where
  "sf_run store key ttl loader w =
     (case sf_enter key w of
        (Inl c, w1) \<Rightarrow>
          (if wg_done (calls w1 ! c)
           then (let (r, w2) = sf_result c w1 in Some (Return r, w2)) else None)
      | (Inr c, w1) \<Rightarrow>
          (case loader w1 of
             (Panic p, w2) \<Rightarrow> Some (Panic p, w2)
           | (Return (val, err), w2) \<Rightarrow>
               (let w3 = sf_loaded c val err w2;
                    w4 = (if err = None then store key val ttl w3 else w3);
                    (r, w5) = sf_result c (sf_delete key (sf_signal c w4))
                in Some (Return r, w5))))"

definition L1_store ::
    "'rc rist_api \<Rightarrow> string \<Rightarrow> slice \<Rightarrow> int \<Rightarrow> ('rc, 'x) cache_world_scheme \<Rightarrow> ('rc, 'x) cache_world_scheme" where
  "L1_store R key val ttl w = snd (L1_Set R key val ttl w)"

definition L1_GetOrSet ::
    "'rc rist_api \<Rightarrow> string \<Rightarrow> int \<Rightarrow> ('rc, 'x) loader \<Rightarrow> ('rc, 'x) cache_world_scheme
       \<Rightarrow> ((slice \<times> gerror option) outcome \<times> ('rc, 'x) cache_world_scheme) option" where
  "L1_GetOrSet R key ttl loader w =
     (let ((v, ok, _), w1) = L1_Get R key w
      in if ok then Some (Return (v, None), w1) else sf_run (L1_store R) key ttl loader w1)"

section \<open>L2 (redis.go)\<close>

text \<open>A reply to \<open>GET\<close>: a value, \<open>redis.Nil\<close>, or any other error.\<close>

datatype redis_reply = RedisValue bytes | RedisNil | RedisError gerror

record 'rd redis_api =
  redis_NewClient :: "string \<Rightarrow> string \<Rightarrow> int \<Rightarrow> 'rd"
  redis_Get :: "int \<Rightarrow> string \<Rightarrow> 'rd \<Rightarrow> redis_reply \<times> 'rd"
  redis_Set :: "int \<Rightarrow> string \<Rightarrow> bytes \<Rightarrow> int \<Rightarrow> 'rd \<Rightarrow> gerror option \<times> 'rd"
  redis_Ping :: "'rd \<Rightarrow> gerror option \<times> 'rd"
  redis_Close :: "'rd \<Rightarrow> gerror option \<times> 'rd"

record ('rc, 'rd) tiered_world = "'rc cache_world" +
  rd :: 'rd

text \<open>The bytes of a slice; a nil slice has none.\<close>

definition contents :: "('rc, 'x) cache_world_scheme \<Rightarrow> slice \<Rightarrow> bytes" where
  "contents w s = (case s of None \<Rightarrow> [] | Some a \<Rightarrow> heap w a)"

text \<open>A client of the server at an address, with a password and a database.\<close>

definition NewL2 :: "'rd redis_api \<Rightarrow> string \<Rightarrow> string \<Rightarrow> int \<Rightarrow> 'rd" where
  "NewL2 D addr password db = redis_NewClient D addr password db"

definition L2_Get ::
    "'rd redis_api \<Rightarrow> string \<Rightarrow> ('rc, 'rd, 'x) tiered_world_scheme
       \<Rightarrow> get_result \<times> ('rc, 'rd, 'x) tiered_world_scheme" where
  "L2_Get D key w =
     (let (reply, d) = redis_Get D (cnow w) key (rd w); w1 = w\<lparr>rd := d\<rparr>
      in case reply of
           RedisValue b \<Rightarrow> (let (v, w2) = alloc b w1 in ((v, True, None), w2))
         | RedisNil \<Rightarrow> ((None, False, None), w1)
         | RedisError _ \<Rightarrow> ((None, False, None), w1))"

definition L2_Set ::
    "'rd redis_api \<Rightarrow> string \<Rightarrow> slice \<Rightarrow> int \<Rightarrow> ('rc, 'rd, 'x) tiered_world_scheme
       \<Rightarrow> gerror option \<times> ('rc, 'rd, 'x) tiered_world_scheme" where
  "L2_Set D key val ttl w =
     (let (_, d) = redis_Set D (cnow w) key (contents w val) ttl (rd w) in (None, w\<lparr>rd := d\<rparr>))"

definition L2_Ping ::
    "'rd redis_api \<Rightarrow> ('rc, 'rd, 'x) tiered_world_scheme \<Rightarrow> gerror option \<times> ('rc, 'rd, 'x) tiered_world_scheme" where
  "L2_Ping D w = (let (e, d) = redis_Ping D (rd w) in (e, w\<lparr>rd := d\<rparr>))"

definition L2_Close ::
    "'rd redis_api \<Rightarrow> ('rc, 'rd, 'x) tiered_world_scheme \<Rightarrow> gerror option \<times> ('rc, 'rd, 'x) tiered_world_scheme" where
  "L2_Close D w = (let (e, d) = redis_Close D (rd w) in (e, w\<lparr>rd := d\<rparr>))"

section \<open>Tiered (tiered.go)\<close>

definition Tiered_Get ::
    "'rc rist_api \<Rightarrow> 'rd redis_api \<Rightarrow> string \<Rightarrow> ('rc, 'rd, 'x) tiered_world_scheme
       \<Rightarrow> get_result \<times> ('rc, 'rd, 'x) tiered_world_scheme" where
  "Tiered_Get R D key w =
     (let ((v, ok, err), w1) = L1_Get R key w
      in if err \<noteq> None \<or> ok then ((v, ok, err), w1)
         else
           (let ((v, ok, err), w2) = L2_Get D key w1
            in if err \<noteq> None \<or> \<not> ok then ((None, False, err), w2)
               else ((v, True, None), snd (L1_Set R key v 0 w2))))"

definition Tiered_Set ::
    "'rc rist_api \<Rightarrow> 'rd redis_api \<Rightarrow> string \<Rightarrow> slice \<Rightarrow> int \<Rightarrow> ('rc, 'rd, 'x) tiered_world_scheme
       \<Rightarrow> gerror option \<times> ('rc, 'rd, 'x) tiered_world_scheme" where
  "Tiered_Set R D key val ttl w = L1_Set R key val ttl (snd (L2_Set D key val ttl w))"

text \<open>Step 4 of \<open>GetOrSet\<close>, and the whole of it; the promotion to L1 uses the caller's TTL.\<close>

definition Tiered_store ::
    "'rc rist_api \<Rightarrow> 'rd redis_api \<Rightarrow> string \<Rightarrow> slice \<Rightarrow> int \<Rightarrow> ('rc, 'rd, 'x) tiered_world_scheme
       \<Rightarrow> ('rc, 'rd, 'x) tiered_world_scheme" where
  "Tiered_store R D key val ttl w = snd (L1_Set R key val ttl (snd (L2_Set D key val ttl w)))"

definition Tiered_lookup ::
    "'rc rist_api \<Rightarrow> 'rd redis_api \<Rightarrow> string \<Rightarrow> int \<Rightarrow> ('rc, 'rd, 'x) tiered_world_scheme
       \<Rightarrow> slice option \<times> ('rc, 'rd, 'x) tiered_world_scheme" where
  "Tiered_lookup R D key ttl w =
     (let ((v, ok, _), w1) = L1_Get R key w
      in if ok then (Some v, w1)
         else
           (let ((v, ok, _), w2) = L2_Get D key w1
            in if ok then (let (v', w3) = clone v (snd (L1_Set R key v ttl w2)) in (Some v', w3))
               else (None, w2)))"

definition Tiered_GetOrSet ::
    "'rc rist_api \<Rightarrow> 'rd redis_api \<Rightarrow> string \<Rightarrow> int
       \<Rightarrow> (('rc, 'rd, 'x) tiered_world_scheme, slice \<times> gerror option) go \<Rightarrow> ('rc, 'rd, 'x) tiered_world_scheme
       \<Rightarrow> ((slice \<times> gerror option) outcome \<times> ('rc, 'rd, 'x) tiered_world_scheme) option" where
  "Tiered_GetOrSet R D key ttl loader w =
     (case Tiered_lookup R D key ttl w of
        (Some v, w1) \<Rightarrow> Some (Return (v, None), w1)
      | (None, w1) \<Rightarrow> sf_run (Tiered_store R D) key ttl loader w1)"

section \<open>Facts about the operations\<close>

lemma clone_contents: "clone s w = (s', w') \<Longrightarrow> contents w' s' = contents w s"
  by (auto simp: clone_def alloc_def contents_def split: option.splits)

lemma clone_frame [simp]:
  "loads (snd (clone s w)) = loads w" "calls (snd (clone s w)) = calls w"
  "cnow (snd (clone s w)) = cnow w" "rc (snd (clone s w)) = rc w"
  by (simp_all add: clone_def alloc_def split: option.split)

lemma clone_rd [simp]: "rd (snd (clone s w)) = rd w"
  by (simp add: clone_def alloc_def split: option.split)

lemma L1_Get_frame [simp]:
  "loads (snd (L1_Get R key w)) = loads w" "calls (snd (L1_Get R key w)) = calls w"
  "cnow (snd (L1_Get R key w)) = cnow w" "snd (snd (fst (L1_Get R key w))) = None"
  by (simp_all add: L1_Get_def Let_def split_beta split: option.split)

lemma L1_Get_rd [simp]: "rd (snd (L1_Get R key w)) = rd w"
  by (simp add: L1_Get_def Let_def split_beta split: option.split)

lemma L1_Set_frame [simp]:
  "loads (snd (L1_Set R key v ttl w)) = loads w" "calls (snd (L1_Set R key v ttl w)) = calls w"
  "cnow (snd (L1_Set R key v ttl w)) = cnow w" "fst (L1_Set R key v ttl w) = None"
  by (simp_all add: L1_Set_def Let_def split_beta)

lemma L1_Set_rd [simp]: "rd (snd (L1_Set R key v ttl w)) = rd w"
  by (simp add: L1_Set_def Let_def split_beta)

lemma L2_frame [simp]:
  "loads (snd (L2_Get D key w)) = loads w" "calls (snd (L2_Get D key w)) = calls w"
  "loads (snd (L2_Set D key v ttl w)) = loads w" "calls (snd (L2_Set D key v ttl w)) = calls w"
  "cnow (snd (L2_Set D key v ttl w)) = cnow w" "cnow (snd (L2_Get D key w)) = cnow w"
  "snd (snd (fst (L2_Get D key w))) = None" "rc (snd (L2_Set D key v ttl w)) = rc w"
  "heap (snd (L2_Set D key v ttl w)) = heap w"
  by (simp_all add: L2_Get_def L2_Set_def alloc_def Let_def split_beta split: redis_reply.split)

lemma L1_Get_result:
  "fst (L1_Get R key w) = (case fst (rist_Get R (cnow w) key (rc w)) of
      None \<Rightarrow> (None, False, None)
    | Some v \<Rightarrow> (fst (clone v (w\<lparr>rc := snd (rist_Get R (cnow w) key (rc w))\<rparr>)), True, None))"
  by (simp add: L1_Get_def Let_def split_beta split: option.split)

lemma contents_rc [simp]: "contents (w\<lparr>rc := r\<rparr>) s = contents w s"
  by (simp add: contents_def split: option.split)

text \<open>A hit returns a copy of the stored slice.\<close>

lemma L1_hit:
  "fst (rist_Get R (cnow w) key (rc w)) = Some v \<Longrightarrow>
   \<exists>v' w'. L1_Get R key w = ((v', True, None), w') \<and> contents w' v' = contents w v"
proof -
  assume hit: "fst (rist_Get R (cnow w) key (rc w)) = Some v"
  let ?w1 = "w\<lparr>rc := snd (rist_Get R (cnow w) key (rc w))\<rparr>"
  obtain v' w' where c: "clone v ?w1 = (v', w')" by (cases "clone v ?w1")
  then have "L1_Get R key w = ((v', True, None), w')"
    using hit by (simp add: L1_Get_def Let_def split_beta)
  then show ?thesis using clone_contents [OF c] by auto
qed

lemma L1_miss:
  "fst (rist_Get R (cnow w) key (rc w)) = None \<Longrightarrow>
   L1_Get R key w = ((None, False, None), w\<lparr>rc := snd (rist_Get R (cnow w) key (rc w))\<rparr>)"
  by (simp add: L1_Get_def Let_def split_beta)

section \<open>Properties of sequential use\<close>

text \<open>
  C24: \<open>L1.GetOrSet\<close> on a miss with no load running calls the loader once and frees the key
  afterwards.  A value it returns is stored, with cost one and the caller's ttl, as a slice of
  its own; the caller gets another: three slices with the same bytes that share no memory, so
  that writing to one changes neither of the others, and nothing else in memory has changed.
  A nil value is stored and returned as nil.  With an error the caller gets that error and a
  nil slice, and neither the cache nor memory has changed.  This is for a loader that leaves
  the table of loads alone and returns a slice that exists.
\<close>

theorem GetOrSet_loads_once:
  assumes "L1_Get R key w = ((v, False, e), w1)" and "loads w1 key = None"
    and "loader (snd (sf_enter key w1)) = (Return (val, err), w2)"
    and "calls w2 = calls (snd (sf_enter key w1))"
    and "\<And>a. val = Some a \<Longrightarrow> a < next_addr w2"
  shows "\<exists>v' w'. L1_GetOrSet R key ttl loader w = Some (Return (v', err), w') \<and> loads w' key = None \<and>
    (if err = None
     then \<exists>u. rc w' = rist_Wait R (rist_SetWithTTL R (cnow w2) key u 1 ttl (rc w2)) \<and>
       (case val of
          None \<Rightarrow> u = None \<and> v' = None
        | Some a \<Rightarrow> \<exists>b c. u = Some b \<and> v' = Some c \<and> distinct [a, b, c] \<and>
            heap w' b = heap w2 a \<and> heap w' c = heap w2 a) \<and>
       (\<forall>x < next_addr w2. heap w' x = heap w2 x)
     else v' = None \<and> rc w' = rc w2 \<and> heap w' = heap w2)"
proof -
  let ?c = "length (calls w1)" and ?w3 = "sf_loaded (length (calls w1)) val err w2"
  obtain we where enter: "sf_enter key w1 = (Inr ?c, we)"
    using assms(2) by (simp add: sf_enter_def)
  have ld: "loader we = (Return (val, err), w2)" using assms(3) enter by simp
  have c: "calls w2 = calls w1 @ [\<lparr>wg_done = False, c_val = None, c_err = None\<rparr>]"
    using assms(2,4) by (simp add: sf_enter_def)
  have c3: "calls ?w3 ! ?c = \<lparr>wg_done = False, c_val = val, c_err = err\<rparr>" "?c < length (calls ?w3)"
    by (simp_all add: sf_loaded_def c)
  have run: "L1_GetOrSet R key ttl loader w =
      (let w4 = (if err = None then L1_store R key val ttl ?w3 else ?w3);
           (r, w5) = sf_result ?c (sf_delete key (sf_signal ?c w4))
       in Some (Return r, w5))"
    using assms(1) by (cases err) (simp_all add: L1_GetOrSet_def sf_run_def enter ld Let_def)
  show ?thesis
  proof (cases "err = None")
    case False
    then obtain e' where "err = Some e'" by auto
    with run c3 show ?thesis
      by (simp add: Let_def sf_result_def sf_signal_def sf_delete_def) (simp add: sf_loaded_def)
  next
    case True
    note ops = sf_delete_def sf_signal_def sf_result_def sf_loaded_def L1_store_def L1_Set_def
      clone_def alloc_def Let_def
    show ?thesis
    proof (cases val)
      case None
      then show ?thesis using run c3 True by (simp add: ops)
    next
      case (Some a)
      then show ?thesis using run c3 True assms(5) [OF Some]
        by (simp add: ops) (intro exI [of _ "Some (next_addr w2)"] exI [of _ "next_addr w2"] conjI; simp)
    qed
  qed
qed

text \<open>
  a loader that panics poisons its key: the entry of the load stays and is never
  completed, so the next \<open>GetOrSet\<close> of the key that misses waits for ever, whatever its
  loader is.
\<close>

theorem loader_panic_poisons_key:
  assumes "L1_Get R key w = ((v, False, e), w1)" and "loads w1 key = None"
    and "loader (snd (sf_enter key w1)) = (Panic p, w2)"
    and "loads w2 = loads (snd (sf_enter key w1))" "calls w2 = calls (snd (sf_enter key w1))"
    and "fst (rist_Get R (cnow w2) key (rc w2)) = None"
  shows "L1_GetOrSet R key ttl loader w = Some (Panic p, w2) \<and> L1_GetOrSet R key ttl' loader' w2 = None"
proof
  show "L1_GetOrSet R key ttl loader w = Some (Panic p, w2)"
    using assms(1-3) by (simp add: L1_GetOrSet_def sf_run_def sf_enter_def)
  have "loads w2 key = Some (length (calls w1))" "\<not> wg_done (calls w2 ! length (calls w1))"
    using assms(2,4,5) by (simp_all add: sf_enter_def)
  then show "L1_GetOrSet R key ttl' loader' w2 = None"
    using L1_miss [OF assms(6)] by (simp add: L1_GetOrSet_def sf_run_def sf_enter_def)
qed

text \<open>
  C37: the tiered cache never reports an error of Redis: \<open>Get\<close> and \<open>Set\<close> return a nil error
  whatever Redis replies, and with Redis down \<open>Get\<close> gives exactly what L1 has.
\<close>

theorem tiered_fails_soft:
  "snd (snd (fst (Tiered_Get R D key w))) = None \<and> fst (Tiered_Set R D key val ttl w) = None \<and>
   (case fst (redis_Get D (cnow w) key (rd w)) of
      RedisError err \<Rightarrow> fst (Tiered_Get R D key w) = fst (L1_Get R key w)
    | _ \<Rightarrow> True)"
proof -
  obtain v ok e w1 where l1: "L1_Get R key w = ((v, ok, e), w1)" by (metis prod.collapse)
  have e: "e = None" and w1: "cnow w1 = cnow w" "rd w1 = rd w"
    using L1_Get_frame(3,4) [of R key w] L1_Get_rd [of R key w] l1 by simp_all
  have miss: "v = None" if "\<not> ok"
    using L1_Get_result [of R key w] l1 that by (auto split: option.splits)
  show ?thesis
    using l1 e w1 miss
    by (auto simp: Tiered_Get_def Tiered_Set_def L2_Get_def Let_def split_beta split: redis_reply.split)
qed

text \<open>
  C25: a value set in the tiered cache is read back, even though ristretto may drop it: when
  Redis keeps what it is given and ristretto returns either nothing or the last value set,
  \<open>Get\<close> after \<open>Set\<close> without expiry is a hit with the same bytes.
\<close>

theorem tiered_read_your_writes:
  assumes "\<And>now now' v r. fst (rist_Get R now' key (rist_Wait R (rist_SetWithTTL R now key v 1 0 r))) \<in> {None, Some v}"
    and "\<And>now now' b d. fst (redis_Get D now' key (snd (redis_Set D now key b 0 d))) = RedisValue b"
    and "contents w val = b"
  shows "\<exists>v' w'. Tiered_Get R D key (snd (Tiered_Set R D key val 0 w)) = ((v', True, None), w') \<and>
    contents w' v' = b"
proof -
  define w1 where "w1 = snd (L2_Set D key val 0 w)"
  obtain v w2 where cl: "clone val w1 = (v, w2)" by (cases "clone val w1")
  let ?r = "rist_Wait R (rist_SetWithTTL R (cnow w2) key v 1 0 (rc w2))"
  let ?w3 = "w2\<lparr>rc := ?r\<rparr>"
  have w3: "snd (Tiered_Set R D key val 0 w) = ?w3"
    using cl by (simp add: Tiered_Set_def L1_Set_def w1_def)
  have v: "contents ?w3 v = b"
    using clone_contents [OF cl] assms(3) by (simp add: w1_def contents_def split: option.splits)
  have rd: "rd ?w3 = snd (redis_Set D (cnow w) key b 0 (rd w))"
  proof -
    have "rd w2 = rd w1" using clone_rd [of val w1] unfolding cl by simp
    then show ?thesis using assms(3) by (simp add: w1_def L2_Set_def split_beta)
  qed
  show ?thesis
  proof (cases "fst (rist_Get R (cnow ?w3) key (rc ?w3))")
    case (Some u)
    with assms(1) [of "cnow ?w3" "cnow w2" v "rc w2"] have "u = v" by simp
    with L1_hit [OF Some] v show ?thesis unfolding w3 by (auto simp: Tiered_Get_def)
  next
    case None
    let ?w4 = "?w3\<lparr>rc := snd (rist_Get R (cnow ?w3) key (rc ?w3))\<rparr>"
    have "fst (redis_Get D (cnow ?w4) key (rd ?w4)) = RedisValue b" using assms(2) rd by simp
    then obtain d where d: "redis_Get D (cnow ?w4) key (rd ?w4) = (RedisValue b, d)" by (metis prod.collapse)
    then have l2: "L2_Get D key ?w4 = ((fst (alloc b (?w4\<lparr>rd := d\<rparr>)), True, None), snd (alloc b (?w4\<lparr>rd := d\<rparr>)))"
      by (simp add: L2_Get_def Let_def split_beta)
    let ?w5 = "snd (alloc b (?w4\<lparr>rd := d\<rparr>))"
    have "contents (snd (L1_Set R key (Some (next_addr ?w4)) 0 ?w5)) (Some (next_addr ?w4)) = b"
      by (simp add: L1_Set_def clone_def alloc_def contents_def Let_def)
    then show ?thesis
      unfolding w3 using L1_miss [OF None] l2 by (simp add: Tiered_Get_def alloc_def)
  qed
qed

section \<open>Private buffers\<close>

text \<open>
  Callers hold slices: what they allocate and what the cache hands out.  They may write into
  those at any time, also into a slice they have passed to \<open>Set\<close>.  \<open>refs\<close> gives the slices a
  ristretto cache refers to; it may lose some, and gains the ones it is given.
\<close>

definition rist_refs_ok :: "'rc rist_api \<Rightarrow> ('rc \<Rightarrow> nat set) \<Rightarrow> bool" where
  "rist_refs_ok R refs \<longleftrightarrow>
     (\<forall>now key r. refs (snd (rist_Get R now key r)) \<subseteq> refs r) \<and>
     (\<forall>now key r a. fst (rist_Get R now key r) = Some (Some a) \<longrightarrow> a \<in> refs r) \<and>
     (\<forall>now key v cost ttl r. refs (rist_SetWithTTL R now key v cost ttl r) \<subseteq> refs r \<union> set_option v) \<and>
     (\<forall>r. refs (rist_Wait R r) \<subseteq> refs r)"

record 'rc alias_sys =
  aw :: "'rc cache_world"
  held :: "nat set"

inductive alias_step :: "'rc rist_api \<Rightarrow> 'rc alias_sys \<Rightarrow> 'rc alias_sys \<Rightarrow> bool" for R where
  as_alloc: "alias_step R s (s\<lparr>aw := snd (alloc b (aw s)), held := insert (next_addr (aw s)) (held s)\<rparr>)"
| as_write: "a \<in> held s \<Longrightarrow> alias_step R s (s\<lparr>aw := (aw s)\<lparr>heap := (heap (aw s))(a := b)\<rparr>\<rparr>)"
| as_set: "set_option v \<subseteq> held s \<Longrightarrow> alias_step R s (s\<lparr>aw := snd (L1_Set R key v ttl (aw s))\<rparr>)"
| as_get: "L1_Get R key (aw s) = ((v, ok, e), w) \<Longrightarrow>
     alias_step R s (s\<lparr>aw := w, held := held s \<union> set_option v\<rparr>)"
| as_time: "alias_step R s (s\<lparr>aw := (aw s)\<lparr>cnow := t\<rparr>\<rparr>)"

definition alias_init :: "('rc \<Rightarrow> nat set) \<Rightarrow> 'rc alias_sys \<Rightarrow> bool" where
  "alias_init refs s \<longleftrightarrow> refs (rc (aw s)) = {} \<and> held s = {} \<and> next_addr (aw s) = 0"

definition alias_inv :: "('rc \<Rightarrow> nat set) \<Rightarrow> 'rc alias_sys \<Rightarrow> bool" where
  "alias_inv refs s \<longleftrightarrow>
     refs (rc (aw s)) \<inter> held s = {} \<and> refs (rc (aw s)) \<union> held s \<subseteq> {..<next_addr (aw s)}"

lemma alias_inv_set:
  assumes ok: "rist_refs_ok R refs" and inv: "alias_inv refs s" and v: "set_option v \<subseteq> held s"
  shows "alias_inv refs (s\<lparr>aw := snd (L1_Set R key v ttl (aw s))\<rparr>)"
proof -
  obtain v' w where cl: "clone v (aw s) = (v', w)" by (cases "clone v (aw s)")
  then have w: "next_addr (aw s) \<le> next_addr w" "rc w = rc (aw s)"
      "set_option v' \<inter> {..<next_addr (aw s)} = {}" "set_option v' \<subseteq> {..<next_addr w}"
    by (auto simp: clone_def alloc_def split: option.splits)
  have "refs (rist_Wait R (rist_SetWithTTL R (cnow w) key v' 1 ttl (rc w))) \<subseteq> refs (rc (aw s)) \<union> set_option v'"
    using ok w(2) unfolding rist_refs_ok_def by (metis (no_types) subset_trans)
  moreover have "set_option v' \<inter> held s = {}" "held s \<subseteq> {..<next_addr w}" "refs (rc (aw s)) \<subseteq> {..<next_addr w}"
    "refs (rc (aw s)) \<inter> held s = {}"
    using inv w(1,3) by (auto simp: alias_inv_def)
  moreover have "snd (L1_Set R key v ttl (aw s)) =
      w\<lparr>rc := rist_Wait R (rist_SetWithTTL R (cnow w) key v' 1 ttl (rc w))\<rparr>"
    by (simp add: L1_Set_def cl)
  ultimately show ?thesis
    using w(4) unfolding alias_inv_def by simp blast
qed

lemma alias_inv_get:
  assumes ok: "rist_refs_ok R refs" and inv: "alias_inv refs s" and g: "L1_Get R key (aw s) = ((v, hit, e), w)"
  shows "alias_inv refs (s\<lparr>aw := w, held := held s \<union> set_option v\<rparr>)"
proof -
  have sub: "refs (snd (rist_Get R (cnow (aw s)) key (rc (aw s)))) \<subseteq> refs (rc (aw s))"
    using ok by (simp add: rist_refs_ok_def)
  have "rc w = snd (rist_Get R (cnow (aw s)) key (rc (aw s)))" "next_addr (aw s) \<le> next_addr w"
    "set_option v \<inter> {..<next_addr (aw s)} = {}" "set_option v \<subseteq> {..<next_addr w}"
    using g by (auto simp: L1_Get_def Let_def clone_def alloc_def split_beta split: option.splits)
  with sub inv show ?thesis unfolding alias_inv_def by auto
qed

lemma alias_inv_step: "rist_refs_ok R refs \<Longrightarrow> alias_inv refs s \<Longrightarrow> alias_step R s t \<Longrightarrow> alias_inv refs t"
proof (erule alias_step.cases, goal_cases)
  case (1 s b)
  then show ?case by (auto simp: alias_inv_def alloc_def)
next
  case (3 v s key ttl)
  then show ?case by (simp add: alias_inv_set)
next
  case (4 key s v ok e w)
  then show ?case by (simp add: alias_inv_get)
qed (auto simp: alias_inv_def)

lemma alias_inv_init: "alias_init refs s \<Longrightarrow> alias_inv refs s"
  by (simp add: alias_init_def alias_inv_def)

interpretation buffers: inductive_invariant "alias_step R" "alias_init refs"
    "\<lambda>s. rist_refs_ok R refs \<longrightarrow> alias_inv refs s" for R refs
  by unfold_locales (auto intro: alias_inv_init alias_inv_step)

text \<open>
  C26: the cache's buffers are private: in every reachable state, however often callers have
  written into slices they passed to \<open>Set\<close> or got from \<open>Get\<close>, writing into any slice they
  hold does not change the bytes the next \<open>Get\<close> of any key returns.
\<close>

theorem L1_buffers_private:
  assumes "rist_refs_ok R refs" and "reachable (alias_step R) (alias_init refs) s"
    and "a \<in> held s" and "L1_Get R key (aw s) = ((v, ok, e), w)"
  shows "\<exists>w'. L1_Get R key ((aw s)\<lparr>heap := (heap (aw s))(a := b)\<rparr>) = ((v, ok, e), w') \<and>
    contents w' v = contents w v"
proof -
  have "a \<notin> refs (rc (aw s))"
    using buffers.inv_reachable [OF assms(2)] assms(1,3) by (auto simp: alias_inv_def)
  then have "fst (rist_Get R (cnow (aw s)) key (rc (aw s))) \<noteq> Some (Some a)"
    using assms(1) by (auto simp: rist_refs_ok_def)
  then show ?thesis
    using assms(4) by (auto simp: L1_Get_def Let_def clone_def alloc_def contents_def split_beta split: option.splits)
qed

text \<open>
  \<open>Tiered.Get\<close> promotes without a TTL: a value found in Redis once is served from L1 at
  any later time, also when it has long expired in Redis, as long as ristretto keeps it.
\<close>

theorem promotion_forgets_ttl:
  assumes "\<And>now now' v r. fst (rist_Get R now' key (rist_Wait R (rist_SetWithTTL R now key v 1 0 r))) = Some v"
    and "fst (rist_Get R (cnow w) key (rc w)) = None"
    and "fst (redis_Get D (cnow w) key (rd w)) = RedisValue b"
  shows "\<exists>v w1. Tiered_Get R D key w = ((v, True, None), w1) \<and> contents w1 v = b \<and>
    (\<exists>v2 w2. Tiered_Get R D key (w1\<lparr>cnow := t, rd := d\<rparr>) = ((v2, True, None), w2) \<and> contents w2 v2 = b)"
proof -
  let ?w1 = "w\<lparr>rc := snd (rist_Get R (cnow w) key (rc w))\<rparr>"
  obtain d' where d': "redis_Get D (cnow w) key (rd w) = (RedisValue b, d')" using assms(3) by (metis prod.collapse)
  let ?w2 = "snd (alloc b (?w1\<lparr>rd := d'\<rparr>))" and ?v = "Some (next_addr w)"
  have get: "Tiered_Get R D key w = ((?v, True, None), snd (L1_Set R key ?v 0 ?w2))"
    using L1_miss [OF assms(2)] d' by (simp add: Tiered_Get_def L2_Get_def alloc_def)
  obtain u w3 where cl: "clone ?v ?w2 = (u, w3)" by (cases "clone ?v ?w2")
  let ?w4 = "w3\<lparr>rc := rist_Wait R (rist_SetWithTTL R (cnow w3) key u 1 0 (rc w3))\<rparr>"
  have set: "snd (L1_Set R key ?v 0 ?w2) = ?w4" by (simp add: L1_Set_def cl)
  have u: "contents ?w4 u = b" "contents ?w4 ?v = b"
    using cl by (auto simp: clone_def alloc_def contents_def)
  have "fst (rist_Get R (cnow (?w4\<lparr>cnow := t, rd := d\<rparr>)) key (rc (?w4\<lparr>cnow := t, rd := d\<rparr>))) = Some u"
    using assms(1) by simp
  from L1_hit [OF this] obtain v2 w5 where
    "L1_Get R key (?w4\<lparr>cnow := t, rd := d\<rparr>) = ((v2, True, None), w5)" "contents w5 v2 = b"
    using u(1) by (auto simp: contents_def split: option.splits)
  then have "Tiered_Get R D key (?w4\<lparr>cnow := t, rd := d\<rparr>) = ((v2, True, None), w5)" by (simp add: Tiered_Get_def)
  with get set u(2) \<open>contents w5 v2 = b\<close> show ?thesis by auto
qed

section \<open>Concrete clients\<close>

text \<open>A ristretto that never evicts and a Redis that never fails; both honour expiry.\<close>

definition demo_rist :: "(string \<rightharpoonup> slice \<times> int) rist_api" where
  "demo_rist =
     \<lparr>rist_NewCache = (\<lambda>_ cost _. if cost \<le> 0 then Inl (PlainError ''MaxCost can't be zero'') else Inr Map.empty),
      rist_Get = (\<lambda>now key r. (case r key of
         Some (v, x) \<Rightarrow> if x = 0 \<or> now < x then Some v else None | None \<Rightarrow> None, r)),
      rist_SetWithTTL = (\<lambda>now key v _ ttl r.
         if ttl < 0 then r else r(key \<mapsto> (v, if ttl = 0 then 0 else now + ttl))),
      rist_Wait = (\<lambda>r. r)\<rparr>"

definition demo_redis :: "(string \<rightharpoonup> bytes \<times> int) redis_api" where
  "demo_redis =
     \<lparr>redis_NewClient = (\<lambda>addr password db. Map.empty),
      redis_Get = (\<lambda>now key d. (case d key of
         Some (b, x) \<Rightarrow> if x = 0 \<or> now < x then RedisValue b else RedisNil | None \<Rightarrow> RedisNil, d)),
      redis_Set = (\<lambda>now key b ttl d. (None, d(key \<mapsto> (b, if ttl = 0 then 0 else now + ttl)))),
      redis_Ping = (\<lambda>d. (None, d)), redis_Close = (\<lambda>d. (None, d))\<rparr>"

definition demo_refs :: "(string \<rightharpoonup> slice \<times> int) \<Rightarrow> nat set" where
  "demo_refs r = {a. \<exists>k x. r k = Some (Some a, x)}"

lemma demo_refs_ok: "rist_refs_ok demo_rist demo_refs"
  by (auto simp: rist_refs_ok_def demo_rist_def demo_refs_def split: option.splits if_splits)

definition demo_cache :: "(string \<rightharpoonup> slice \<times> int, string \<rightharpoonup> bytes \<times> int) tiered_world" where
  "demo_cache = \<lparr>heap = (\<lambda>_. []), next_addr = 0, cnow = 0, rc = Map.empty, loads = Map.empty, calls = [],
     rd = Map.empty\<rparr>"

theorem GetOrSet_loads_once_witness:
  "\<exists>b c w'. L1_GetOrSet demo_rist ''k'' 5 (\<lambda>w. (Return (fst (alloc [1, 2] w), None), snd (alloc [1, 2] w))) demo_cache
     = Some (Return (Some c, None), w') \<and> rc w' ''k'' = Some (Some b, 5) \<and> distinct [0, b, c] \<and>
     heap w' b = [1, 2] \<and> heap w' c = [1, 2]"
proof -
  have "L1_Get demo_rist ''k'' demo_cache = ((None, False, None), demo_cache)"
    by (simp add: L1_Get_def demo_rist_def demo_cache_def)
  from GetOrSet_loads_once [OF this, where ttl = 5 and
      loader = "\<lambda>w. (Return (fst (alloc [1, 2] w), None), snd (alloc [1, 2] w))", OF _ refl]
  show ?thesis
    by (auto simp: demo_cache_def alloc_def sf_enter_def demo_rist_def)
qed

theorem loader_panic_poisons_key_witness:
  "L1_GetOrSet demo_rist ''k'' 0 (\<lambda>w. (Return (None, None), w))
     (snd (sf_enter ''k'' demo_cache)) = None"
proof -
  have "L1_Get demo_rist ''k'' demo_cache = ((None, False, None), demo_cache)"
    by (simp add: L1_Get_def demo_rist_def demo_cache_def)
  from loader_panic_poisons_key [OF this, of "\<lambda>w. (Panic ''boom'', w)" _ _ 0 0 "\<lambda>w. (Return (None, None), w)"]
  show ?thesis by (simp add: demo_rist_def demo_cache_def sf_enter_def)
qed

theorem tiered_read_your_writes_witness:
  "\<exists>v' w'. Tiered_Get demo_rist demo_redis ''k'' (snd (Tiered_Set demo_rist demo_redis ''k'' None 0 demo_cache))
     = ((v', True, None), w') \<and> contents w' v' = []"
  by (rule tiered_read_your_writes) (simp_all add: demo_rist_def demo_redis_def contents_def)

definition demo_alias :: "(string \<rightharpoonup> slice \<times> int) alias_sys" where
  "demo_alias = \<lparr>aw = \<lparr>heap = (\<lambda>_. []), next_addr = 0, cnow = 0, rc = Map.empty, loads = Map.empty, calls = []\<rparr>,
     held = {}\<rparr>"

theorem L1_buffers_private_witness:
  "\<exists>w'. L1_Get demo_rist ''k'' \<lparr>heap = (\<lambda>_. [])(0 := [7], 1 := [3]), next_addr = 2, cnow = 0,
       rc = [''k'' \<mapsto> (Some 1, 0)], loads = Map.empty, calls = []\<rparr> = ((Some 2, True, None), w') \<and>
     contents w' (Some 2) = [3]"
proof -
  let ?t = "demo_alias\<lparr>aw := snd (alloc [3] (aw demo_alias)), held := insert (next_addr (aw demo_alias)) (held demo_alias)\<rparr>"
  let ?u = "?t\<lparr>aw := snd (L1_Set demo_rist ''k'' (Some 0) 0 (aw ?t))\<rparr>"
  have "reachable (alias_step demo_rist) (alias_init demo_refs) demo_alias"
    by (rule reachable_init) (simp add: alias_init_def demo_refs_def demo_alias_def)
  then have "reachable (alias_step demo_rist) (alias_init demo_refs) ?t" by (rule reachable_step) (rule as_alloc)
  then have r: "reachable (alias_step demo_rist) (alias_init demo_refs) ?u"
    by (rule reachable_step) (rule as_set, simp add: demo_alias_def)
  have aw: "aw ?u = \<lparr>heap = (\<lambda>_. [])(0 := [3], 1 := [3]), next_addr = 2, cnow = 0,
       rc = [''k'' \<mapsto> (Some 1, 0)], loads = Map.empty, calls = []\<rparr>"
    by (simp add: demo_alias_def alloc_def L1_Set_def clone_def demo_rist_def)
  have g: "L1_Get demo_rist ''k'' (aw ?u) = ((Some 2, True, None), (aw ?u)\<lparr>heap := (heap (aw ?u))(2 := [3]), next_addr := 3\<rparr>)"
    unfolding aw by (simp add: L1_Get_def demo_rist_def alloc_def clone_def)
  have "0 \<in> held ?u" by (simp add: demo_alias_def)
  note L1_buffers_private [OF demo_refs_ok r this g, of "[7]", unfolded aw]
  then show ?thesis by (auto simp: contents_def fun_upd_twist)
qed

theorem promotion_forgets_ttl_witness:
  "\<exists>v w1 v2 w2. Tiered_Get demo_rist demo_redis ''k'' (demo_cache\<lparr>rd := [''k'' \<mapsto> ([1], 10)], cnow := 5\<rparr>)
       = ((v, True, None), w1) \<and>
     Tiered_Get demo_rist demo_redis ''k'' (w1\<lparr>cnow := 1000, rd := Map.empty\<rparr>) = ((v2, True, None), w2) \<and>
     contents w2 v2 = [1]"
proof -
  let ?w = "demo_cache\<lparr>rd := [''k'' \<mapsto> ([1], 10)], cnow := 5\<rparr>"
  have "fst (rist_Get demo_rist (cnow ?w) ''k'' (rc ?w)) = None"
    "fst (redis_Get demo_redis (cnow ?w) ''k'' (rd ?w)) = RedisValue [1]"
    by (simp_all add: demo_rist_def demo_redis_def demo_cache_def)
  from promotion_forgets_ttl [OF _ this, where t = 1000 and d = Map.empty] show ?thesis
    by (auto simp: demo_rist_def)
qed

end
