(* ===== verification/Singleflight.thy ===== *)
theory Singleflight
  imports Cache
begin

text \<open>
  Concurrent callers of \<open>GetOrSet\<close> (cache/l1.go, cache/tiered.go): the two copies of the
  hand-written singleflight as one step relation over any lookup and any store, its
  invariant, and its instances for \<open>L1\<close> and \<open>Tiered\<close>.
\<close>

section \<open>Callers\<close>

text \<open>
  Where a caller stands: before the lookup; after a miss; waiting for call \<open>c\<close>; about to run
  the loader of call \<open>c\<close>, which it registered; with the result recorded; stored; after
  \<open>wg.Done\<close>; returned; or dead of a panic of its loader.
\<close>

datatype pc =
    PStart | PMissed | PJoin nat | PLead nat | PLoaded nat | PStored nat | PSignalled nat
  | PReturned "slice \<times> gerror option" | PCrashed nat

record thread =
  t_key :: string
  t_ttl :: int
  t_pc :: pc

record 'w sf_sys =
  sw :: 'w
  thr :: "nat \<Rightarrow> thread option"

definition goto :: "nat \<Rightarrow> thread \<Rightarrow> pc \<Rightarrow> 'w \<Rightarrow> 'w sf_sys \<Rightarrow> 'w sf_sys" where
  "goto i t p w s = s\<lparr>sw := w, thr := (thr s)(i \<mapsto> t\<lparr>t_pc := p\<rparr>)\<rparr>"

definition same_table :: "('rc, 'x) cache_world_scheme \<Rightarrow> ('rc, 'x) cache_world_scheme \<Rightarrow> bool" where
  "same_table w w' \<longleftrightarrow> loads w' = loads w \<and> calls w' = calls w"

text \<open>
  The steps of a caller.  The lookup is atomic, and so is the store; the loader and whatever
  else happens may change anything but the table of loads.
\<close>

inductive sf_step ::
    "(string \<Rightarrow> int \<Rightarrow> ('rc, 'x) cache_world_scheme \<Rightarrow> slice option \<times> ('rc, 'x) cache_world_scheme)
       \<Rightarrow> (string \<Rightarrow> slice \<Rightarrow> int \<Rightarrow> ('rc, 'x) cache_world_scheme \<Rightarrow> ('rc, 'x) cache_world_scheme)
       \<Rightarrow> ('rc, 'x) cache_world_scheme sf_sys \<Rightarrow> ('rc, 'x) cache_world_scheme sf_sys \<Rightarrow> bool"
  for lookup store where
  sf_spawn: "thr s i = None \<Longrightarrow> t_pc t = PStart \<Longrightarrow> sf_step lookup store s (s\<lparr>thr := (thr s)(i \<mapsto> t)\<rparr>)"
| sf_hit: "thr s i = Some t \<Longrightarrow> t_pc t = PStart \<Longrightarrow> lookup (t_key t) (t_ttl t) (sw s) = (Some v, w) \<Longrightarrow>
     sf_step lookup store s (goto i t (PReturned (v, None)) w s)"
| sf_miss: "thr s i = Some t \<Longrightarrow> t_pc t = PStart \<Longrightarrow> lookup (t_key t) (t_ttl t) (sw s) = (None, w) \<Longrightarrow>
     sf_step lookup store s (goto i t PMissed w s)"
| sf_join: "thr s i = Some t \<Longrightarrow> t_pc t = PMissed \<Longrightarrow> sf_enter (t_key t) (sw s) = (Inl c, w) \<Longrightarrow>
     sf_step lookup store s (goto i t (PJoin c) w s)"
| sf_lead: "thr s i = Some t \<Longrightarrow> t_pc t = PMissed \<Longrightarrow> sf_enter (t_key t) (sw s) = (Inr c, w) \<Longrightarrow>
     sf_step lookup store s (goto i t (PLead c) w s)"
| sf_load: "thr s i = Some t \<Longrightarrow> t_pc t = PLead c \<Longrightarrow> same_table (sw s) w \<Longrightarrow>
     sf_step lookup store s (goto i t (PLoaded c) (sf_loaded c val err w) s)"
| sf_panic: "thr s i = Some t \<Longrightarrow> t_pc t = PLead c \<Longrightarrow> same_table (sw s) w \<Longrightarrow>
     sf_step lookup store s (goto i t (PCrashed c) w s)"
| sf_save: "thr s i = Some t \<Longrightarrow> t_pc t = PLoaded c \<Longrightarrow>
     w = (if c_err (calls (sw s) ! c) = None
          then store (t_key t) (c_val (calls (sw s) ! c)) (t_ttl t) (sw s) else sw s) \<Longrightarrow>
     sf_step lookup store s (goto i t (PStored c) w s)"
| sf_done: "thr s i = Some t \<Longrightarrow> t_pc t = PStored c \<Longrightarrow>
     sf_step lookup store s (goto i t (PSignalled c) (sf_signal c (sw s)) s)"
| sf_leave: "thr s i = Some t \<Longrightarrow> t_pc t = PSignalled c \<Longrightarrow> sf_result c (sf_delete (t_key t) (sw s)) = (r, w) \<Longrightarrow>
     sf_step lookup store s (goto i t (PReturned r) w s)"
| sf_wake: "thr s i = Some t \<Longrightarrow> t_pc t = PJoin c \<Longrightarrow> wg_done (calls (sw s) ! c) \<Longrightarrow> sf_result c (sw s) = (r, w) \<Longrightarrow>
     sf_step lookup store s (goto i t (PReturned r) w s)"
| sf_other: "same_table (sw s) w \<Longrightarrow> sf_step lookup store s (s\<lparr>sw := w\<rparr>)"

definition sf_init :: "('rc, 'x) cache_world_scheme sf_sys \<Rightarrow> bool" where
  "sf_init s \<longleftrightarrow> loads (sw s) = Map.empty \<and> calls (sw s) = [] \<and> thr s = Map.empty"

section \<open>The invariant\<close>

text \<open>The call a caller has registered and not yet removed.\<close>

fun owned :: "pc \<Rightarrow> nat option" where
  "owned (PLead c) = Some c"
| "owned (PLoaded c) = Some c"
| "owned (PStored c) = Some c"
| "owned (PSignalled c) = Some c"
| "owned (PCrashed c) = Some c"
| "owned _ = None"

definition owns :: "('rc, 'x) cache_world_scheme sf_sys \<Rightarrow> nat \<Rightarrow> string \<Rightarrow> nat \<Rightarrow> bool" where
  "owns s i k c \<longleftrightarrow> (\<exists>t. thr s i = Some t \<and> t_key t = k \<and> owned (t_pc t) = Some c)"

definition finished :: "('rc, 'x) cache_world_scheme sf_sys \<Rightarrow> nat \<Rightarrow> bool" where
  "finished s c \<longleftrightarrow> wg_done (calls (sw s) ! c)"

text \<open>
  The table holds exactly the owned calls, each under its owner's key; a call has one owner
  and is finished iff its owner has signalled; a call that is not finished has an owner.
\<close>

definition inv_owner :: "('rc, 'x) cache_world_scheme sf_sys \<Rightarrow> bool" where
  "inv_owner s \<longleftrightarrow> (\<forall>i k c. owns s i k c \<longrightarrow> loads (sw s) k = Some c \<and> c < length (calls (sw s)))"

definition inv_entry :: "('rc, 'x) cache_world_scheme sf_sys \<Rightarrow> bool" where
  "inv_entry s \<longleftrightarrow> (\<forall>k c. loads (sw s) k = Some c \<longrightarrow> (\<exists>i. owns s i k c))"

definition inv_unique :: "('rc, 'x) cache_world_scheme sf_sys \<Rightarrow> bool" where
  "inv_unique s \<longleftrightarrow> (\<forall>i j k l c. owns s i k c \<and> owns s j l c \<longrightarrow> i = j)"

definition inv_done :: "('rc, 'x) cache_world_scheme sf_sys \<Rightarrow> bool" where
  "inv_done s \<longleftrightarrow> (\<forall>i t c. thr s i = Some t \<and> owned (t_pc t) = Some c \<longrightarrow>
     (finished s c \<longleftrightarrow> t_pc t = PSignalled c))"

definition inv_join :: "('rc, 'x) cache_world_scheme sf_sys \<Rightarrow> bool" where
  "inv_join s \<longleftrightarrow> (\<forall>i t c. thr s i = Some t \<and> t_pc t = PJoin c \<longrightarrow>
     c < length (calls (sw s)) \<and> (finished s c \<or> (\<exists>j. owns s j (t_key t) c)))"

definition sf_inv :: "('rc, 'x) cache_world_scheme sf_sys \<Rightarrow> bool" where
  "sf_inv s \<longleftrightarrow> inv_owner s \<and> inv_entry s \<and> inv_unique s \<and> inv_done s \<and> inv_join s"

lemmas inv_defs = inv_owner_def inv_entry_def inv_unique_def inv_done_def inv_join_def

lemma sf_invD:
  assumes "sf_inv s"
  shows sf_owner: "owns s i k c \<Longrightarrow> loads (sw s) k = Some c \<and> c < length (calls (sw s))"
    and sf_entry: "loads (sw s) k = Some c \<Longrightarrow> \<exists>i. owns s i k c"
    and sf_unique: "owns s i k c \<Longrightarrow> owns s j l c \<Longrightarrow> i = j"
    and sf_finished: "thr s i = Some t \<Longrightarrow> owned (t_pc t) = Some c \<Longrightarrow> finished s c \<longleftrightarrow> t_pc t = PSignalled c"
    and sf_joined: "thr s i = Some t \<Longrightarrow> t_pc t = PJoin c \<Longrightarrow>
      c < length (calls (sw s)) \<and> (finished s c \<or> (\<exists>j. owns s j (t_key t) c))"
  using assms unfolding sf_inv_def inv_defs by blast+

lemma sf_invI:
  assumes "\<And>i k c. owns s i k c \<Longrightarrow> loads (sw s) k = Some c \<and> c < length (calls (sw s))"
    and "\<And>k c. loads (sw s) k = Some c \<Longrightarrow> \<exists>i. owns s i k c"
    and "\<And>i j k l c. owns s i k c \<Longrightarrow> owns s j l c \<Longrightarrow> i = j"
    and "\<And>i t c. thr s i = Some t \<Longrightarrow> owned (t_pc t) = Some c \<Longrightarrow> finished s c \<longleftrightarrow> t_pc t = PSignalled c"
    and "\<And>i t c. thr s i = Some t \<Longrightarrow> t_pc t = PJoin c \<Longrightarrow>
      c < length (calls (sw s)) \<and> (finished s c \<or> (\<exists>j. owns s j (t_key t) c))"
  shows "sf_inv s"
  unfolding sf_inv_def inv_defs using assms by blast

section \<open>Steps that leave the table alone\<close>

text \<open>
  A step that moves one caller between points with the same call, and changes the table at
  most by the result of a call, keeps the invariant.
\<close>

lemma owns_goto:
  "thr s i = Some t \<Longrightarrow> owned p = owned (t_pc t) \<Longrightarrow> owns (goto i t p w s) j k c = owns s j k c"
  by (auto simp: owns_def goto_def)

lemma sf_inv_quiet:
  assumes inv: "sf_inv s" and t: "thr s i = Some t" and p: "owned p = owned (t_pc t)"
    and tab: "loads w = loads (sw s)" "length (calls w) = length (calls (sw s))"
    and fin: "\<And>c. wg_done (calls w ! c) = finished s c"
    and sig: "\<And>c. owned p = Some c \<Longrightarrow> p = PSignalled c \<longleftrightarrow> t_pc t = PSignalled c"
    and join: "\<And>c. p = PJoin c \<Longrightarrow> c < length (calls w) \<and> (finished s c \<or> (\<exists>j. owns s j (t_key t) c))"
  shows "sf_inv (goto i t p w s)"
proof (rule sf_invI)
  let ?s = "goto i t p w s"
  have sw: "sw ?s = w" and finished: "finished ?s c = finished s c" for c
    by (simp_all add: goto_def finished_def fin)
  show "owns ?s j k c \<Longrightarrow> loads (sw ?s) k = Some c \<and> c < length (calls (sw ?s))" for j k c
    using sf_owner [OF inv] tab by (simp add: owns_goto [OF t p] sw)
  show "loads (sw ?s) k = Some c \<Longrightarrow> \<exists>j. owns ?s j k c" for k c
    using sf_entry [OF inv] tab by (simp add: owns_goto [OF t p] sw)
  show "owns ?s j k c \<Longrightarrow> owns ?s j' l c \<Longrightarrow> j = j'" for j j' k l c
    using sf_unique [OF inv] by (simp add: owns_goto [OF t p])
  show "finished ?s c \<longleftrightarrow> t_pc u = PSignalled c" if u: "thr ?s j = Some u" "owned (t_pc u) = Some c" for j u c
  proof (cases "j = i")
    case True
    then have "t_pc u = p" using u(1) by (auto simp: goto_def)
    with u(2) p sig [of c] sf_finished [OF inv t, of c] show ?thesis unfolding finished by simp
  next
    case False
    then have "thr s j = Some u" using u(1) by (simp add: goto_def)
    with u(2) sf_finished [OF inv] show ?thesis unfolding finished by blast
  qed
  show "thr ?s j = Some u \<Longrightarrow> t_pc u = PJoin c \<Longrightarrow>
      c < length (calls (sw ?s)) \<and> (finished ?s c \<or> (\<exists>j. owns ?s j (t_key u) c))" for j u c
    using sf_joined [OF inv, of j u c] join tab
    unfolding finished owns_goto [OF t p] sw by (auto simp: goto_def split: if_splits)
qed

lemma sf_inv_world:
  assumes inv: "sf_inv s" and "loads w = loads (sw s)" "calls w = calls (sw s)"
  shows "sf_inv (s\<lparr>sw := w\<rparr>)"
proof -
  have o: "owns (s\<lparr>sw := w\<rparr>) = owns s" "finished (s\<lparr>sw := w\<rparr>) = finished s"
    using assms(3) by (auto simp: owns_def finished_def fun_eq_iff)
  have s: "sw (s\<lparr>sw := w\<rparr>) = w" "thr (s\<lparr>sw := w\<rparr>) = thr s" by simp_all
  show ?thesis
    by (rule sf_invI; unfold o s assms(2,3))
       (fact sf_owner [OF inv] sf_entry [OF inv] sf_unique [OF inv] sf_finished [OF inv] sf_joined [OF inv])+
qed

section \<open>Steps that change the table\<close>

lemma owns_goto_iff:
  "owns (goto i t p w s) j k c \<longleftrightarrow> (if j = i then t_key t = k \<and> owned p = Some c else owns s j k c)"
  by (auto simp: owns_def goto_def)

lemma sf_inv_lead:
  assumes inv: "sf_inv s" and t: "thr s i = Some t" "t_pc t = PMissed"
    and e: "sf_enter (t_key t) (sw s) = (Inr c, w)"
  shows "sf_inv (goto i t (PLead c) w s)"
proof -
  let ?n = "length (calls (sw s))"
  let ?s = "goto i t (PLead ?n) w s"
  have free: "loads (sw s) (t_key t) = None" and c: "c = ?n"
    and w: "loads w = (loads (sw s))(t_key t \<mapsto> ?n)" "calls w = calls (sw s) @ [\<lparr>wg_done = False, c_val = None, c_err = None\<rparr>]"
    using e by (auto simp: sf_enter_def split: option.splits)
  have sw: "sw ?s = w" by (simp add: goto_def)
  have me: "\<not> owns s i k d" for k d using t by (auto simp: owns_def)
  have old: "loads (sw s) k = Some d \<and> d < ?n \<and> k \<noteq> t_key t" if "owns s j k d" for j k d
    using sf_owner [OF inv that] free by auto
  have fin: "finished ?s d = (d < ?n \<and> finished s d)" if "d \<le> ?n" for d
    using that by (auto simp: finished_def sw w nth_append)
  show ?thesis unfolding c
  proof (rule sf_invI)
  show "loads (sw ?s) k = Some d \<and> d < length (calls (sw ?s))" if "owns ?s j k d" for j k d
    using that old [of j k d] by (auto simp: owns_goto_iff sw w split: if_splits)
  show "\<exists>j. owns ?s j k d" if d: "loads (sw ?s) k = Some d" for k d
  proof (cases "k = t_key t")
    case True
    then show ?thesis using d by (intro exI [of _ i]) (simp add: owns_goto_iff sw w)
  next
    case False
    then obtain j where "owns s j k d" using d sf_entry [OF inv, of k d] by (auto simp: sw w)
    then show ?thesis using me by (intro exI [of _ j]) (auto simp: owns_goto_iff)
  qed
  show "j = j'" if "owns ?s j k d" "owns ?s j' l d" for j j' k l d
    using that sf_unique [OF inv, of j k d j' l] old by (fastforce simp: owns_goto_iff split: if_splits)
  show "finished ?s d \<longleftrightarrow> t_pc u = PSignalled d" if u: "thr ?s j = Some u" "owned (t_pc u) = Some d" for j u d
  proof (cases "j = i")
    case True
    then have "t_pc u = PLead ?n" "d = ?n" using u by (auto simp: goto_def)
    then show ?thesis using fin [of d] by simp
  next
    case False
    then have u': "thr s j = Some u" using u(1) by (simp add: goto_def)
    then have "d < ?n" using old [of j "t_key u" d] u(2) by (auto simp: owns_def)
    then show ?thesis using sf_finished [OF inv u' u(2)] fin [of d] by simp
  qed
  show "d < length (calls (sw ?s)) \<and> (finished ?s d \<or> (\<exists>j. owns ?s j (t_key u) d))"
    if u: "thr ?s j = Some u" "t_pc u = PJoin d" for j u d
  proof -
    have "thr s j = Some u" using u by (auto simp: goto_def split: if_splits)
    from sf_joined [OF inv this u(2)] have d: "d < ?n" "finished s d \<or> (\<exists>j. owns s j (t_key u) d)" by auto
    moreover have "owns ?s j' k d" if "owns s j' k d" for j' k using that me by (auto simp: owns_goto_iff)
    ultimately show ?thesis using fin [of d] by (auto simp: sw w)
  qed
qed
qed

lemma sf_inv_signal:
  assumes inv: "sf_inv s" and t: "thr s i = Some t" "t_pc t = PStored c"
  shows "sf_inv (goto i t (PSignalled c) (sf_signal c (sw s)) s)"
proof (rule sf_invI)
  let ?s = "goto i t (PSignalled c) (sf_signal c (sw s)) s"
  have own: "owns ?s j k d = owns s j k d" for j k d using t by (intro owns_goto) auto
  have mine: "owns s i (t_key t) c" using t by (auto simp: owns_def)
  have c: "c < length (calls (sw s))" using sf_owner [OF inv mine] by simp
  have fin: "finished ?s d = (d = c \<or> finished s d)" for d
    using c by (auto simp: finished_def goto_def sf_signal_def nth_list_update)
  have tab: "loads (sw ?s) = loads (sw s)" "length (calls (sw ?s)) = length (calls (sw s))"
    by (simp_all add: goto_def sf_signal_def)
  show "owns ?s j k d \<Longrightarrow> loads (sw ?s) k = Some d \<and> d < length (calls (sw ?s))" for j k d
    using sf_owner [OF inv] by (simp add: own tab)
  show "loads (sw ?s) k = Some d \<Longrightarrow> \<exists>j. owns ?s j k d" for k d
    using sf_entry [OF inv] by (simp add: own tab)
  show "owns ?s j k d \<Longrightarrow> owns ?s j' l d \<Longrightarrow> j = j'" for j j' k l d
    using sf_unique [OF inv] by (simp add: own)
  show "finished ?s d \<longleftrightarrow> t_pc u = PSignalled d" if u: "thr ?s j = Some u" "owned (t_pc u) = Some d" for j u d
  proof (cases "j = i")
    case True
    then have "t_pc u = PSignalled c" "d = c" using u by (auto simp: goto_def)
    then show ?thesis by (simp add: fin)
  next
    case False
    then have u': "thr s j = Some u" using u(1) by (simp add: goto_def)
    then have "d \<noteq> c" using sf_unique [OF inv mine, of j "t_key u"] u(2) False by (auto simp: owns_def)
    then show ?thesis using sf_finished [OF inv u' u(2)] by (simp add: fin)
  qed
  show "d < length (calls (sw ?s)) \<and> (finished ?s d \<or> (\<exists>j. owns ?s j (t_key u) d))"
    if u: "thr ?s j = Some u" "t_pc u = PJoin d" for j u d
  proof -
    have "thr s j = Some u" using u by (auto simp: goto_def split: if_splits)
    from sf_joined [OF inv this u(2)] show ?thesis by (auto simp: fin own tab)
  qed
qed

lemma sf_inv_leave:
  assumes inv: "sf_inv s" and t: "thr s i = Some t" "t_pc t = PSignalled c"
    and r: "sf_result c (sf_delete (t_key t) (sw s)) = (r, w)"
  shows "sf_inv (goto i t (PReturned r) w s)"
proof (rule sf_invI)
  let ?s = "goto i t (PReturned r) w s"
  have mine: "owns s i (t_key t) c" using t by (auto simp: owns_def)
  have c: "loads (sw s) (t_key t) = Some c" "finished s c"
    using sf_owner [OF inv mine] sf_finished [OF inv t(1), of c] t(2) by simp_all
  have w: "loads w = (loads (sw s))(t_key t := None)" "calls w = calls (sw s)"
    using r by (auto simp: sf_result_def sf_delete_def clone_def alloc_def split: if_splits option.splits)
  have tab: "loads (sw ?s) = (loads (sw s))(t_key t := None)" "calls (sw ?s) = calls (sw s)"
    "finished ?s = finished s"
    by (auto simp: goto_def finished_def w)
  have own: "owns ?s j k d \<longleftrightarrow> j \<noteq> i \<and> owns s j k d" for j k d by (simp add: owns_goto_iff)
  have other: "k \<noteq> t_key t" if "owns s j k d" "j \<noteq> i" for j k d
    using sf_owner [OF inv that(1)] sf_unique [OF inv mine, of j k] c that by auto
  show "loads (sw ?s) k = Some d \<and> d < length (calls (sw ?s))" if o: "owns ?s j k d" for j k d
  proof -
    have o': "owns s j k d" "j \<noteq> i" using o by (simp_all add: own)
    with sf_owner [OF inv o'(1)] other [OF o'] show ?thesis by (simp add: tab)
  qed
  show "\<exists>j. owns ?s j k d" if d: "loads (sw ?s) k = Some d" for k d
  proof -
    have k: "k \<noteq> t_key t" "loads (sw s) k = Some d" using d by (auto simp: tab split: if_splits)
    then obtain j where j: "owns s j k d" using sf_entry [OF inv] by blast
    then have "j \<noteq> i" using k(1) t(1) by (auto simp: owns_def)
    with j show ?thesis by (auto simp: own)
  qed
  show "owns ?s j k d \<Longrightarrow> owns ?s j' l d \<Longrightarrow> j = j'" for j j' k l d
    unfolding own using sf_unique [OF inv] by blast
  show "finished ?s d \<longleftrightarrow> t_pc u = PSignalled d" if u: "thr ?s j = Some u" "owned (t_pc u) = Some d" for j u d
  proof -
    have "thr s j = Some u" using u by (auto simp: goto_def split: if_splits)
    from sf_finished [OF inv this u(2)] show ?thesis by (simp add: tab)
  qed
  show "d < length (calls (sw ?s)) \<and> (finished ?s d \<or> (\<exists>j. owns ?s j (t_key u) d))"
    if u: "thr ?s j = Some u" "t_pc u = PJoin d" for j u d
  proof -
    have "thr s j = Some u" using u by (auto simp: goto_def split: if_splits)
    note j = sf_joined [OF inv this u(2)]
    show ?thesis
    proof (cases "d = c")
      case True
      with j c(2) show ?thesis by (simp add: tab)
    next
      case False
      have "\<not> owns s i (t_key u) d" using False t by (auto simp: owns_def)
      then have "owns s j' (t_key u) d \<Longrightarrow> owns ?s j' (t_key u) d" for j' by (auto simp: own)
      with j show ?thesis unfolding tab by blast
    qed
  qed
qed

lemma sf_inv_spawn:
  assumes inv: "sf_inv s" and "thr s i = None" "t_pc t = PStart"
  shows "sf_inv (s\<lparr>thr := (thr s)(i \<mapsto> t)\<rparr>)"
proof -
  let ?s = "s\<lparr>thr := (thr s)(i \<mapsto> t)\<rparr>"
  have o: "owns ?s = owns s" "finished ?s = finished s"
    using assms(2,3) by (auto simp: owns_def finished_def fun_eq_iff)
  have old: "thr s j = Some u" if "thr ?s j = Some u" "owned (t_pc u) = Some c \<or> t_pc u = PJoin c" for j u c
    using that assms(3) by (auto split: if_splits)
  show ?thesis
  proof (rule sf_invI; unfold o)
    show "owns s j k c \<Longrightarrow> loads (sw ?s) k = Some c \<and> c < length (calls (sw ?s))" for j k c
      using sf_owner [OF inv] by simp
    show "loads (sw ?s) k = Some c \<Longrightarrow> \<exists>j. owns s j k c" for k c using sf_entry [OF inv] by simp
    show "owns s j k c \<Longrightarrow> owns s j' l c \<Longrightarrow> j = j'" for j j' k l c using sf_unique [OF inv] .
    show "thr ?s j = Some u \<Longrightarrow> owned (t_pc u) = Some c \<Longrightarrow> finished s c \<longleftrightarrow> t_pc u = PSignalled c" for j u c
      using sf_finished [OF inv old, of j u c] by simp
    show "thr ?s j = Some u \<Longrightarrow> t_pc u = PJoin c \<Longrightarrow>
        c < length (calls (sw ?s)) \<and> (finished s c \<or> (\<exists>j. owns s j (t_key u) c))" for j u c
      using sf_joined [OF inv old, of j u c] by simp
  qed
qed

section \<open>Runs of one caller\<close>

lemma goto_at:
  "thr (goto i t p w s) i = Some (t\<lparr>t_pc := p\<rparr>)" "sw (goto i t p w s) = w"
  by (simp_all add: goto_def)

lemma goto_again [simp]: "goto i (t\<lparr>t_pc := p\<rparr>) q w' (goto i t p w s) = goto i t q w' s"
  by (simp add: goto_def)

lemma goto_same: "thr s i = Some t \<Longrightarrow> goto i t (t_pc t) (sw s) s = s"
  by (auto simp: goto_def fun_eq_iff)

definition cached_run ::
    "(string \<Rightarrow> int \<Rightarrow> ('rc, 'x) cache_world_scheme \<Rightarrow> slice option \<times> ('rc, 'x) cache_world_scheme)
       \<Rightarrow> (string \<Rightarrow> slice \<Rightarrow> int \<Rightarrow> ('rc, 'x) cache_world_scheme \<Rightarrow> ('rc, 'x) cache_world_scheme)
       \<Rightarrow> string \<Rightarrow> int \<Rightarrow> ('rc, 'x) loader \<Rightarrow> ('rc, 'x) cache_world_scheme
       \<Rightarrow> ((slice \<times> gerror option) outcome \<times> ('rc, 'x) cache_world_scheme) option" where
  "cached_run lookup store key ttl loader w =
     (case lookup key ttl w of
        (Some v, w1) \<Rightarrow> Some (Return (v, None), w1)
      | (None, w1) \<Rightarrow> sf_run store key ttl loader w1)"

text \<open>A caller can return: some run leads to a state in which it has.\<close>

definition can_return :: "('w sf_sys \<Rightarrow> 'w sf_sys \<Rightarrow> bool) \<Rightarrow> 'w sf_sys \<Rightarrow> nat \<Rightarrow> bool" where
  "can_return step s i \<longleftrightarrow> (\<exists>s' t r. steps step s s' \<and> thr s' i = Some t \<and> t_pc t = PReturned r)"

lemma can_returnI: "steps step s s' \<Longrightarrow> thr s' i = Some t \<Longrightarrow> t_pc t = PReturned r \<Longrightarrow> can_return step s i"
  by (auto simp: can_return_def)

lemma can_return_step: "step s s' \<Longrightarrow> can_return step s' i \<Longrightarrow> can_return step s i"
  unfolding can_return_def by (blast intro: step_steps)

definition no_dead :: "'w sf_sys \<Rightarrow> string \<Rightarrow> bool" where
  "no_dead s k \<longleftrightarrow> (\<forall>j u c. thr s j = Some u \<and> t_key u = k \<longrightarrow> t_pc u \<noteq> PCrashed c)"

lemma no_dead_goto: "no_dead s k \<Longrightarrow> (\<And>c. p \<noteq> PCrashed c) \<Longrightarrow> no_dead (goto i t p w s) k"
  by (auto simp: no_dead_def goto_def)

section \<open>The contract of the lookup and the store\<close>

text \<open>They leave the table of loads alone; that is all the singleflight needs of them.\<close>

locale singleflight =
  fixes lookup :: "string \<Rightarrow> int \<Rightarrow> ('rc, 'x) cache_world_scheme \<Rightarrow> slice option \<times> ('rc, 'x) cache_world_scheme"
    and store :: "string \<Rightarrow> slice \<Rightarrow> int \<Rightarrow> ('rc, 'x) cache_world_scheme \<Rightarrow> ('rc, 'x) cache_world_scheme"
  assumes lookup_table: "same_table w (snd (lookup k ttl w))"
    and store_table: "same_table w (store k v ttl w)"
begin

lemma inv_step: "sf_inv s \<Longrightarrow> sf_step lookup store s s' \<Longrightarrow> sf_inv s'"
proof (erule sf_step.cases, goal_cases)
  case (1 s i t)
  then show ?case by (simp add: sf_inv_spawn)
next
  case (2 s i t v w)
  with lookup_table [of "sw s" "t_key t" "t_ttl t"] show ?case
    by (auto simp: same_table_def finished_def intro!: sf_inv_quiet)
next
  case (3 s i t w)
  with lookup_table [of "sw s" "t_key t" "t_ttl t"] show ?case
    by (auto simp: same_table_def finished_def intro!: sf_inv_quiet)
next
  case (4 s i t c w)
  then have "loads (sw s) (t_key t) = Some c" "w = sw s" by (auto simp: sf_enter_def split: option.splits)
  moreover from this 4 obtain j where "owns s j (t_key t) c" using sf_entry by blast
  ultimately show ?case
    using 4 sf_owner [of s j "t_key t" c] by (auto simp: finished_def intro!: sf_inv_quiet)
next
  case (5 s i t c w)
  then show ?case by (simp add: sf_inv_lead)
next
  case (6 s i t c w val err)
  then have "c < length (calls (sw s))" using sf_owner [of s i "t_key t" c] by (auto simp: owns_def)
  then have fin: "wg_done (calls (sf_loaded c val err w) ! d) = finished s d" for d
    using \<open>same_table (sw s) w\<close> by (cases "d = c") (simp_all add: same_table_def finished_def sf_loaded_def)
  have "sf_inv (goto i t (PLoaded c) (sf_loaded c val err w) s)"
  proof (rule sf_inv_quiet)
    show "loads (sf_loaded c val err w) = loads (sw s)"
      "length (calls (sf_loaded c val err w)) = length (calls (sw s))"
      using 6 by (simp_all add: same_table_def sf_loaded_def)
  qed (use 6 fin in auto)
  then show ?case using 6 by simp
next
  case (7 s i t c w)
  then show ?case by (auto simp: same_table_def finished_def intro!: sf_inv_quiet)
next
  case (8 s i t c w)
  with store_table [of "sw s"] show ?case
    by (auto simp: same_table_def finished_def intro!: sf_inv_quiet)
next
  case (9 s i t c)
  then show ?case by (simp add: sf_inv_signal)
next
  case (10 s i t c r w)
  then show ?case by (simp add: sf_inv_leave)
next
  case (11 s i t c r w)
  then have "same_table (sw s) w"
    by (auto simp: same_table_def sf_result_def clone_def alloc_def split: if_splits option.splits)
  with 11 show ?case by (auto simp: same_table_def finished_def intro!: sf_inv_quiet)
next
  case (12 s w)
  then show ?case by (simp add: same_table_def sf_inv_world)
qed

lemma inv_init: "sf_init s \<Longrightarrow> sf_inv s"
  by (auto simp: sf_init_def sf_inv_def inv_defs owns_def)

end

sublocale singleflight \<subseteq> sys: inductive_invariant "sf_step lookup store" sf_init sf_inv
  by unfold_locales (rule inv_init inv_step; assumption)+

context singleflight
begin

text \<open>Two callers that own calls for one key are the same caller.\<close>

lemma one_owner:
  "reachable (sf_step lookup store) sf_init s \<Longrightarrow> owns s i k c \<Longrightarrow> owns s j k d \<Longrightarrow> i = j \<and> c = d"
proof -
  assume r: "reachable (sf_step lookup store) sf_init s" and o: "owns s i k c" "owns s j k d"
  note inv = sys.inv_reachable [OF r]
  have "c = d" using sf_owner [OF inv o(1)] sf_owner [OF inv o(2)] by simp
  with o sf_unique [OF inv] show ?thesis by blast
qed

text \<open>A waiter's call is finished, or its owner is at work on it or dead.\<close>

lemma waiter_owner:
  "sf_inv s \<Longrightarrow> thr s i = Some t \<Longrightarrow> t_pc t = PJoin c \<Longrightarrow>
   wg_done (calls (sw s) ! c) \<or>
   (\<exists>j u. thr s j = Some u \<and> t_key u = t_key t \<and> t_pc u \<in> {PLead c, PLoaded c, PStored c, PCrashed c})"
proof -
  assume inv: "sf_inv s" and t: "thr s i = Some t" "t_pc t = PJoin c"
  show ?thesis
  proof (cases "finished s c")
    case False
    with sf_joined [OF inv t] obtain j u where u: "thr s j = Some u" "t_key u = t_key t" "owned (t_pc u) = Some c"
      by (auto simp: owns_def)
    with False sf_finished [OF inv u(1,3)] have "t_pc u \<in> {PLead c, PLoaded c, PStored c, PCrashed c}"
      by (cases "t_pc u") auto
    with u show ?thesis by blast
  qed (simp add: finished_def)
qed

text \<open>
  One caller moving on its own.  A state in which it has already moved is again one it can
  move from; so its steps compose.
\<close>

lemma move:
  assumes "steps (sf_step lookup store) s (goto i t p w s)"
    and "sf_step lookup store (goto i t p w s) (goto i (t\<lparr>t_pc := p\<rparr>) q w' (goto i t p w s))"
  shows "steps (sf_step lookup store) s (goto i t q w' s)"
  using steps_step [OF assms] by simp

lemma save_and_signal:
  assumes "steps (sf_step lookup store) s (goto i t (PLoaded c) w s)"
    and "w' = (if c_err (calls w ! c) = None then store (t_key t) (c_val (calls w ! c)) (t_ttl t) w else w)"
  shows "steps (sf_step lookup store) s (goto i t (PSignalled c) (sf_signal c w') s)"
proof -
  have "steps (sf_step lookup store) s (goto i t (PStored c) w' s)"
    by (rule move [OF assms(1)], rule sf_save [OF goto_at(1)]) (simp_all add: assms(2) goto_at)
  moreover have "sf_step lookup store (goto i t (PStored c) w' s)
      (goto i (t\<lparr>t_pc := PStored c\<rparr>) (PSignalled c) (sf_signal c w') (goto i t (PStored c) w' s))"
    using sf_done [of "goto i t (PStored c) w' s" i "t\<lparr>t_pc := PStored c\<rparr>" c lookup store] by (simp add: goto_at)
  ultimately show ?thesis by (rule move)
qed

lemma leave:
  assumes "steps (sf_step lookup store) s (goto i t (PSignalled c) w s)"
    and "sf_result c (sf_delete (t_key t) w) = (r, w')"
  shows "steps (sf_step lookup store) s (goto i t (PReturned r) w' s)"
  using sf_leave [of "goto i t (PSignalled c) w s" i "t\<lparr>t_pc := PSignalled c\<rparr>" c r w' lookup store] assms
  by (intro move [OF assms(1)]) (simp add: goto_at)

lemma wake:
  assumes "steps (sf_step lookup store) s (goto i t (PJoin c) w s)"
    and "wg_done (calls w ! c)" "sf_result c w = (r, w')"
  shows "steps (sf_step lookup store) s (goto i t (PReturned r) w' s)"
  using sf_wake [of "goto i t (PJoin c) w s" i "t\<lparr>t_pc := PJoin c\<rparr>" c r w' lookup store] assms
  by (intro move [OF assms(1)]) (simp add: goto_at)

text \<open>The sequential function, from the point where the lookup has missed.\<close>

lemma sf_run_steps:
  assumes missed: "steps (sf_step lookup store) s (goto i t PMissed w s)"
    and run: "sf_run store (t_key t) (t_ttl t) loader w = Some (Return r, w')"
    and quiet: "\<And>w. same_table w (snd (loader w))"
  shows "steps (sf_step lookup store) s (goto i t (PReturned r) w' s)"
proof (cases "sf_enter (t_key t) w")
  case (Pair e w2)
  show ?thesis
  proof (cases e)
    case (Inl c)
    have "steps (sf_step lookup store) s (goto i t (PJoin c) w2 s)"
      by (rule move [OF missed], rule sf_join [OF goto_at(1)]) (simp_all add: goto_at Pair Inl)
    then show ?thesis
      by (rule wake) (use run Pair Inl in \<open>auto simp: sf_run_def split: if_splits prod.splits\<close>)
  next
    case (Inr c)
    obtain val err w3 where ld: "loader w2 = (Return (val, err), w3)"
      using run Pair Inr by (auto simp: sf_run_def split: prod.splits outcome.splits)
    then have tab: "same_table w2 w3" using quiet [of w2] by simp
    have "steps (sf_step lookup store) s (goto i t (PLead c) w2 s)"
      by (rule move [OF missed], rule sf_lead [OF goto_at(1)]) (simp_all add: goto_at Pair Inr)
    then have loaded: "steps (sf_step lookup store) s (goto i t (PLoaded c) (sf_loaded c val err w3) s)"
      by (rule move, intro sf_load [OF goto_at(1)]) (simp_all add: goto_at tab)
    have "c < length (calls w3)"
      using Pair Inr tab by (auto simp: sf_enter_def same_table_def split: option.splits)
    then have call: "c_err (calls (sf_loaded c val err w3) ! c) = err" "c_val (calls (sf_loaded c val err w3) ! c) = val"
      by (simp_all add: sf_loaded_def)
    show ?thesis
      by (rule leave [OF save_and_signal [OF loaded refl]])
         (use run Pair Inr ld call in \<open>auto simp: sf_run_def Let_def split: prod.splits if_splits\<close>)
  qed
qed

lemma cached_run_steps:
  assumes "thr s i = Some t" "t_pc t = PStart"
    and run: "cached_run lookup store (t_key t) (t_ttl t) loader (sw s) = Some (Return r, w')"
    and quiet: "\<And>w. same_table w (snd (loader w))"
  shows "steps (sf_step lookup store) s (goto i t (PReturned r) w' s)"
proof (cases "lookup (t_key t) (t_ttl t) (sw s)")
  case (Pair f w1)
  show ?thesis
  proof (cases f)
    case None
    then have "steps (sf_step lookup store) s (goto i t PMissed w1 s)"
      using Pair by (intro steps_one sf_miss [OF assms(1,2)]) simp
    then show ?thesis
      by (rule sf_run_steps [OF _ _ quiet]) (use run Pair None in \<open>simp add: cached_run_def\<close>)
  next
    case (Some v)
    then have "r = (v, None)" "w' = w1" using run Pair by (simp_all add: cached_run_def)
    then show ?thesis using Pair Some by (auto intro: steps_one sf_hit [OF assms(1,2)])
  qed
qed

text \<open>
  As long as no loader of its key is dead, a caller can return: the owner of the call it waits
  for can load, store and signal, whatever the other callers do.
\<close>

lemma owner_signals:
  assumes "thr s j = Some u" "t_pc u \<in> {PLead c, PLoaded c, PStored c}"
  shows "\<exists>w. steps (sf_step lookup store) s (goto j u (PSignalled c) w s)"
proof -
  have stay: "steps (sf_step lookup store) s (goto j u (t_pc u) (sw s) s)"
    by (simp add: goto_same [OF assms(1)] steps_refl)
  consider (lead) "t_pc u = PLead c" | (loaded) "t_pc u = PLoaded c" | (stored) "t_pc u = PStored c"
    using assms(2) by auto
  then show ?thesis
  proof cases
    case lead
    have "steps (sf_step lookup store) s (goto j u (PLoaded c) (sf_loaded c None None (sw s)) s)"
      by (rule move [OF stay [unfolded lead]], rule sf_load [OF goto_at(1)]) (simp_all add: goto_at same_table_def)
    from save_and_signal [OF this refl] show ?thesis ..
  next
    case loaded
    from save_and_signal [OF stay [unfolded loaded] refl] show ?thesis ..
  next
    case stored
    show ?thesis by (rule exI, rule steps_one, rule sf_done [OF assms(1) stored])
  qed
qed

lemma signalled_returns:
  assumes "steps (sf_step lookup store) s (goto i t (PSignalled c) w s)"
  shows "can_return (sf_step lookup store) s i"
proof -
  obtain r w' where r: "sf_result c (sf_delete (t_key t) w) = (r, w')" by fastforce
  show ?thesis by (rule can_returnI [OF leave [OF assms r] goto_at(1)]) simp
qed

lemma owner_returns:
  assumes "thr s i = Some t" "t_pc t \<in> {PLead c, PLoaded c, PStored c, PSignalled c}"
  shows "can_return (sf_step lookup store) s i"
proof (cases "t_pc t = PSignalled c")
  case True
  then have "steps (sf_step lookup store) s (goto i t (PSignalled c) (sw s) s)"
    using goto_same [OF assms(1)] by (metis steps_refl)
  then show ?thesis by (rule signalled_returns)
next
  case False
  then show ?thesis using owner_signals [OF assms(1), of c] assms(2) signalled_returns by auto
qed

lemma waiter_returns:
  assumes inv: "sf_inv s" and t: "thr s i = Some t" "t_pc t = PJoin c" and live: "no_dead s (t_key t)"
  shows "can_return (sf_step lookup store) s i"
proof (cases "finished s c")
  case True
  obtain r w' where r: "sf_result c (sw s) = (r, w')" by fastforce
  have "steps (sf_step lookup store) s (goto i t (PReturned r) w' s)"
    using True sf_wake [OF t _ r] by (auto simp: finished_def intro: steps_step)
  then show ?thesis by (rule can_returnI [OF _ goto_at(1)]) simp
next
  case False
  then obtain j u where u: "thr s j = Some u" "t_key u = t_key t" "t_pc u \<in> {PLead c, PLoaded c, PStored c}"
    using waiter_owner [OF inv t] live by (fastforce simp: finished_def no_dead_def)
  then obtain w where run: "steps (sf_step lookup store) s (goto j u (PSignalled c) w s)" (is "steps _ _ ?s")
    using owner_signals by blast
  have ij: "i \<noteq> j" using t u by auto
  then have t': "thr ?s i = Some t" using t by (simp add: goto_def)
  have "finished ?s c"
    using sf_finished [OF sys.inv_steps [OF run inv] goto_at(1), of c] by simp
  then have fin: "wg_done (calls (sw ?s) ! c)" by (simp add: finished_def)
  obtain r w' where r: "sf_result c (sw ?s) = (r, w')" by fastforce
  have "steps (sf_step lookup store) s (goto i t (PReturned r) w' ?s)"
    by (rule steps_step [OF run sf_wake [OF t' t(2) fin r]])
  then show ?thesis by (rule can_returnI [OF _ goto_at(1)]) simp
qed

lemma missed_returns:
  assumes inv: "sf_inv s" and t: "thr s i = Some t" "t_pc t = PMissed" and live: "no_dead s (t_key t)"
  shows "can_return (sf_step lookup store) s i"
proof (cases "sf_enter (t_key t) (sw s)")
  case (Pair e w)
  show ?thesis
  proof (cases e)
    case (Inl c)
    with Pair have st: "sf_step lookup store s (goto i t (PJoin c) w s)" by (intro sf_join [OF t]) simp
    show ?thesis
      by (rule can_return_step [where step = "sf_step lookup store", OF st], rule waiter_returns [OF inv_step [OF inv st] goto_at(1)])
         (simp_all add: no_dead_goto [OF live])
  next
    case (Inr c)
    with Pair have st: "sf_step lookup store s (goto i t (PLead c) w s)" by (intro sf_lead [OF t]) simp
    show ?thesis
      by (rule can_return_step [where step = "sf_step lookup store", OF st], rule owner_returns [OF goto_at(1)]) simp
  qed
qed

lemma caller_returns:
  assumes inv: "sf_inv s" and t: "thr s i = Some t" and live: "no_dead s (t_key t)"
  shows "can_return (sf_step lookup store) s i"
proof (cases "t_pc t")
  case PStart
  show ?thesis
  proof (cases "lookup (t_key t) (t_ttl t) (sw s)")
    case (Pair f w)
    show ?thesis
    proof (cases f)
      case None
      with Pair have st: "sf_step lookup store s (goto i t PMissed w s)" by (intro sf_miss [OF t PStart]) simp
      show ?thesis
        by (rule can_return_step [where step = "sf_step lookup store", OF st], rule missed_returns [OF inv_step [OF inv st] goto_at(1)])
           (simp_all add: no_dead_goto [OF live])
    next
      case (Some v)
      with Pair have "sf_step lookup store s (goto i t (PReturned (v, None)) w s)"
        by (intro sf_hit [OF t PStart]) simp
      then have "steps (sf_step lookup store) s (goto i t (PReturned (v, None)) w s)" by (rule steps_one)
      then show ?thesis by (rule can_returnI [OF _ goto_at(1)]) simp
    qed
  qed
next
  case (PReturned r)
  then show ?thesis by (intro can_returnI [OF steps_refl t]) simp
next
  case (PCrashed c)
  then show ?thesis using live t by (auto simp: no_dead_def)
qed (use missed_returns [OF inv t _ live] waiter_returns [OF inv t _ live] owner_returns [OF t] in auto)

text \<open>A dead caller stays dead, and whoever waits for its call stays waiting.\<close>

lemma dead_stays:
  assumes r: "reachable (sf_step lookup store) sf_init s"
    and t: "thr s i = Some t" "t_pc t = PCrashed c" and u: "thr s j = Some u" "t_pc u = PJoin c"
    and run: "steps (sf_step lookup store) s s'"
  shows "thr s' j = Some u \<and> loads (sw s') (t_key t) = Some c"
proof -
  note inv = sys.inv_reachable [OF r]
  have keep: "thr s2 i = Some t \<and> thr s2 j = Some u"
    if inv: "sf_inv s1" and P: "thr s1 i = Some t \<and> thr s1 j = Some u"
      and st: "sf_step lookup store s1 s2" for s1 s2
  proof -
    have nd: "\<not> wg_done (calls (sw s1) ! c)"
      using sf_finished [OF inv, of i t c] P t(2) by (simp add: finished_def)
    from st show ?thesis
      by cases (use P t(2) u(2) nd in \<open>auto simp: goto_def\<close>)
  qed
  have "thr s' i = Some t \<and> thr s' j = Some u"
    by (rule sys.stable_steps [where P = "\<lambda>s. thr s i = Some t \<and> thr s j = Some u", OF keep run inv])
       (use t u in auto)
  moreover have "sf_inv s'" by (rule sys.inv_steps [OF run inv])
  ultimately show ?thesis
    using sf_owner [of s' i "t_key t" c] t(2) by (auto simp: owns_def)
qed

end

section \<open>The two caches\<close>

definition L1_lookup ::
    "'rc rist_api \<Rightarrow> string \<Rightarrow> int \<Rightarrow> ('rc, 'x) cache_world_scheme \<Rightarrow> slice option \<times> ('rc, 'x) cache_world_scheme" where
  "L1_lookup R key ttl w = (let ((v, ok, _), w1) = L1_Get R key w in (if ok then Some v else None, w1))"

interpretation l1_sf: singleflight "L1_lookup R" "L1_store R" for R
  by unfold_locales (simp_all add: same_table_def L1_lookup_def L1_store_def split_beta Let_def)

lemma Tiered_tables:
  "same_table w (snd (Tiered_lookup R D k ttl w))" "same_table w (Tiered_store R D k v ttl w)"
  by (simp_all add: same_table_def Tiered_lookup_def Tiered_store_def split_beta Let_def)

interpretation tiered_sf: singleflight "Tiered_lookup R D" "Tiered_store R D" for R D
  by unfold_locales (rule Tiered_tables)+

text \<open>Both \<open>GetOrSet\<close> are the lookup followed by the singleflight.\<close>

lemma L1_cached_run: "L1_GetOrSet R = cached_run (L1_lookup R) (L1_store R)"
  by (simp add: L1_GetOrSet_def cached_run_def L1_lookup_def fun_eq_iff split_beta)

lemma Tiered_cached_run: "Tiered_GetOrSet R D = cached_run (Tiered_lookup R D) (Tiered_store R D)"
  by (simp add: Tiered_GetOrSet_def cached_run_def fun_eq_iff)

section \<open>Properties\<close>

text \<open>
  C3: in every interleaving of callers at most one per key is past its registration and
  not yet past its removal, so at most one loader per key is running, in \<open>L1\<close> and in
  \<open>Tiered\<close>.
\<close>

theorem one_loader_per_key:
  assumes "reachable (sf_step (L1_lookup R) (L1_store R)) sf_init s"
    and "reachable (sf_step (Tiered_lookup R' D) (Tiered_store R' D)) sf_init s'"
  shows "(owns s i k c \<and> owns s j k d \<longrightarrow> i = j) \<and> (owns s' i k c \<and> owns s' j k d \<longrightarrow> i = j)"
  using l1_sf.one_owner [OF assms(1)] tiered_sf.one_owner [OF assms(2)] by blast

text \<open>
  C12: nobody waits for ever: in every interleaving, as long as no caller with the same
  key is dead of a panic of its loader, a caller of \<open>GetOrSet\<close> can still return, in \<open>L1\<close> and in
  \<open>Tiered\<close>.
\<close>

theorem singleflight_progress:
  assumes "reachable (sf_step (L1_lookup R) (L1_store R)) sf_init s"
    and "reachable (sf_step (Tiered_lookup R' D) (Tiered_store R' D)) sf_init s'"
    and "thr s i = Some t" "no_dead s (t_key t)" "thr s' j = Some u" "no_dead s' (t_key u)"
  shows "can_return (sf_step (L1_lookup R) (L1_store R)) s i \<and>
    can_return (sf_step (Tiered_lookup R' D) (Tiered_store R' D)) s' j"
  using l1_sf.caller_returns [OF l1_sf.sys.inv_reachable] tiered_sf.caller_returns [OF tiered_sf.sys.inv_reachable] assms
  by blast

text \<open>
  C38: a panic in a loader blocks its waiters for ever: whatever happens afterwards, a caller
  that waits for the call of a dead loader still waits for it, and the entry of the key stays.
\<close>

theorem crashed_loader_blocks_waiters:
  assumes "reachable (sf_step (L1_lookup R) (L1_store R)) sf_init s"
    and "thr s i = Some t" "t_pc t = PCrashed c" and "thr s j = Some u" "t_pc u = PJoin c"
    and "steps (sf_step (L1_lookup R) (L1_store R)) s s'"
  shows "thr s' j = Some u \<and> loads (sw s') (t_key t) = Some c"
  using assms by (rule l1_sf.dead_stays)

text \<open>
  the sequential function is a run of the machine: whenever \<open>L1.GetOrSet\<close> or
  \<open>Tiered.GetOrSet\<close> alone returns \<open>r\<close>, a caller that starts in that world can take its steps one
  after the other, the others standing still, and ends with the same result in the same world.
\<close>

theorem GetOrSet_is_a_run:
  assumes "thr s i = Some t" "t_pc t = PStart" "thr s' j = Some u" "t_pc u = PStart"
    and "L1_GetOrSet R (t_key t) (t_ttl t) loader (sw s) = Some (Return r, w)"
    and "Tiered_GetOrSet R' D (t_key u) (t_ttl u) loader' (sw s') = Some (Return r', w')"
    and "\<And>w. same_table w (snd (loader w))" "\<And>w. same_table w (snd (loader' w))"
  shows "steps (sf_step (L1_lookup R) (L1_store R)) s (goto i t (PReturned r) w s) \<and>
    steps (sf_step (Tiered_lookup R' D) (Tiered_store R' D)) s' (goto j u (PReturned r') w' s')"
  using l1_sf.cached_run_steps [OF assms(1,2)] tiered_sf.cached_run_steps [OF assms(3,4)] assms(5-)
  unfolding L1_cached_run Tiered_cached_run by simp

section \<open>A run with two loads\<close>

definition demo_loader :: "(string \<rightharpoonup> slice \<times> int, 'x) loader" where
  "demo_loader w = (Return (fst (alloc [1] w), None), snd (alloc [1] w))"

definition demo_thread :: thread where
  "demo_thread = \<lparr>t_key = ''k'', t_ttl = 0, t_pc = PStart\<rparr>"

definition demo_empty :: "(string \<rightharpoonup> slice \<times> int) cache_world" where
  "demo_empty = \<lparr>heap = (\<lambda>_. []), next_addr = 0, cnow = 0, rc = Map.empty, loads = Map.empty, calls = []\<rparr>"

definition demo_loaded :: "(string \<rightharpoonup> slice \<times> int) cache_world" where
  "demo_loaded = \<lparr>heap = (\<lambda>_. [])(0 := [1], 1 := [1], 2 := [1]), next_addr = 3, cnow = 0, rc = [''k'' \<mapsto> (Some 1, 0)],
     loads = Map.empty, calls = [\<lparr>wg_done = True, c_val = Some 0, c_err = None\<rparr>]\<rparr>"

definition demo_two :: "(string \<rightharpoonup> slice \<times> int) cache_world sf_sys" where
  "demo_two = \<lparr>sw = demo_empty, thr = [0 \<mapsto> demo_thread, 1 \<mapsto> demo_thread]\<rparr>"

lemma demo_miss: "L1_lookup demo_rist ''k'' 0 demo_empty = (None, demo_empty)"
  by (simp add: L1_lookup_def L1_Get_def demo_rist_def demo_empty_def)

lemma demo_run: "L1_GetOrSet demo_rist ''k'' 0 demo_loader demo_empty = Some (Return (Some 2, None), demo_loaded)"
  by (simp add: L1_GetOrSet_def L1_Get_def demo_rist_def demo_empty_def sf_run_def sf_enter_def demo_loader_def
      alloc_def sf_loaded_def L1_store_def L1_Set_def clone_def sf_signal_def sf_delete_def sf_result_def
      demo_loaded_def Let_def fun_eq_iff)

lemma demo_two_reachable: "reachable (sf_step (L1_lookup demo_rist) (L1_store demo_rist)) sf_init demo_two"
proof -
  let ?r = "reachable (sf_step (L1_lookup demo_rist) (L1_store demo_rist)) sf_init"
  let ?s = "\<lparr>sw = demo_empty, thr = Map.empty\<rparr>"
  let ?t = "?s\<lparr>thr := (thr ?s)(0 \<mapsto> demo_thread)\<rparr>"
  have "?r ?s" by (rule reachable_init) (simp add: sf_init_def demo_empty_def)
  then have "?r ?t" by (rule reachable_step) (rule sf_spawn, simp_all add: demo_thread_def)
  then have "?r (?t\<lparr>thr := (thr ?t)(1 \<mapsto> demo_thread)\<rparr>)"
    by (rule reachable_step) (rule sf_spawn, simp_all add: demo_thread_def)
  then show ?thesis by (simp add: demo_two_def)
qed

text \<open>
  one miss can run two loaders: a caller that missed before another one loaded and
  stored the value does not look again when it enters the critical section, and loads the
  key a second time although it is in the cache.
\<close>

theorem loader_runs_twice:
  "\<exists>(s :: (string \<rightharpoonup> slice \<times> int) cache_world sf_sys) r c.
     reachable (sf_step (L1_lookup demo_rist) (L1_store demo_rist)) sf_init s \<and>
     map_option t_pc (thr s 0) = Some (PReturned r) \<and> map_option t_pc (thr s 1) = Some (PLead c) \<and>
     fst (snd (fst (L1_Get demo_rist ''k'' (sw s))))"
proof -
  let ?r = "reachable (sf_step (L1_lookup demo_rist) (L1_store demo_rist)) sf_init"
  let ?s1 = "goto 1 demo_thread PMissed demo_empty demo_two"
  let ?s2 = "goto 0 demo_thread (PReturned (Some 2, None)) demo_loaded ?s1"
  let ?t = "demo_thread\<lparr>t_pc := PMissed\<rparr>" and ?w = "snd (sf_enter ''k'' demo_loaded)"
  have "?r ?s1"
    by (rule reachable_step [OF demo_two_reachable], rule sf_miss)
       (simp_all add: demo_two_def demo_thread_def demo_miss)
  moreover have "steps (sf_step (L1_lookup demo_rist) (L1_store demo_rist)) ?s1 ?s2"
    by (rule l1_sf.cached_run_steps [where loader = demo_loader, folded L1_cached_run])
       (simp_all add: goto_def demo_two_def demo_thread_def demo_run demo_loader_def same_table_def alloc_def)
  ultimately have "?r ?s2" by (rule reachable_steps [rotated])
  then have led: "?r (goto 1 ?t (PLead 1) ?w ?s2)"
    by (rule reachable_step) (rule sf_lead, simp_all add: goto_def demo_thread_def sf_enter_def demo_loaded_def)
  have final: "map_option t_pc (thr (goto 1 ?t (PLead 1) ?w ?s2) 0) = Some (PReturned (Some 2, None))"
    "map_option t_pc (thr (goto 1 ?t (PLead 1) ?w ?s2) 1) = Some (PLead 1)"
    "fst (snd (fst (L1_Get demo_rist ''k'' (sw (goto 1 ?t (PLead 1) ?w ?s2)))))"
    by (simp_all add: goto_def demo_loaded_def sf_enter_def L1_Get_def demo_rist_def alloc_def clone_def)
  show ?thesis by (intro exI conjI) (rule led, rule final, rule final, rule final)
qed

section \<open>Witnesses\<close>

text \<open>The first caller has registered its load; the second has joined it; the loader has died.\<close>

definition demo_at :: "pc \<Rightarrow> pc \<Rightarrow> (string \<rightharpoonup> slice \<times> int) cache_world \<Rightarrow> (string \<rightharpoonup> slice \<times> int) cache_world sf_sys" where
  "demo_at p q w = \<lparr>sw = w, thr = [0 \<mapsto> demo_thread\<lparr>t_pc := p\<rparr>, 1 \<mapsto> demo_thread\<lparr>t_pc := q\<rparr>]\<rparr>"

definition demo_entered :: "(string \<rightharpoonup> slice \<times> int) cache_world" where
  "demo_entered = snd (sf_enter ''k'' demo_empty)"

lemma demo_at_goto:
  "goto 0 (demo_thread\<lparr>t_pc := p\<rparr>) p' w' (demo_at p q w) = demo_at p' q w'"
  "goto 1 (demo_thread\<lparr>t_pc := q\<rparr>) q' w' (demo_at p q w) = demo_at p q' w'"
  by (auto simp: goto_def demo_at_def fun_eq_iff)

lemma demo_at_thr [simp]:
  "thr (demo_at p q w) 0 = Some (demo_thread\<lparr>t_pc := p\<rparr>)" "thr (demo_at p q w) 1 = Some (demo_thread\<lparr>t_pc := q\<rparr>)"
  "thr (demo_at p q w) (Suc 0) = Some (demo_thread\<lparr>t_pc := q\<rparr>)" "sw (demo_at p q w) = w"
  by (simp_all add: demo_at_def)

lemma demo_key [simp]: "t_key (demo_thread\<lparr>t_pc := p\<rparr>) = ''k''" "t_ttl (demo_thread\<lparr>t_pc := p\<rparr>) = 0"
  by (simp_all add: demo_thread_def)

lemma demo_steps:
  "reachable (sf_step (L1_lookup demo_rist) (L1_store demo_rist)) sf_init (demo_at (PLead 0) (PJoin 0) demo_entered)"
  "reachable (sf_step (L1_lookup demo_rist) (L1_store demo_rist)) sf_init (demo_at (PCrashed 0) (PJoin 0) demo_entered)"
proof -
  let ?r = "reachable (sf_step (L1_lookup demo_rist) (L1_store demo_rist)) sf_init"
  have start: "demo_two = demo_at PStart PStart demo_empty"
    by (simp add: demo_two_def demo_at_def demo_thread_def)
  have one: "?r (demo_at p' q w')"
    if "?r (demo_at p q w)"
      "sf_step (L1_lookup demo_rist) (L1_store demo_rist) (demo_at p q w)
         (goto 0 (demo_thread\<lparr>t_pc := p\<rparr>) p' w' (demo_at p q w))" for p p' q w w'
    using reachable_step [OF that] by (simp only: demo_at_goto)
  have two: "?r (demo_at p q' w')"
    if "?r (demo_at p q w)"
      "sf_step (L1_lookup demo_rist) (L1_store demo_rist) (demo_at p q w)
         (goto 1 (demo_thread\<lparr>t_pc := q\<rparr>) q' w' (demo_at p q w))" for p q q' w w'
    using reachable_step [OF that] by (simp only: demo_at_goto)
  have "?r (demo_at PMissed PStart demo_empty)"
    by (rule one [OF demo_two_reachable [unfolded start]], rule sf_miss) (simp_all add: demo_miss)
  then have "?r (demo_at PMissed PMissed demo_empty)"
    by (rule two, intro sf_miss) (simp_all add: demo_miss)
  then have "?r (demo_at (PLead 0) PMissed demo_entered)"
    by (rule one, intro sf_lead) (simp_all add: demo_entered_def sf_enter_def demo_empty_def)
  then show joined: "?r (demo_at (PLead 0) (PJoin 0) demo_entered)"
    by (rule two, intro sf_join) (simp_all add: demo_entered_def sf_enter_def demo_empty_def)
  then show "?r (demo_at (PCrashed 0) (PJoin 0) demo_entered)"
    by (rule one, intro sf_panic) (simp_all add: same_table_def)
qed

definition demo_tiered :: "(string \<rightharpoonup> slice \<times> int, string \<rightharpoonup> bytes \<times> int) tiered_world sf_sys" where
  "demo_tiered = \<lparr>sw = demo_cache, thr = [0 \<mapsto> demo_thread]\<rparr>"

lemma demo_tiered_thr: "thr demo_tiered 0 = Some demo_thread"
  by (simp add: demo_tiered_def)

lemma demo_tiered_reachable:
  "reachable (sf_step (Tiered_lookup demo_rist demo_redis) (Tiered_store demo_rist demo_redis)) sf_init demo_tiered"
proof -
  let ?r = "reachable (sf_step (Tiered_lookup demo_rist demo_redis) (Tiered_store demo_rist demo_redis)) sf_init"
  let ?s = "\<lparr>sw = demo_cache, thr = Map.empty\<rparr>"
  have "?r ?s" by (rule reachable_init) (simp add: sf_init_def demo_cache_def)
  then have "?r (?s\<lparr>thr := (thr ?s)(0 \<mapsto> demo_thread)\<rparr>)"
    by (rule reachable_step) (rule sf_spawn, simp_all add: demo_thread_def)
  then show ?thesis by (simp add: demo_tiered_def)
qed

theorem one_loader_per_key_witness:
  "{i. \<exists>c. owns (demo_at (PLead 0) (PJoin 0) demo_entered) i ''k'' c} = {0}"
proof -
  have "owns (demo_at (PLead 0) (PJoin 0) demo_entered) 0 ''k'' 0" by (simp add: owns_def)
  with one_loader_per_key [OF demo_steps(1) demo_tiered_reachable, of _ "''k''" _ 0 0] show ?thesis by blast
qed

theorem singleflight_progress_witness:
  "can_return (sf_step (L1_lookup demo_rist) (L1_store demo_rist)) (demo_at (PLead 0) (PJoin 0) demo_entered) 1 \<and>
   can_return (sf_step (Tiered_lookup demo_rist demo_redis) (Tiered_store demo_rist demo_redis)) demo_tiered 0"
  by (rule singleflight_progress [OF demo_steps(1) demo_tiered_reachable demo_at_thr(2) _ demo_tiered_thr])
     (auto simp: no_dead_def demo_at_def demo_tiered_def demo_thread_def split: if_splits)

theorem crashed_loader_blocks_waiters_witness:
  "loads (sw (demo_at (PCrashed 0) (PJoin 0) demo_entered)) ''k'' = Some 0"
  using crashed_loader_blocks_waiters [OF demo_steps(2) demo_at_thr(1) _ demo_at_thr(2) _ steps_refl] by simp

lemma demo_tiered_run:
  "\<exists>r w. Tiered_GetOrSet demo_rist demo_redis ''k'' 0 demo_loader demo_cache = Some (Return r, w)"
  by (simp add: Tiered_GetOrSet_def Tiered_lookup_def L1_Get_def L2_Get_def demo_rist_def demo_redis_def demo_cache_def
      sf_run_def sf_enter_def demo_loader_def alloc_def sf_result_def clone_def Let_def split_beta)

theorem GetOrSet_is_a_run_witness:
  "steps (sf_step (L1_lookup demo_rist) (L1_store demo_rist)) demo_two
     (goto 0 demo_thread (PReturned (Some 2, None)) demo_loaded demo_two)"
proof -
  obtain r w where "Tiered_GetOrSet demo_rist demo_redis ''k'' 0 demo_loader demo_cache = Some (Return r, w)"
    using demo_tiered_run by blast
  then show ?thesis
    by (intro GetOrSet_is_a_run [where loader = demo_loader and loader' = demo_loader
          and s' = demo_tiered and j = 0 and u = demo_thread, THEN conjunct1])
       (simp_all add: demo_two_def demo_thread_def demo_run demo_loader_def same_table_def alloc_def demo_tiered_def)
qed

end
