(* ===== verification/Security.thy ===== *)
theory Security
  imports Grpc Netip_Text
begin

text \<open>
  Package security: the IP block list (security/ipblock.go) and the resolution of the
  client address from the peer and the forwarded headers (security/resolver.go).
\<close>

section \<open>Configuration and state (ipblock.go)\<close>

text \<open>\<open>Mode\<close> is an \<open>int\<close> with two named values; the rest is \<open>OtherMode\<close>.\<close>

datatype Mode = AllowList | DenyList | OtherMode int

record Config =
  cfg_Mode :: Mode
  CIDRs :: "string list"
  TrustedProxies :: "string list"
  HeaderPriority :: "string list"

record IPBlocker =
  mode :: Mode
  cidrs :: "Prefix list"
  trustedProxies :: "Prefix list"
  headerPriority :: "string list"

text \<open>The errors of \<open>NewIPBlocker\<close>, with the entry they quote.\<close>

datatype ipblock_error = InvalidCIDR string | InvalidTrustedProxy string

section \<open>Client address (resolver.go)\<close>

definition defaultHeaderPriority :: "string list" where
  "defaultHeaderPriority = [''x-real-ip'', ''x-forwarded-for'']"

definition addrFromNetAddr :: "string \<Rightarrow> Addr option" where
  "addrFromNetAddr addrStr =
     ParseAddr (case SplitHostPort addrStr of Some (host, _) \<Rightarrow> host | None \<Rightarrow> addrStr)"

definition peerAddrFromContext :: "('b, 'md) grpc_api \<Rightarrow> 'b gctx \<Rightarrow> Addr option" where
  "peerAddrFromContext A ctx =
     (case peer_FromContext A ctx of
        Some (Some a) \<Rightarrow> addrFromNetAddr a
      | _ \<Rightarrow> None)"

fun isTrustedProxy :: "Addr \<Rightarrow> Prefix list \<Rightarrow> bool" where
  "isTrustedProxy addr [] = False"
| "isTrustedProxy addr (p # ps) = (if Contains p addr then True else isTrustedProxy addr ps)"

text \<open>The three nested loops of \<open>addrFromHeaders\<close>, innermost first.\<close>

fun addr_in_parts :: "string list \<Rightarrow> Addr option" where
  "addr_in_parts [] = None"
| "addr_in_parts (part # parts) =
     (let trimmed = TrimSpace part
      in if trimmed = [] then addr_in_parts parts
         else (case ParseAddr trimmed of
                 Some ip \<Rightarrow> Some ip
               | None \<Rightarrow> addr_in_parts parts))"

fun addr_in_values :: "string list \<Rightarrow> Addr option" where
  "addr_in_values [] = None"
| "addr_in_values (v # vs) =
     (case addr_in_parts (split_on (CHR '','') v) of
        Some ip \<Rightarrow> Some ip
      | None \<Rightarrow> addr_in_values vs)"

fun addrFromHeaders :: "('b, 'md) grpc_api \<Rightarrow> 'md \<Rightarrow> string list \<Rightarrow> Addr option" where
  "addrFromHeaders A md [] = None"
| "addrFromHeaders A md (key # keys) =
     (case addr_in_values (MD_Get A md key) of
        Some ip \<Rightarrow> Some ip
      | None \<Rightarrow> addrFromHeaders A md keys)"

definition resolveClientAddr ::
    "('b, 'md) grpc_api \<Rightarrow> 'b gctx \<Rightarrow> 'md \<Rightarrow> Prefix list \<Rightarrow> string list \<Rightarrow> Addr option" where
  "resolveClientAddr A ctx md proxies prio =
     (case peerAddrFromContext A ctx of
        None \<Rightarrow> None
      | Some peerAddr \<Rightarrow>
          if isTrustedProxy peerAddr proxies then
            (case addrFromHeaders A md prio of
               Some addr \<Rightarrow> Some addr
             | None \<Rightarrow> Some peerAddr)
          else Some peerAddr)"

section \<open>Building and evaluating the blocker (ipblock.go)\<close>

fun parsePrefixes :: "string list \<Rightarrow> string + Prefix list" where
  "parsePrefixes [] = Inr []"
| "parsePrefixes (s # raw) =
     (case (case ParsePrefix s of
              Some p \<Rightarrow> Some p
            | None \<Rightarrow> map_option (\<lambda>addr. PrefixFrom addr (int (BitLen addr))) (ParseAddr s)) of
        None \<Rightarrow> Inl s
      | Some p \<Rightarrow>
          (case parsePrefixes raw of
             Inl e \<Rightarrow> Inl e
           | Inr ps \<Rightarrow> Inr (p # ps)))"

fun matchesAny :: "Addr \<Rightarrow> Prefix list \<Rightarrow> bool" where
  "matchesAny addr [] = False"
| "matchesAny addr (p # ps) = (if Contains p addr then True else matchesAny addr ps)"

definition NewIPBlocker :: "Config \<Rightarrow> ipblock_error + IPBlocker" where
  "NewIPBlocker cfg =
     (case parsePrefixes (CIDRs cfg) of
        Inl s \<Rightarrow> Inl (InvalidCIDR s)
      | Inr cs \<Rightarrow>
          (case parsePrefixes (TrustedProxies cfg) of
             Inl s \<Rightarrow> Inl (InvalidTrustedProxy s)
           | Inr proxies \<Rightarrow>
               Inr \<lparr>mode = cfg_Mode cfg, cidrs = cs, trustedProxies = proxies,
                    headerPriority =
                      (if length (HeaderPriority cfg) = 0 then defaultHeaderPriority
                       else HeaderPriority cfg)\<rparr>))"

definition Evaluate :: "('b, 'md) grpc_api \<Rightarrow> IPBlocker \<Rightarrow> 'b gctx \<Rightarrow> 'md \<Rightarrow> bool" where
  "Evaluate A b ctx md =
     (case resolveClientAddr A ctx md (trustedProxies b) (headerPriority b) of
        None \<Rightarrow> False
      | Some addr \<Rightarrow>
          (let matched = matchesAny addr (cidrs b)
           in case mode b of
                AllowList \<Rightarrow> matched
              | DenyList \<Rightarrow> \<not> matched
              | OtherMode _ \<Rightarrow> False))"

section \<open>Scanning a prefix list\<close>

text \<open>
  \<open>isTrustedProxy\<close> and \<open>matchesAny\<close> are the same loop under two names.  What they share:
  the result depends on the set of prefixes only, and zoned or zero addresses never match.
\<close>

locale prefix_scan =
  fixes scan :: "Addr \<Rightarrow> Prefix list \<Rightarrow> bool"
  assumes scan_Nil: "\<not> scan a []"
    and scan_Cons: "scan a (p # ps) \<longleftrightarrow> Contains p a \<or> scan a ps"
begin

lemma scan_iff: "scan a ps \<longleftrightarrow> (\<exists>p \<in> set ps. Contains p a)"
  by (induction ps) (auto simp: scan_Nil scan_Cons)

lemma scan_set: "set ps = set qs \<Longrightarrow> scan a ps = scan a qs"
  by (simp add: scan_iff)

lemma scan_append: "scan a (ps @ qs) \<longleftrightarrow> scan a ps \<or> scan a qs"
  by (auto simp: scan_iff)

lemma scan_zone: "zone_of a \<noteq> [] \<Longrightarrow> \<not> scan a ps"
  by (auto simp: scan_iff Contains_zone)

lemma scan_family:
  "\<forall>p \<in> set ps. BitLen (p_addr p) \<noteq> BitLen a \<Longrightarrow> \<not> scan a ps"
  by (auto simp: scan_iff dest: Contains_family)

lemma scan_single4:
  "scan a [\<lparr>p_addr = Addr4 w, p_bits = Some n\<rparr>] \<longleftrightarrow>
     (\<exists>v. a = Addr4 v \<and> uint v div 2 ^ (32 - n) = uint w div 2 ^ (32 - n))"
  by (simp add: scan_iff Contains4)

end

interpretation trusted: prefix_scan isTrustedProxy
  by unfold_locales auto

interpretation cidr: prefix_scan matchesAny
  by unfold_locales auto

section \<open>The header search\<close>

text \<open>
  The reference description of \<open>addrFromHeaders\<close>: list every comma-separated part of
  every value of every header, in priority order, and take the first that parses.
\<close>

fun first_some :: "('a \<Rightarrow> 'b option) \<Rightarrow> 'a list \<Rightarrow> 'b option" where
  "first_some f [] = None"
| "first_some f (x # xs) = (case f x of Some y \<Rightarrow> Some y | None \<Rightarrow> first_some f xs)"

lemma first_some_append:
  "first_some f (xs @ ys) = (case first_some f xs of Some y \<Rightarrow> Some y | None \<Rightarrow> first_some f ys)"
  by (induction xs) (auto split: option.splits)

lemma first_some_None_iff: "first_some f xs = None \<longleftrightarrow> (\<forall>x \<in> set xs. f x = None)"
  by (induction xs) (auto split: option.splits)

lemma first_some_find:
  "first_some f xs = (case find (\<lambda>x. f x \<noteq> None) xs of Some x \<Rightarrow> f x | None \<Rightarrow> None)"
  by (induction xs) (auto split: option.splits)

definition header_parts :: "('b, 'md) grpc_api \<Rightarrow> 'md \<Rightarrow> string list \<Rightarrow> string list" where
  "header_parts A md prio =
     concat (map (\<lambda>key. concat (map (split_on (CHR '','')) (MD_Get A md key))) prio)"

definition part_addr :: "string \<Rightarrow> Addr option" where
  "part_addr part = ParseAddr (TrimSpace part)"

lemma ParseAddr_empty [simp]: "ParseAddr [] = None"
  by (simp add: ParseAddr_def)

lemma addr_in_parts_eq: "addr_in_parts ps = first_some part_addr ps"
  by (induction ps) (auto simp: part_addr_def Let_def split: option.splits)

lemma addr_in_values_eq:
  "addr_in_values vs = first_some part_addr (concat (map (split_on (CHR '','')) vs))"
  by (induction vs) (auto simp: addr_in_parts_eq first_some_append split: option.splits)

lemma addrFromHeaders_eq: "addrFromHeaders A md prio = first_some part_addr (header_parts A md prio)"
  by (induction prio)
     (auto simp: header_parts_def addr_in_values_eq first_some_append split: option.splits)

section \<open>Specification\<close>

text \<open>The addresses a prefix denotes, by their network number.\<close>

definition network :: "Prefix \<Rightarrow> Addr set" where
  "network p =
     (case (p_addr p, p_bits p) of
        (Addr4 a, Some n) \<Rightarrow> {Addr4 b | b. uint b div 2 ^ (32 - n) = uint a div 2 ^ (32 - n)}
      | (Addr6 a _, Some n) \<Rightarrow> {Addr6 b [] | b. uint b div 2 ^ (128 - n) = uint a div 2 ^ (128 - n)}
      | _ \<Rightarrow> {})"

lemma Contains_network: "Contains p a \<longleftrightarrow> a \<in> network p"
proof (cases "p_bits p")
  case None
  then show ?thesis by (simp add: network_def Contains_invalid split: Addr.splits)
next
  case (Some n)
  then have p: "p = \<lparr>p_addr = p_addr p, p_bits = Some n\<rparr>" by simp
  show ?thesis
    by (cases "p_addr p"; subst p)
       (auto simp: network_def Some Contains4 Contains6 Contains_zero)
qed

definition networks :: "Prefix list \<Rightarrow> Addr set" where
  "networks ps = (\<Union>p \<in> set ps. network p)"

lemma matchesAny_networks: "matchesAny a ps \<longleftrightarrow> a \<in> networks ps"
  by (simp add: cidr.scan_iff Contains_network networks_def)

lemma isTrustedProxy_networks: "isTrustedProxy a ps \<longleftrightarrow> a \<in> networks ps"
  by (simp add: trusted.scan_iff Contains_network networks_def)

text \<open>
  What the block list promises.  The client is the peer, unless the peer is a trusted proxy
  and a forwarded header has a part that is an address: then it is the first such part.  A
  request without a client address is denied; otherwise the mode decides on membership in
  the union of the configured networks.
\<close>

definition client_spec :: "('b, 'md) grpc_api \<Rightarrow> IPBlocker \<Rightarrow> 'b gctx \<Rightarrow> 'md \<Rightarrow> Addr option" where
  "client_spec A b ctx md =
     map_option
       (\<lambda>peer. if peer \<in> networks (trustedProxies b)
               then (case first_some part_addr (header_parts A md (headerPriority b)) of
                       None \<Rightarrow> peer | Some a \<Rightarrow> a)
               else peer)
       (peerAddrFromContext A ctx)"

fun verdict_spec :: "Mode \<Rightarrow> Addr set \<Rightarrow> Addr option \<Rightarrow> bool" where
  "verdict_spec m S None = False"
| "verdict_spec AllowList S (Some a) = (a \<in> S)"
| "verdict_spec DenyList S (Some a) = (a \<notin> S)"
| "verdict_spec (OtherMode _) S (Some a) = False"

lemma client_spec_mode [simp]: "client_spec A (b\<lparr>mode := m\<rparr>) = client_spec A b"
  by (simp add: client_spec_def fun_eq_iff cong: if_cong)

text \<open>The prefix a configuration entry denotes: a CIDR, or a bare address as a single host.\<close>

definition entry_prefix :: "string \<Rightarrow> Prefix option" where
  "entry_prefix s =
     (case ParsePrefix s of
        Some p \<Rightarrow> Some p
      | None \<Rightarrow> map_option (\<lambda>a. PrefixFrom a (int (BitLen a))) (ParseAddr s))"

lemma parsePrefixes_eq:
  "parsePrefixes raw =
     (case find (\<lambda>s. entry_prefix s = None) raw of
        Some s \<Rightarrow> Inl s
      | None \<Rightarrow> Inr (map (\<lambda>s. the (entry_prefix s)) raw))"
  by (induction raw) (auto simp: entry_prefix_def split: option.splits sum.splits)

lemma resolveClientAddr_spec:
  "resolveClientAddr A ctx md (trustedProxies b) (headerPriority b) = client_spec A b ctx md"
  by (auto simp: resolveClientAddr_def client_spec_def isTrustedProxy_networks addrFromHeaders_eq
      split: option.splits)

lemmas evaluate_unfold = Evaluate_def resolveClientAddr_spec matchesAny_networks

section \<open>Properties\<close>

text \<open>
  C2: \<open>Evaluate\<close> implements its specification: the client address is the peer, or the first
  header part that parses when the peer is a trusted proxy, and the request is allowed iff the
  mode says so of that address and the union of the configured networks.
\<close>

theorem Evaluate_refines_spec:
  "Evaluate A b ctx md = verdict_spec (mode b) (networks (cidrs b)) (client_spec A b ctx md)"
  by (cases "client_spec A b ctx md"; cases "mode b") (simp_all add: evaluate_unfold)

text \<open>
  C10: an untrusted peer cannot influence the decision through its metadata: the result is
  the same for any two metadata.
\<close>

theorem untrusted_headers_ignored:
  assumes "peerAddrFromContext A ctx = Some peer"
    and "\<not> isTrustedProxy peer (trustedProxies b)"
  shows "Evaluate A b ctx md = Evaluate A b ctx md'"
  using assms by (simp add: Evaluate_def resolveClientAddr_def)

text \<open>
  the block list fails closed: with no address for the peer, or a mode that is neither
  of the two defined ones, the request is denied whatever the lists and headers are.
\<close>

theorem Evaluate_fails_closed:
  assumes "peerAddrFromContext A ctx = None \<or> mode b = OtherMode k"
  shows "\<not> Evaluate A b ctx md"
  using assms by (auto simp: Evaluate_def resolveClientAddr_def split: option.splits)

text \<open>
  the two modes are opposites: on a request whose client address is known, an allow list
  and a deny list with the same entries never agree.
\<close>

theorem modes_are_opposite:
  assumes "client_spec A b ctx md \<noteq> None"
  shows "Evaluate A (b\<lparr>mode := AllowList\<rparr>) ctx md = (\<not> Evaluate A (b\<lparr>mode := DenyList\<rparr>) ctx md)"
  using assms by (auto simp: Evaluate_def resolveClientAddr_spec split: option.splits)

text \<open>
  C30: \<open>NewIPBlocker\<close> reports the first CIDR that is no prefix and no address, else the first
  such trusted proxy, and otherwise returns a blocker with every entry's prefix, in order,
  and the configured header priority or the default one.
\<close>

theorem NewIPBlocker_result:
  "NewIPBlocker cfg =
     (case find (\<lambda>s. entry_prefix s = None) (CIDRs cfg) of
        Some s \<Rightarrow> Inl (InvalidCIDR s)
      | None \<Rightarrow>
          (case find (\<lambda>s. entry_prefix s = None) (TrustedProxies cfg) of
             Some s \<Rightarrow> Inl (InvalidTrustedProxy s)
           | None \<Rightarrow>
               Inr \<lparr>mode = cfg_Mode cfg,
                    cidrs = map (\<lambda>s. the (entry_prefix s)) (CIDRs cfg),
                    trustedProxies = map (\<lambda>s. the (entry_prefix s)) (TrustedProxies cfg),
                    headerPriority =
                      (if HeaderPriority cfg = [] then [''x-real-ip'', ''x-forwarded-for'']
                       else HeaderPriority cfg)\<rparr>))"
  by (auto simp: NewIPBlocker_def parsePrefixes_eq defaultHeaderPriority_def split: option.splits)

text \<open>
  \<open>addrFromHeaders\<close> returns the first part, in header, value and comma order, that is
  an address once trimmed; it returns nothing iff no part is one.
\<close>

theorem addrFromHeaders_first:
  "addrFromHeaders A md prio =
     (case find (\<lambda>part. part_addr part \<noteq> None)
             (concat (map (\<lambda>key. concat (map (split_on (CHR '','')) (MD_Get A md key))) prio)) of
        Some part \<Rightarrow> ParseAddr (TrimSpace part)
      | None \<Rightarrow> None)"
  unfolding addrFromHeaders_eq first_some_find header_parts_def part_addr_def ..

text \<open>Octets of a dotted quad, and the number it denotes.\<close>

definition is_quad :: "int \<Rightarrow> int \<Rightarrow> int \<Rightarrow> int \<Rightarrow> bool" where
  "is_quad a b c d \<longleftrightarrow>
     0 \<le> a \<and> a < 256 \<and> 0 \<le> b \<and> b < 256 \<and> 0 \<le> c \<and> c < 256 \<and> 0 \<le> d \<and> d < 256"

definition quad_num :: "int \<Rightarrow> int \<Rightarrow> int \<Rightarrow> int \<Rightarrow> int" where
  "quad_num a b c d = ((a * 256 + b) * 256 + c) * 256 + d"

lemma uint_ipv4: "is_quad a b c d \<Longrightarrow> uint (ipv4 a b c d) = quad_num a b c d"
proof -
  assume "is_quad a b c d"
  then have r: "0 \<le> quad_num a b c d" "quad_num a b c d < 4294967296"
    by (auto simp: is_quad_def quad_num_def)
  have "ipv4 a b c d = word_of_int (quad_num a b c d)"
    by (simp only: ipv4_def quad_num_def)
  then show ?thesis using r by (simp add: uint_word_of_int)
qed

lemma peer_ipv4:
  assumes "is_quad a b c d" and "set port \<inter> {CHR '':'', CHR ''['', CHR '']''} = {}"
    and "peer_FromContext A ctx = Some (Some (show_ipv4 a b c d @ '':'' @ port))"
  shows "peerAddrFromContext A ctx = Some (Addr4 (ipv4 a b c d))"
proof -
  have "SplitHostPort (show_ipv4 a b c d @ '':'' @ port) = Some (show_ipv4 a b c d, port)"
    using assms by (intro SplitHostPort_show) (simp_all add: is_quad_def)
  moreover have "ParseAddr (show_ipv4 a b c d) = Some (Addr4 (ipv4 a b c d))"
    using assms by (intro ParseAddr_show) (simp_all add: is_quad_def)
  ultimately show ?thesis
    using assms(3) by (simp add: peerAddrFromContext_def addrFromNetAddr_def)
qed

lemma entry_ipv4_cidr:
  assumes "is_quad a b c d" and "0 \<le> n" "n \<le> 32"
  shows "entry_prefix (show_ipv4 a b c d @ ''/'' @ show_octet n)
    = Some \<lparr>p_addr = Addr4 (ipv4 a b c d), p_bits = Some (nat n)\<rparr>"
  using assms ParsePrefix_show [of a b c d n] by (simp add: entry_prefix_def is_quad_def)

text \<open>
  C13: from the text of the configuration to the decision: for a deny list of one dotted-quad
  CIDR and a TCP peer \<open>a.b.c.d:port\<close> with no proxies trusted, the blocker is built without
  error and a request is allowed iff the two network numbers differ.
\<close>

theorem ipv4_deny_decision:
  assumes quad: "is_quad a b c d" and net: "is_quad p q r s" and n: "0 \<le> n" "n \<le> 32"
    and port: "set port \<inter> {CHR '':'', CHR ''['', CHR '']''} = {}"
    and peer: "peer_FromContext A ctx = Some (Some (show_ipv4 a b c d @ '':'' @ port))"
  shows "\<exists>blk. NewIPBlocker \<lparr>cfg_Mode = DenyList, CIDRs = [show_ipv4 p q r s @ ''/'' @ show_octet n],
                 TrustedProxies = [], HeaderPriority = hp\<rparr> = Inr blk \<and>
           (Evaluate A blk ctx md \<longleftrightarrow>
              quad_num a b c d div 2 ^ (32 - nat n) \<noteq> quad_num p q r s div 2 ^ (32 - nat n))"
proof -
  have "parsePrefixes [show_ipv4 p q r s @ ''/'' @ show_octet n] =
      Inr [\<lparr>p_addr = Addr4 (ipv4 p q r s), p_bits = Some (nat n)\<rparr>]"
    using entry_ipv4_cidr [OF net n] by (simp add: parsePrefixes_eq)
  moreover have "peerAddrFromContext A ctx = Some (Addr4 (ipv4 a b c d))"
    using peer_ipv4 [OF quad port peer] .
  ultimately show ?thesis
    by (simp add: NewIPBlocker_def Evaluate_def resolveClientAddr_def Contains4
        uint_ipv4 quad net del: parsePrefixes.simps(2))
qed

text \<open>
  a deny list does not see IPv6 spellings of IPv4 clients: when the resolved address is
  an IPv6 one and either it has a zone or every entry is an IPv4 network, the request is
  allowed, also when the address is the IPv4-mapped form of a blocked one.
\<close>

theorem deny_list_misses_ipv6_forms:
  assumes "mode b = DenyList" and "client_spec A b ctx md = Some (Addr6 w z)"
    and "z \<noteq> [] \<or> (\<forall>p \<in> set (cidrs b). BitLen (p_addr p) = 32)"
  shows "Evaluate A b ctx md"
proof -
  have "\<not> matchesAny (Addr6 w z) (cidrs b)"
    using assms(3) cidr.scan_zone [of "Addr6 w z"] cidr.scan_family [of "cidrs b" "Addr6 w z"]
    by auto
  with assms(1,2) show ?thesis by (simp add: Evaluate_def resolveClientAddr_spec)
qed

section \<open>Witnesses\<close>

text \<open>The blocker of the repository's proxy tests, and a request from a given peer.\<close>

definition example_blocker :: IPBlocker where
  "example_blocker =
     \<lparr>mode = DenyList,
      cidrs = [\<lparr>p_addr = Addr4 0xCB007100, p_bits = Some 24\<rparr>],
      trustedProxies = [\<lparr>p_addr = Addr4 0x0A000001, p_bits = Some 32\<rparr>],
      headerPriority = [''x-real-ip'', ''x-forwarded-for'']\<rparr>"

definition peer_at :: "string \<Rightarrow> demo_base gctx" where
  "peer_at a = BaseCtx (Some a, None)"

lemma example_blocker_built:
  "NewIPBlocker \<lparr>cfg_Mode = DenyList, CIDRs = [''203.0.113.0/24''],
     TrustedProxies = [''10.0.0.1''], HeaderPriority = []\<rparr> = Inr example_blocker"
  by code_simp

lemma peer_172: "peerAddrFromContext demo_api (peer_at ''172.16.0.5:9000'') = Some (Addr4 0xAC100005)"
  by code_simp

lemma peer_proxy: "peerAddrFromContext demo_api (peer_at ''10.0.0.1:9000'') = Some (Addr4 0x0A000001)"
  by code_simp

theorem untrusted_headers_ignored_witness:
  "Evaluate demo_api example_blocker (peer_at ''172.16.0.5:9000'')
     [(''x-real-ip'', [''203.0.113.42''])] =
   Evaluate demo_api example_blocker (peer_at ''172.16.0.5:9000'') []"
proof -
  have "\<not> isTrustedProxy (Addr4 0xAC100005) (trustedProxies example_blocker)"
    by code_simp
  then show ?thesis by (rule untrusted_headers_ignored [OF peer_172])
qed

theorem Evaluate_fails_closed_witness:
  "\<not> Evaluate demo_api (example_blocker\<lparr>mode := AllowList\<rparr>) (BaseCtx (None, None)) []"
proof -
  have "peerAddrFromContext demo_api (BaseCtx (None, None)) = None"
    by code_simp
  then show ?thesis by (rule Evaluate_fails_closed [where k = 0, OF disjI1])
qed

lemma client_example:
  "resolveClientAddr demo_api (peer_at ''10.0.0.1:9000'') [(''x-real-ip'', [''203.0.113.42''])]
     (trustedProxies example_blocker) (headerPriority example_blocker) = Some (Addr4 0xCB00712A)"
  by code_simp

theorem modes_are_opposite_witness:
  "Evaluate demo_api (example_blocker\<lparr>mode := AllowList\<rparr>) (peer_at ''10.0.0.1:9000'')
      [(''x-real-ip'', [''203.0.113.42''])] =
   (\<not> Evaluate demo_api (example_blocker\<lparr>mode := DenyList\<rparr>) (peer_at ''10.0.0.1:9000'')
      [(''x-real-ip'', [''203.0.113.42''])])"
proof -
  have "client_spec demo_api example_blocker (peer_at ''10.0.0.1:9000'')
      [(''x-real-ip'', [''203.0.113.42''])] \<noteq> None"
    using client_example by (simp add: resolveClientAddr_spec)
  then show ?thesis by (rule modes_are_opposite)
qed

theorem ipv4_deny_decision_witness:
  "\<exists>blk. NewIPBlocker \<lparr>cfg_Mode = DenyList, CIDRs = [show_ipv4 10 0 0 0 @ ''/'' @ show_octet 8],
            TrustedProxies = [], HeaderPriority = []\<rparr> = Inr blk \<and>
         \<not> Evaluate demo_api blk (peer_at (show_ipv4 10 1 2 3 @ '':'' @ ''5000'')) []"
proof -
  have "peer_FromContext demo_api (peer_at (show_ipv4 10 1 2 3 @ '':'' @ ''5000''))
      = Some (Some (show_ipv4 10 1 2 3 @ '':'' @ ''5000''))"
    by (simp add: demo_api_def peer_at_def)
  from ipv4_deny_decision [OF _ _ _ _ _ this, of 10 0 0 0 8 "[]" "[]"] show ?thesis
    by (simp add: is_quad_def quad_num_def)
qed

text \<open>
  The mapped form \<open>::ffff:203.0.113.42\<close> of a denied address, forwarded by the trusted
  proxy, passes the deny list; the dotted form of the same address does not.
\<close>

lemma client_mapped:
  "resolveClientAddr demo_api (peer_at ''10.0.0.1:9000'')
     [(''x-real-ip'', [''::ffff:203.0.113.42''])]
     (trustedProxies example_blocker) (headerPriority example_blocker)
   = Some (Addr6 (map4in6 0xCB00712A) [])"
  by code_simp

theorem deny_list_misses_ipv6_forms_witness:
  "Evaluate demo_api example_blocker (peer_at ''10.0.0.1:9000'')
     [(''x-real-ip'', [''::ffff:203.0.113.42''])] \<and>
   \<not> Evaluate demo_api example_blocker (peer_at ''10.0.0.1:9000'')
     [(''x-real-ip'', [''203.0.113.42''])]"
proof
  show "Evaluate demo_api example_blocker (peer_at ''10.0.0.1:9000'')
     [(''x-real-ip'', [''::ffff:203.0.113.42''])]"
  proof (rule deny_list_misses_ipv6_forms)
    show "mode example_blocker = DenyList" by (simp add: example_blocker_def)
    show "client_spec demo_api example_blocker (peer_at ''10.0.0.1:9000'')
        [(''x-real-ip'', [''::ffff:203.0.113.42''])] = Some (Addr6 (map4in6 0xCB00712A) [])"
      using client_mapped by (simp add: resolveClientAddr_spec)
    show "[] \<noteq> [] \<or> (\<forall>p \<in> set (cidrs example_blocker). BitLen (p_addr p) = 32)"
      by (simp add: example_blocker_def)
  qed
  show "\<not> Evaluate demo_api example_blocker (peer_at ''10.0.0.1:9000'')
     [(''x-real-ip'', [''203.0.113.42''])]"
    by code_simp
qed

end
