(* ===== verification/Chain.thy ===== *)
theory Chain
  imports Grpc
begin

text \<open>
  interceptors/chain.go: the composition of interceptors into one, and internal/core: the
  collection of middleware with priorities (middleware.go) and its translation into server
  options (builder.go).
\<close>

section \<open>Chaining (interceptors/chain.go)\<close>

text \<open>
  The loop \<open>for i := len(interceptors) - 1; i > 0; i--\<close>: it wraps \<open>cur\<close> in the closures
  of interceptors \<open>i, \<dots>, 1\<close>.
\<close>

fun chain_unary_loop ::
    "('w, 'b, 'req, 'resp) unary_interceptor list \<Rightarrow> string \<Rightarrow> nat
       \<Rightarrow> ('w, 'b, 'req, 'resp) unary_handler \<Rightarrow> ('w, 'b, 'req, 'resp) unary_handler" where
  "chain_unary_loop ics info 0 cur = cur"
| "chain_unary_loop ics info (Suc i) cur =
     chain_unary_loop ics info i (\<lambda>ctx req. (ics ! Suc i) ctx req info cur)"

definition ChainUnary ::
    "('w, 'b, 'req, 'resp) unary_interceptor list
       \<Rightarrow> ('w, 'b, 'req, 'resp) unary_interceptor option" where
  "ChainUnary ics =
     (if length ics = 0 then None
      else if length ics = 1 then Some (ics ! 0)
      else Some (\<lambda>ctx req info handler.
             (ics ! 0) ctx req info (chain_unary_loop ics info (length ics - 1) handler)))"

fun chain_stream_loop ::
    "('w, 'b, 'srv, 'ss) stream_interceptor list \<Rightarrow> string \<Rightarrow> nat
       \<Rightarrow> ('w, 'b, 'srv, 'ss) stream_handler \<Rightarrow> ('w, 'b, 'srv, 'ss) stream_handler" where
  "chain_stream_loop ics info 0 cur = cur"
| "chain_stream_loop ics info (Suc i) cur =
     chain_stream_loop ics info i (\<lambda>srv ss. (ics ! Suc i) srv ss info cur)"

definition ChainStream ::
    "('w, 'b, 'srv, 'ss) stream_interceptor list
       \<Rightarrow> ('w, 'b, 'srv, 'ss) stream_interceptor option" where
  "ChainStream ics =
     (if length ics = 0 then None
      else if length ics = 1 then Some (ics ! 0)
      else Some (\<lambda>srv ss info handler.
             (ics ! 0) srv ss info (chain_stream_loop ics info (length ics - 1) handler)))"

text \<open>
  The reference: fold the list from the right, so that the first interceptor is outermost
  and each one's handler is the rest of the chain.
\<close>

definition onion ::
    "('a \<Rightarrow> 'c \<Rightarrow> string \<Rightarrow> ('a \<Rightarrow> 'c \<Rightarrow> 'r) \<Rightarrow> 'r) list \<Rightarrow> string
       \<Rightarrow> ('a \<Rightarrow> 'c \<Rightarrow> 'r) \<Rightarrow> 'a \<Rightarrow> 'c \<Rightarrow> 'r" where
  "onion ics info h = foldr (\<lambda>ic next x y. ic x y info next) ics h"

lemma onion_Nil [simp]: "onion [] info h = h"
  by (simp add: onion_def)

lemma onion_Cons [simp]: "onion (ic # ics) info h = (\<lambda>x y. ic x y info (onion ics info h))"
  by (simp add: onion_def)

lemma onion_append: "onion (xs @ ys) info h = onion xs info (onion ys info h)"
  by (simp add: onion_def)

text \<open>
  Unary and stream chains are the same construction at two types.  Its contract: the loop's
  two equations and the three cases on the length; what follows is the reference.
\<close>

locale chaining =
  fixes loop :: "('a \<Rightarrow> 'c \<Rightarrow> string \<Rightarrow> ('a \<Rightarrow> 'c \<Rightarrow> 'r) \<Rightarrow> 'r) list \<Rightarrow> string \<Rightarrow> nat
                   \<Rightarrow> ('a \<Rightarrow> 'c \<Rightarrow> 'r) \<Rightarrow> 'a \<Rightarrow> 'c \<Rightarrow> 'r"
    and chain :: "('a \<Rightarrow> 'c \<Rightarrow> string \<Rightarrow> ('a \<Rightarrow> 'c \<Rightarrow> 'r) \<Rightarrow> 'r) list
                   \<Rightarrow> ('a \<Rightarrow> 'c \<Rightarrow> string \<Rightarrow> ('a \<Rightarrow> 'c \<Rightarrow> 'r) \<Rightarrow> 'r) option"
  assumes loop_0: "loop ics info 0 cur = cur"
    and loop_Suc: "loop ics info (Suc i) cur = loop ics info i (\<lambda>x y. (ics ! Suc i) x y info cur)"
    and chain_none: "chain [] = None"
    and chain_one: "chain [ic] = Some ic"
    and chain_many: "length ics > 1 \<Longrightarrow>
      chain ics = Some (\<lambda>x y info h. (ics ! 0) x y info (loop ics info (length ics - 1) h))"
begin

lemma loop_onion:
  "i < length ics \<Longrightarrow> loop ics info i cur = onion (take i (tl ics)) info cur"
proof (induction i arbitrary: cur)
  case 0
  then show ?case by (simp add: loop_0)
next
  case (Suc i)
  then have "take (Suc i) (tl ics) = take i (tl ics) @ [ics ! Suc i]"
    by (simp add: take_Suc_conv_app_nth nth_tl)
  with Suc show ?case by (simp add: loop_Suc onion_append)
qed

lemma chain_onion:
  "chain ics = (if ics = [] then None else Some (\<lambda>x y info h. onion ics info h x y))"
proof (cases ics)
  case Nil
  then show ?thesis by (simp add: chain_none)
next
  case (Cons ic rest)
  show ?thesis
  proof (cases rest)
    case Nil
    with Cons show ?thesis by (simp add: chain_one)
  next
    case (Cons ic' rest')
    with \<open>ics = ic # rest\<close> have "length ics > 1" "take (length ics - 1) (tl ics) = rest" by auto
    with \<open>ics = ic # rest\<close> show ?thesis
      by (simp add: chain_many loop_onion)
  qed
qed

lemma chain_append:
  assumes "chain xs = Some f" "chain ys = Some g"
  shows "chain (xs @ ys) = Some (\<lambda>x y info h. f x y info (\<lambda>x' y'. g x' y' info h))"
  using assms by (auto simp: chain_onion onion_append split: if_splits)

end

interpretation unary: chaining chain_unary_loop ChainUnary
  by unfold_locales (auto simp: ChainUnary_def)

interpretation stream: chaining chain_stream_loop ChainStream
  by unfold_locales (auto simp: ChainStream_def)

section \<open>Collecting middleware (internal/core/middleware.go)\<close>

record ('u, 's) middleware =
  Unary :: "'u option"
  Stream :: "'s option"
  Order :: int

record ('u, 's) MiddlewareBuilder =
  entries :: "('u, 's) middleware list"

definition empty_builder :: "('u, 's) MiddlewareBuilder" where
  "empty_builder = \<lparr>entries = []\<rparr>"

definition MiddlewareBuilder_Add ::
    "('u, 's) MiddlewareBuilder \<Rightarrow> int \<Rightarrow> 'u option \<Rightarrow> 's option \<Rightarrow> ('u, 's) MiddlewareBuilder" where
  "MiddlewareBuilder_Add b order un st =
     b\<lparr>entries := entries b @ [\<lparr>Unary = un, Stream = st, Order = order\<rparr>]\<rparr>"

text \<open>
  \<open>slices.SortStableFunc\<close> with \<open>cmp.Compare\<close> on \<open>Order\<close> is a stable sort by that key, in
  place; the two appends keep the non-nil interceptors of the sorted entries.
\<close>

fun collect :: "('u, 's) middleware list \<Rightarrow> 'u list \<Rightarrow> 's list \<Rightarrow> 'u list \<times> 's list" where
  "collect [] un st = (un, st)"
| "collect (m # ms) un st =
     collect ms (case Unary m of None \<Rightarrow> un | Some u \<Rightarrow> un @ [u])
                (case Stream m of None \<Rightarrow> st | Some s \<Rightarrow> st @ [s])"

definition MiddlewareBuilder_Build ::
    "('u, 's) MiddlewareBuilder \<Rightarrow> ('u list \<times> 's list) \<times> ('u, 's) MiddlewareBuilder" where
  "MiddlewareBuilder_Build b =
     (let sorted_entries = sort_key Order (entries b)
      in (collect sorted_entries [] [], b\<lparr>entries := sorted_entries\<rparr>))"

section \<open>Server options (internal/core/builder.go)\<close>

datatype ('u, 's) ServerOption = UnaryInterceptor 'u | StreamInterceptor 's

definition BuildServerOptions ::
    "'u list \<Rightarrow> 's list \<Rightarrow> ('u list \<Rightarrow> 'u option) \<Rightarrow> ('s list \<Rightarrow> 's option)
       \<Rightarrow> ('u, 's) ServerOption list" where
  "BuildServerOptions un st chainUnary chainStream =
     (let opts = [];
          opts = (case chainUnary un of Some u \<Rightarrow> opts @ [UnaryInterceptor u] | None \<Rightarrow> opts);
          opts = (case chainStream st of Some s \<Rightarrow> opts @ [StreamInterceptor s] | None \<Rightarrow> opts)
      in opts)"

lemma collect_eq:
  "collect ms un st = (un @ List.map_filter Unary ms, st @ List.map_filter Stream ms)"
  by (induction ms arbitrary: un st) (auto simp: List.map_filter_simps split: option.splits)

lemma Build_eq:
  "fst (MiddlewareBuilder_Build b) =
     (List.map_filter Unary (sort_key Order (entries b)),
      List.map_filter Stream (sort_key Order (entries b)))"
  by (simp add: MiddlewareBuilder_Build_def collect_eq Let_def)

section \<open>Properties\<close>

text \<open>
  C27: \<open>ChainUnary\<close> and \<open>ChainStream\<close> are the onion: no interceptors give nil, and otherwise
  the first interceptor runs with the chain of the rest as its handler, down to the real
  handler.
\<close>

theorem Chain_is_onion:
  "ChainUnary ([] :: ('w, 'b, 'req, 'resp) unary_interceptor list) = None \<and>
   ChainStream ([] :: ('w, 'b, 'srv, 'ss) stream_interceptor list) = None \<and>
   ChainUnary (u # us) = Some (\<lambda>ctx req info (h :: ('w, 'b, 'req, 'resp) unary_handler).
       u ctx req info (\<lambda>ctx' req'. foldr (\<lambda>ic next c r. ic c r info next) us h ctx' req')) \<and>
   ChainStream (s # ss) = Some (\<lambda>srv str info (h :: ('w, 'b, 'srv, 'ss) stream_handler).
       s srv str info (\<lambda>srv' str'. foldr (\<lambda>ic next c r. ic c r info next) ss h srv' str'))"
  unfolding unary.chain_onion stream.chain_onion by (simp add: onion_def)

text \<open>
  chaining is associative: the chain of two lists is the first chain with the second
  as its handler, so splitting the middleware into groups does not change what runs.
\<close>

theorem Chain_append:
  assumes "ChainUnary xs = Some f" and "ChainUnary ys = Some g"
  shows "ChainUnary (xs @ ys) = Some (\<lambda>ctx req info h. f ctx req info (\<lambda>ctx' req'. g ctx' req' info h))"
  using assms by (rule unary.chain_append)

theorem Chain_append_witness:
  "ChainUnary ([\<lambda>ctx req info h w. h ctx req (w @ [0])] @ [\<lambda>ctx req info h w. h ctx req (w @ [1::nat])])
   = Some (\<lambda>ctx req info h w. h ctx req ((w @ [0]) @ [1]))"
  using Chain_append [of "[\<lambda>ctx req info h w. h ctx req (w @ [0])]"
      "\<lambda>ctx req info h w. h ctx req (w @ [0])"
      "[\<lambda>ctx req info h w. h ctx req (w @ [1::nat])]" "\<lambda>ctx req info h w. h ctx req (w @ [1])"]
  by (simp add: ChainUnary_def)

text \<open>
  \<open>Build\<close> sorts by priority and is stable: the entries end up ordered, each priority
  band in the order it was added, and the two slices are the non-nil interceptors of the
  entries in that order.
\<close>

theorem Build_sorted_stable:
  "case MiddlewareBuilder_Build b of ((us, ss), b') \<Rightarrow>
     sorted (map Order (entries b')) \<and>
     (\<forall>k. filter (\<lambda>m. Order m = k) (entries b') = filter (\<lambda>m. Order m = k) (entries b)) \<and>
     us = List.map_filter Unary (entries b') \<and> ss = List.map_filter Stream (entries b')"
  by (simp add: MiddlewareBuilder_Build_def Let_def collect_eq sort_key_stable)

text \<open>
  the order of registration matters within one priority only: two builders whose
  entries agree on every priority band build the same slices, in particular after swapping
  two neighbours of different priority.
\<close>

theorem Build_order_independent:
  assumes "\<And>k. filter (\<lambda>m. Order m = k) (entries b) = filter (\<lambda>m. Order m = k) (entries b')"
  shows "fst (MiddlewareBuilder_Build b) = fst (MiddlewareBuilder_Build b')"
  using sort_key_eq_of_bands [OF assms] by (simp add: Build_eq)

theorem Build_order_independent_witness:
  "fst (MiddlewareBuilder_Build (MiddlewareBuilder_Add (MiddlewareBuilder_Add empty_builder
      28 (Some ''auth'') None) 10 (Some ''recovery'') (Some ''recovery''))) =
   fst (MiddlewareBuilder_Build (MiddlewareBuilder_Add (MiddlewareBuilder_Add empty_builder
      10 (Some ''recovery'') (Some ''recovery'')) 28 (Some ''auth'') None))"
  by (rule Build_order_independent) (simp add: MiddlewareBuilder_Add_def empty_builder_def)

end
