(* ===== verification/Guards.thy ===== *)
theory Guards
  imports Security Chain
begin

text \<open>
  The interceptors that decide about a request before the handler runs, and the two that
  wrap it: authentication (auth/auth.go, interceptors/auth.go), IP blocking
  (interceptors/ipblock.go), panic recovery (interceptors/recovery.go) and request ids
  (interceptors/requestid.go).
\<close>

section \<open>Authentication\<close>

type_synonym ('w, 'b, 'md) AuthFunc =
  "'b gctx \<Rightarrow> string \<Rightarrow> 'md \<Rightarrow> ('w, 'b gctx \<times> gerror option) go"

definition errUnauthenticated :: gerror where
  "errUnauthenticated = StatusError Unauthenticated ''unauthenticated''"

definition authError :: "('b, 'md) grpc_api \<Rightarrow> gerror \<Rightarrow> gerror" where
  "authError A err = (let (_, ok) = status_FromError A (Some err) in if ok then err else errUnauthenticated)"

definition AuthUnary ::
    "('b, 'md) grpc_api \<Rightarrow> ('w, 'b, 'md) AuthFunc \<Rightarrow> ('w, 'b, 'req, 'resp) unary_interceptor" where
  "AuthUnary A fn = (\<lambda>ctx req info handler.
     let (md, _) = FromIncomingContext A ctx
     in go_bind (fn ctx info md) (\<lambda>(newCtx, err).
          case err of
            Some e \<Rightarrow> go_return (None, Some (authError A e))
          | None \<Rightarrow> handler newCtx req))"

definition AuthStream ::
    "('b, 'md) grpc_api \<Rightarrow> ('w, 'b, 'md) AuthFunc \<Rightarrow> ('w, 'b, 'srv, 'ss) stream_interceptor" where
  "AuthStream A fn = (\<lambda>srv ss info handler.
     let ctx = ss_ctx ss;
         (md, _) = FromIncomingContext A ctx
     in go_bind (fn ctx info md) (\<lambda>(_, err).
          case err of
            Some e \<Rightarrow> go_return (Some (authError A e))
          | None \<Rightarrow> handler srv ss))"

section \<open>IP blocking\<close>

text \<open>
  The blocker is a pointer: \<open>NewIPBlocker\<close> returns nil with an error, and \<open>Evaluate\<close> on a
  nil blocker reads a field of it.
\<close>

definition errBlocked :: gerror where
  "errBlocked = StatusError PermissionDenied ''blocked''"

definition IPBlocker_Evaluate ::
    "('b, 'md) grpc_api \<Rightarrow> IPBlocker option \<Rightarrow> 'b gctx \<Rightarrow> 'md \<Rightarrow> ('w, bool) go" where
  "IPBlocker_Evaluate A b ctx md =
     (case b of
        None \<Rightarrow> go_panic ''nil pointer dereference''
      | Some blk \<Rightarrow> go_return (Evaluate A blk ctx md))"

definition IPBlockUnary ::
    "('b, 'md) grpc_api \<Rightarrow> IPBlocker option \<Rightarrow> ('w, 'b, 'req, 'resp) unary_interceptor" where
  "IPBlockUnary A b = (\<lambda>ctx req info handler.
     let (md, _) = FromIncomingContext A ctx
     in go_bind (IPBlocker_Evaluate A b ctx md) (\<lambda>allowed.
          if \<not> allowed then go_return (None, Some errBlocked) else handler ctx req))"

definition IPBlockStream ::
    "('b, 'md) grpc_api \<Rightarrow> IPBlocker option \<Rightarrow> ('w, 'b, 'srv, 'ss) stream_interceptor" where
  "IPBlockStream A b = (\<lambda>srv ss info handler.
     let ctx = ss_ctx ss;
         (md, _) = FromIncomingContext A ctx
     in go_bind (IPBlocker_Evaluate A b ctx md) (\<lambda>allowed.
          if \<not> allowed then go_return (Some errBlocked) else handler srv ss))"

section \<open>Recovery\<close>

definition errInternal :: gerror where
  "errInternal = StatusError Internal ''internal server error''"

definition RecoveryUnary :: "('w, 'b, 'req, 'resp) unary_interceptor" where
  "RecoveryUnary = (\<lambda>ctx req info handler. go_recover (handler ctx req) (None, Some errInternal))"

definition RecoveryStream :: "('w, 'b, 'srv, 'ss) stream_interceptor" where
  "RecoveryStream = (\<lambda>srv ss info handler. go_recover (handler srv ss) (Some errInternal))"

section \<open>Request ids\<close>

text \<open>
  \<open>crypto/rand.Read\<close> fills the buffer from the system's source, here an endless sequence of
  bytes of which \<open>drawn\<close> have been used.  It does not fail.
\<close>

record rand_world =
  entropy :: "nat \<Rightarrow> 8 word"
  drawn :: nat

definition rand_Read :: "nat \<Rightarrow> 'x rand_world_scheme \<Rightarrow> 8 word list \<times> 'x rand_world_scheme" where
  "rand_Read n w =
     (map (\<lambda>i. entropy w (drawn w + i)) [0..<n], w\<lparr>drawn := drawn w + n\<rparr>)"

definition hex_char :: "nat \<Rightarrow> char" where
  "hex_char n = ''0123456789abcdef'' ! n"

fun EncodeToString :: "8 word list \<Rightarrow> string" where
  "EncodeToString [] = []"
| "EncodeToString (b # bs) =
     hex_char (unat (drop_bit 4 b)) # hex_char (unat (b AND 15)) # EncodeToString bs"

definition newRequestID :: "'x rand_world_scheme \<Rightarrow> string \<times> 'x rand_world_scheme" where
  "newRequestID w = (let (buf, w') = rand_Read 16 w in (EncodeToString buf, w'))"

definition ensureRequestID ::
    "'b gctx \<Rightarrow> 'x rand_world_scheme \<Rightarrow> 'b gctx \<times> 'x rand_world_scheme" where
  "ensureRequestID ctx w =
     (if RequestIDFromContext ctx = [] then
        let (i, w') = newRequestID w in (WithRequestID ctx i, w')
      else (ctx, w))"

definition RequestIDUnary :: "('x rand_world_scheme, 'b, 'req, 'resp) unary_interceptor" where
  "RequestIDUnary = (\<lambda>ctx req info handler w.
     let (ctx', w') = ensureRequestID ctx w in handler ctx' req w')"

definition RequestIDStream :: "('w, 'b, 'srv, 'ss) stream_interceptor" where
  "RequestIDStream = (\<lambda>srv ss info handler. handler srv ss)"

section \<open>The contract of a guard\<close>

text \<open>
  A guard looks at the context and the method, possibly with effects, and either rejects with
  an error, without running the handler, or runs it once, perhaps with a derived context.
  The stream guards never replace the stream.
\<close>

locale unary_guard =
  fixes ic :: "('w, 'b, 'req, 'resp) unary_interceptor"
    and verdict :: "'b gctx \<Rightarrow> string \<Rightarrow> ('w, gerror + 'b gctx) go"
  assumes guard: "ic ctx req info h =
    go_bind (verdict ctx info) (\<lambda>v. case v of
        Inl e \<Rightarrow> go_return (None, Some e)
      | Inr ctx' \<Rightarrow> h ctx' req)"
begin

lemma reject:
  "verdict ctx info w = (Return (Inl e), w') \<Longrightarrow> ic ctx req info h w = (Return (None, Some e), w')"
  by (simp add: guard go_unfold)

lemma admit:
  "verdict ctx info w = (Return (Inr ctx'), w') \<Longrightarrow> ic ctx req info h w = h ctx' req w'"
  by (simp add: guard go_unfold)

lemma abort:
  "verdict ctx info w = (Panic p, w') \<Longrightarrow> ic ctx req info h w = (Panic p, w')"
  by (simp add: guard go_unfold)

lemmas outcomes = reject admit abort

lemma reject_ignores_handler:
  "verdict ctx info w = (Return (Inl e), w') \<Longrightarrow> ic ctx req info h w = ic ctx req' info h' w"
  by (simp add: reject)

text \<open>Inside a chain: what stands behind a guard that rejects does not run.\<close>

lemma onion_reject:
  "verdict ctx info w = (Return (Inl e), w') \<Longrightarrow>
   onion (ic # rest) info h ctx req w = (Return (None, Some e), w')"
  by (simp add: reject)

lemma onion_admit:
  "verdict ctx info w = (Return (Inr ctx'), w') \<Longrightarrow>
   onion (ic # rest) info h ctx req w = onion rest info h ctx' req w'"
  by (simp add: admit)

end

locale stream_guard =
  fixes ic :: "('w, 'b, 'srv, 'ss) stream_interceptor"
    and verdict :: "'b gctx \<Rightarrow> string \<Rightarrow> ('w, gerror + 'b gctx) go"
  assumes guard: "ic srv ss info h =
    go_bind (verdict (ss_ctx ss) info) (\<lambda>v. case v of
        Inl e \<Rightarrow> go_return (Some e)
      | Inr _ \<Rightarrow> h srv ss)"
begin

lemma reject:
  "verdict (ss_ctx ss) info w = (Return (Inl e), w') \<Longrightarrow> ic srv ss info h w = (Return (Some e), w')"
  by (simp add: guard go_unfold)

lemma admit:
  "verdict (ss_ctx ss) info w = (Return (Inr ctx'), w') \<Longrightarrow> ic srv ss info h w = h srv ss w'"
  by (simp add: guard go_unfold)

lemma abort:
  "verdict (ss_ctx ss) info w = (Panic p, w') \<Longrightarrow> ic srv ss info h w = (Panic p, w')"
  by (simp add: guard go_unfold)

lemma onion_reject:
  "verdict (ss_ctx ss) info w = (Return (Inl e), w') \<Longrightarrow>
   onion (ic # rest) info h srv ss w = (Return (Some e), w')"
  by (simp add: reject)

lemma onion_admit:
  "verdict (ss_ctx ss) info w = (Return (Inr ctx'), w') \<Longrightarrow>
   onion (ic # rest) info h srv ss w = onion rest info h srv ss w'"
  by (simp add: admit)

end

text \<open>The verdicts of the guards of this theory.\<close>

definition auth_verdict ::
    "('b, 'md) grpc_api \<Rightarrow> ('w, 'b, 'md) AuthFunc \<Rightarrow> 'b gctx \<Rightarrow> string \<Rightarrow> ('w, gerror + 'b gctx) go" where
  "auth_verdict A fn ctx info =
     go_bind (fn ctx info (fst (FromIncomingContext A ctx))) (\<lambda>(newCtx, err).
       go_return (case err of Some e \<Rightarrow> Inl (authError A e) | None \<Rightarrow> Inr newCtx))"

definition ip_verdict ::
    "('b, 'md) grpc_api \<Rightarrow> IPBlocker option \<Rightarrow> 'b gctx \<Rightarrow> string \<Rightarrow> ('w, gerror + 'b gctx) go" where
  "ip_verdict A b ctx info =
     go_bind (IPBlocker_Evaluate A b ctx (fst (FromIncomingContext A ctx))) (\<lambda>allowed.
       go_return (if allowed then Inr ctx else Inl errBlocked))"

definition reqid_verdict ::
    "'b gctx \<Rightarrow> string \<Rightarrow> ('x rand_world_scheme, gerror + 'b gctx) go" where
  "reqid_verdict ctx info w = (let (ctx', w') = ensureRequestID ctx w in (Return (Inr ctx'), w'))"

interpretation auth_u: unary_guard "AuthUnary A fn" "auth_verdict A fn" for A fn
  by unfold_locales
     (auto simp: AuthUnary_def auth_verdict_def go_bind_assoc split: prod.splits option.splits
       intro!: arg_cong2 [where f = go_bind])

interpretation auth_s: stream_guard "AuthStream A fn" "auth_verdict A fn" for A fn
  by unfold_locales
     (auto simp: AuthStream_def auth_verdict_def go_bind_assoc Let_def split: prod.splits option.splits
       intro!: arg_cong2 [where f = go_bind])

interpretation ip_u: unary_guard "IPBlockUnary A b" "ip_verdict A b" for A b
  by unfold_locales
     (auto simp: IPBlockUnary_def ip_verdict_def go_bind_assoc split: prod.splits
       intro!: arg_cong2 [where f = go_bind])

interpretation ip_s: stream_guard "IPBlockStream A b" "ip_verdict A b" for A b
  by unfold_locales
     (auto simp: IPBlockStream_def ip_verdict_def go_bind_assoc Let_def split: prod.splits
       intro!: arg_cong2 [where f = go_bind])

interpretation reqid_u: unary_guard RequestIDUnary reqid_verdict
  by unfold_locales
     (auto simp: RequestIDUnary_def reqid_verdict_def go_unfold split: prod.splits)

section \<open>Hex encoding\<close>

lemma length_EncodeToString [simp]: "length (EncodeToString bs) = 2 * length bs"
  by (induction bs) auto

lemma nibble_bounds: "unat (drop_bit 4 (b :: 8 word)) < 16" "unat (b AND 15) < 16"
proof -
  have "unat b < 256" using unsigned_less [of b, where ?'a = nat] by simp
  then show "unat (drop_bit 4 b) < 16"
    unfolding unat_drop_bit_eq by (simp add: drop_bit_eq_div div_less_iff_less_mult)
  have "unat (b AND 15) \<le> unat (15 :: 8 word)"
    by (rule word_and_le1 [THEN word_le_nat_alt [THEN iffD1]])
  then show "unat (b AND 15) < 16" by simp
qed

lemma hex_char_digits: "\<forall>n \<in> set [0..<16]. hex_digit (hex_char n) = Some (int n)"
  by code_simp

lemma hex_char_digit: "n < 16 \<Longrightarrow> hex_digit (hex_char n) = Some (int n)"
  using hex_char_digits by (simp del: upt_rec_numeral)

lemma hex_char_inj: "m < 16 \<Longrightarrow> n < 16 \<Longrightarrow> hex_char m = hex_char n \<longleftrightarrow> m = n"
  by (metis hex_char_digit of_nat_eq_iff option.inject)

lemma nibbles_inj:
  "drop_bit 4 a = drop_bit 4 b \<Longrightarrow> a AND 15 = b AND 15 \<Longrightarrow> a = (b :: 8 word)"
proof -
  assume "drop_bit 4 a = drop_bit 4 b" "a AND 15 = b AND 15"
  moreover have "x AND 15 = take_bit 4 x" for x :: "8 word"
    by (simp add: take_bit_eq_mask mask_eq_exp_minus_1)
  ultimately show "a = b" by (metis bits_ident)
qed

lemma EncodeToString_inj: "EncodeToString as = EncodeToString bs \<longleftrightarrow> as = bs"
proof (induction "as" arbitrary: bs)
  case Nil
  then show ?case by (cases bs) auto
next
  case (Cons a "as")
  show ?case
  proof (cases bs)
    case (Cons b bs')
    have "hex_char (unat (drop_bit 4 a)) = hex_char (unat (drop_bit 4 b)) \<longleftrightarrow> drop_bit 4 a = drop_bit 4 b"
      "hex_char (unat (a AND 15)) = hex_char (unat (b AND 15)) \<longleftrightarrow> a AND 15 = b AND 15"
      using nibble_bounds [of a] nibble_bounds [of b]
      by (simp_all add: hex_char_inj word_unat_eq_iff)
    with Cons Cons.IH [of bs'] nibbles_inj [of a b] show ?thesis by auto
  qed simp
qed

lemma EncodeToString_hex: "c \<in> set (EncodeToString bs) \<Longrightarrow> hex_digit c \<noteq> None"
  by (induction bs) (auto simp: hex_char_digit nibble_bounds)

section \<open>Properties\<close>

text \<open>
  what \<open>AuthUnary\<close> does for each result of the authentication function: an error
  rejects with \<open>authError\<close> of it and the handler does not run; success runs the handler once
  with the returned context; a panic propagates.
\<close>

theorem AuthUnary_decides:
  "AuthUnary A fn ctx req info h w =
     (case fn ctx info (fst (FromIncomingContext A ctx)) w of
        (Panic p, w') \<Rightarrow> (Panic p, w')
      | (Return (_, Some e), w') \<Rightarrow> (Return (None, Some (authError A e)), w')
      | (Return (ctx', None), w') \<Rightarrow> h ctx' req w')"
  by (simp add: auth_u.guard auth_verdict_def go_unfold split: prod.splits outcome.splits option.splits)

text \<open>
  every authentication failure reaches the caller as a gRPC status: the function's own
  error when it is one, and otherwise \<open>Unauthenticated\<close>, never the text of the error.
\<close>

theorem authError_is_status:
  assumes "status_errors_recognised A"
  shows "snd (status_FromError A (Some (authError A e))) \<and>
    authError A e = (if snd (status_FromError A (Some e)) then e
                     else StatusError Unauthenticated ''unauthenticated'')"
  using assms
  by (auto simp: authError_def errUnauthenticated_def status_errors_recognised_def split: prod.splits)

theorem authError_is_status_witness:
  "authError demo_api (PlainError ''bad token'') = StatusError Unauthenticated ''unauthenticated'' \<and>
   authError demo_api (StatusError PermissionDenied ''no'') = StatusError PermissionDenied ''no''"
  using authError_is_status [OF demo_api_recognises, of "PlainError ''bad token''"]
    authError_is_status [OF demo_api_recognises, of "StatusError PermissionDenied ''no''"]
  by (simp add: demo_api_def)

text \<open>
  on streams the context the authentication function returns is dropped: two functions
  that differ only in it give the same stream interceptor.
\<close>

theorem AuthStream_ignores_context:
  assumes "\<And>c m md w. fn' c m md w =
    (case fn c m md w of
       (Return (_, err), w') \<Rightarrow> (Return (other c, err), w')
     | (Panic p, w') \<Rightarrow> (Panic p, w'))"
  shows "AuthStream A fn' srv ss info h w = AuthStream A fn srv ss info h w"
  by (simp add: auth_s.guard auth_verdict_def go_unfold assms
      split: prod.splits outcome.splits option.splits)

theorem AuthStream_ignores_context_witness:
  "\<forall>srv ss info h. AuthStream demo_api (\<lambda>c m md w. (Return (c, None), w)) srv ss info h (0 :: nat) =
     AuthStream demo_api (\<lambda>c m md w. (Return (WithGroup c ''admin'', None), w)) srv ss info h 0"
  by (intro allI AuthStream_ignores_context [where other = "\<lambda>c. c"]) simp

text \<open>
  \<open>RecoveryUnary\<close> and \<open>RecoveryStream\<close> return for every handler: a result unchanged,
  a panic as codes.Internal with no response; the effects the handler had stay.
\<close>

theorem Recovery_total:
  "RecoveryUnary ctx req info h w =
     (case h ctx req w of
        (Return r, w') \<Rightarrow> (Return r, w')
      | (Panic p, w') \<Rightarrow> (Return (None, Some (StatusError Internal ''internal server error'')), w')) \<and>
   RecoveryStream srv ss info k v =
     (case k srv ss v of
        (Return r, v') \<Rightarrow> (Return r, v')
      | (Panic p, v') \<Rightarrow> (Return (Some (StatusError Internal ''internal server error'')), v'))"
  by (simp add: RecoveryUnary_def RecoveryStream_def go_recover_def errInternal_def
      split: prod.splits outcome.splits)

text \<open>
  nothing behind recovery can panic the server: a chain whose first interceptor is
  recovery returns, whatever the other interceptors and the handler do.
\<close>

theorem Recovery_chain_returns:
  "is_return (fst (the (ChainUnary (RecoveryUnary # ics)) ctx req info h w)) \<and>
   is_return (fst (the (ChainStream (RecoveryStream # iss)) srv ss info k v))"
  by (simp add: unary.chain_onion stream.chain_onion RecoveryUnary_def RecoveryStream_def
      go_recover_returns)

lemma RequestID_value: "RequestIDFromContext (WithRequestID ctx i) = i"
  by (simp add: reqid_slot.get_put)

text \<open>
  behind \<open>RequestIDUnary\<close> the context has a request id: the one it came with, and
  otherwise a fresh one of 32 hex digits, the encoding of the next 16 random bytes.
\<close>

theorem RequestIDUnary_id:
  "\<exists>ctx' w'. RequestIDUnary ctx req info h w = h ctx' req w' \<and>
     RequestIDFromContext ctx' \<noteq> [] \<and>
     (if RequestIDFromContext ctx \<noteq> [] then ctx' = ctx \<and> w' = w
      else length (RequestIDFromContext ctx') = 32 \<and>
           list_all (\<lambda>c. hex_digit c \<noteq> None) (RequestIDFromContext ctx') \<and>
           RequestIDFromContext ctx' = EncodeToString (map (\<lambda>i. entropy w (drawn w + i)) [0..<16]) \<and>
           ActorFromContext ctx' = ActorFromContext ctx \<and>
           GroupFromContext ctx' = GroupFromContext ctx \<and>
           w' = w\<lparr>drawn := drawn w + 16\<rparr>)"
proof (cases "RequestIDFromContext ctx = []")
  case False
  then show ?thesis
    by (intro exI [of _ ctx] exI [of _ w]) (simp add: RequestIDUnary_def ensureRequestID_def)
next
  case True
  let ?id = "EncodeToString (map (\<lambda>i. entropy w (drawn w + i)) [0..<16])"
  let ?ctx = "WithRequestID ctx ?id" and ?w = "w\<lparr>drawn := drawn w + 16\<rparr>"
  have "?id \<noteq> []" using length_EncodeToString by (metis length_map length_upt list.size(3)
      mult_eq_0_iff diff_zero numeral_neq_zero zero_neq_numeral)
  moreover have "RequestIDUnary ctx req info h w = h ?ctx req ?w"
    using True by (simp add: RequestIDUnary_def ensureRequestID_def newRequestID_def rand_Read_def)
  moreover have "ActorFromContext ?ctx = ActorFromContext ctx" "GroupFromContext ?ctx = GroupFromContext ctx"
    by (simp_all add: actor_slot.get_value group_slot.get_value reqid_slot.value_other)
  ultimately show ?thesis
    using True EncodeToString_hex
    by (intro exI [of _ ?ctx] exI [of _ ?w]) (simp add: RequestID_value list_all_iff del: upt_rec_numeral)
qed

text \<open>
  request ids are as unique as the random bytes: two fresh ids are equal iff the
  sixteen bytes they encode are equal.
\<close>

theorem newRequestID_injective:
  "fst (newRequestID w) = fst (newRequestID v) \<longleftrightarrow>
     map (\<lambda>i. entropy w (drawn w + i)) [0..<16] = map (\<lambda>i. entropy v (drawn v + i)) [0..<16]"
  by (simp add: newRequestID_def rand_Read_def EncodeToString_inj del: upt_rec_numeral)

end
