(* ===== verification/Policy.thy ===== *)
theory Policy
  imports Prelude "HOL-Library.Sublist" "HOL-Library.Product_Lexorder"
begin

text \<open>
  Package policy: method groups and their builder (policy/group.go), the matching of one
  rule (policy/matcher.go) and the choice of the best-matching group (policy/resolver.go).

  Builders are values here: the code's builder methods mutate the group and return it, and
  a configuration uses only what the last call returns.
\<close>

section \<open>Groups, rules and policies (group.go)\<close>

record RateLimitRule =
  Rate :: int
  Window :: int  \<comment> \<open>nanoseconds\<close>

record Policy =
  RateLimit :: "RateLimitRule option"
  Timeout :: int
  AuthRequired :: bool

datatype matchKind = kindExact | kindPrefix | kindRegex

text \<open>The \<open>iota\<close> values: a lower value has priority.\<close>

fun kind_val :: "matchKind \<Rightarrow> int" where
  "kind_val kindExact = 0"
| "kind_val kindPrefix = 1"
| "kind_val kindRegex = 2"

lemma kind_val_inj: "kind_val a = kind_val b \<Longrightarrow> a = b"
  by (cases a; cases b) auto

lemma kind_val_nonneg [simp]: "0 \<le> kind_val k"
  by (cases k) auto

lemma kind_val_not_neg [simp]: "\<not> kind_val k < 0"
  using kind_val_nonneg [of k] by linarith

instantiation matchKind :: linorder
begin

definition less_eq_matchKind :: "matchKind \<Rightarrow> matchKind \<Rightarrow> bool" where
  "less_eq_matchKind a b \<longleftrightarrow> kind_val a \<le> kind_val b"

definition less_matchKind :: "matchKind \<Rightarrow> matchKind \<Rightarrow> bool" where
  "less_matchKind a b \<longleftrightarrow> kind_val a < kind_val b"

instance
  by standard (auto simp: less_eq_matchKind_def less_matchKind_def intro: kind_val_inj)

end

text \<open>
  A compiled regular expression is the function \<open>FindStringIndex\<close> it stands for: the bounds
  of the leftmost match, if any.  The engine is a parameter: \<open>compile\<close> maps a pattern to
  the compiled expression, \<open>None\<close> when it is not a valid pattern.  A nil \<open>*Regexp\<close> is
  \<open>None\<close>; the builder stores one only in rules of the two other kinds.
\<close>

type_synonym regexp = "string \<Rightarrow> (nat \<times> nat) option"

record rule =
  kind :: matchKind
  pattern :: string
  re :: "regexp option"

record GroupBuilder =
  name :: string
  rules :: "rule list"
  policy :: "Policy option"

definition Group :: "string \<Rightarrow> GroupBuilder" where
  "Group n = \<lparr>name = n, rules = [], policy = None\<rparr>"

definition GroupBuilder_Exact :: "GroupBuilder \<Rightarrow> string \<Rightarrow> GroupBuilder" where
  "GroupBuilder_Exact g p = g\<lparr>rules := rules g @ [\<lparr>kind = kindExact, pattern = p, re = None\<rparr>]\<rparr>"

definition GroupBuilder_Prefix :: "GroupBuilder \<Rightarrow> string \<Rightarrow> GroupBuilder" where
  "GroupBuilder_Prefix g p = g\<lparr>rules := rules g @ [\<lparr>kind = kindPrefix, pattern = p, re = None\<rparr>]\<rparr>"

definition GroupBuilder_Regex ::
    "(string \<Rightarrow> regexp option) \<Rightarrow> GroupBuilder \<Rightarrow> string \<Rightarrow> GroupBuilder outcome" where
  "GroupBuilder_Regex compile g p =
     (case compile p of
        None \<Rightarrow> Panic (''regexp: Compile('' @ p @ '')'')
      | Some r \<Rightarrow>
          Return (g\<lparr>rules := rules g @ [\<lparr>kind = kindRegex, pattern = p, re = Some r\<rparr>]\<rparr>))"

definition GroupBuilder_Policy :: "GroupBuilder \<Rightarrow> Policy \<Rightarrow> GroupBuilder" where
  "GroupBuilder_Policy g p = g\<lparr>policy := Some p\<rparr>"

section \<open>Matching one rule (matcher.go)\<close>

text \<open>
  A regex rule without a compiled expression, which would panic, is a rule that does not match
  here; the builder makes none (\<open>GroupBuilder_Regex\<close> panics on an expression that does not
  compile).
\<close>

definition rule_match :: "rule \<Rightarrow> string \<Rightarrow> bool \<times> int" where
  "rule_match r fullMethod =
     (case kind r of
        kindExact \<Rightarrow>
          if fullMethod = pattern r then (True, int (length (pattern r))) else (False, 0)
      | kindPrefix \<Rightarrow>
          if prefix (pattern r) fullMethod then (True, int (length (pattern r))) else (False, 0)
      | kindRegex \<Rightarrow>
          (case re r of
             None \<Rightarrow> (False, 0)
           | Some f \<Rightarrow>
               (case f fullMethod of
                  Some (lo, hi) \<Rightarrow> (True, int hi - int lo)
                | None \<Rightarrow> (False, 0))))"

section \<open>Resolving a method (resolver.go)\<close>

record Resolver =
  groups :: "GroupBuilder list"

definition NewResolver :: "GroupBuilder list \<Rightarrow> Resolver" where
  "NewResolver gs = \<lparr>groups = gs\<rparr>"

text \<open>The local variables of \<open>Resolve\<close>, its named results included.\<close>

record resolve_state =
  bestKind :: int
  bestLen :: int
  groupName :: string
  pol :: "Policy option"
  ok :: bool

definition resolve_init :: resolve_state where
  "resolve_init = \<lparr>bestKind = -1, bestLen = -1, groupName = [], pol = None, ok = False\<rparr>"

definition resolve_rule :: "string \<Rightarrow> GroupBuilder \<Rightarrow> resolve_state \<Rightarrow> rule \<Rightarrow> resolve_state" where
  "resolve_rule fullMethod g s r =
     (let (matched, mLen) = rule_match r fullMethod
      in if \<not> matched then s
         else if bestKind s < 0 \<or> kind_val (kind r) < bestKind s
                 \<or> (kind_val (kind r) = bestKind s \<and> mLen > bestLen s)
         then \<lparr>bestKind = kind_val (kind r), bestLen = mLen, groupName = name g,
               pol = policy g, ok = True\<rparr>
         else s)"

definition resolve_group :: "string \<Rightarrow> resolve_state \<Rightarrow> GroupBuilder \<Rightarrow> resolve_state" where
  "resolve_group fullMethod s g = foldl (resolve_rule fullMethod g) s (rules g)"

definition Resolve :: "Resolver \<Rightarrow> string \<Rightarrow> string \<times> Policy option \<times> bool" where
  "Resolve res fullMethod =
     (let s = foldl (resolve_group fullMethod) resolve_init (groups res)
      in (groupName s, pol s, ok s))"

section \<open>Loops that keep the first best candidate\<close>

text \<open>
  The reference: the first element whose key no other element beats.  A loop that replaces
  what it holds only by strictly better elements computes it, whatever its state looks like.
\<close>

fun first_min :: "('a \<Rightarrow> 'k::linorder) \<Rightarrow> 'a list \<Rightarrow> 'a option" where
  "first_min key [] = None"
| "first_min key (x # xs) =
     (case first_min key xs of
        None \<Rightarrow> Some x
      | Some y \<Rightarrow> if key y < key x then Some y else Some x)"

lemma first_min_None_iff [simp]: "first_min key xs = None \<longleftrightarrow> xs = []"
  by (cases xs) (auto split: option.splits)

lemma first_min_in: "first_min key xs = Some m \<Longrightarrow> m \<in> set xs"
  by (induction xs arbitrary: m) (auto split: option.splits if_splits)

lemma first_min_le: "first_min key xs = Some m \<Longrightarrow> x \<in> set xs \<Longrightarrow> key m \<le> key x"
  by (induction xs arbitrary: m) (force split: option.splits if_splits)+

lemma first_min_position:
  "first_min key xs = Some m \<Longrightarrow>
     \<exists>us vs. xs = us @ m # vs \<and> (\<forall>u \<in> set us. key m < key u) \<and> (\<forall>v \<in> set vs. key m \<le> key v)"
proof (induction xs arbitrary: m)
  case (Cons x xs)
  show ?case
  proof (cases "first_min key xs = Some m \<and> key m < key x")
    case True
    with Cons.IH obtain us vs where "xs = us @ m # vs" "\<forall>u \<in> set us. key m < key u"
        "\<forall>v \<in> set vs. key m \<le> key v" by blast
    with True have "x # xs = (x # us) @ m # vs \<and> (\<forall>u \<in> set (x # us). key m < key u)
        \<and> (\<forall>v \<in> set vs. key m \<le> key v)" by simp
    then show ?thesis by blast
  next
    case False
    with Cons.prems have m: "m = x" by (auto split: option.splits if_splits)
    with Cons.prems have "\<forall>v \<in> set xs. key m \<le> key v"
      using first_min_le [of key "x # xs" m] by simp
    with m have "x # xs = [] @ m # xs \<and> (\<forall>u \<in> set []. key m < key u) \<and> (\<forall>v \<in> set xs. key m \<le> key v)"
      by simp
    then show ?thesis by blast
  qed
qed simp

lemma first_min_append:
  "first_min key (xs @ ys) =
     (case (first_min key xs, first_min key ys) of
        (None, r) \<Rightarrow> r
      | (Some x, None) \<Rightarrow> Some x
      | (Some x, Some y) \<Rightarrow> if key y < key x then Some y else Some x)"
  by (induction xs) (auto split: option.splits)

lemma first_min_middle:
  assumes b: "first_min key B = Some b" and A: "\<And>x. x \<in> set A \<Longrightarrow> key b < key x"
    and C: "\<And>x. x \<in> set C \<Longrightarrow> key b \<le> key x"
  shows "first_min key (A @ B @ C) = Some b"
proof -
  have "first_min key (B @ C) = Some b"
    using b C first_min_in [of key C]
    by (cases "first_min key C") (auto simp: first_min_append not_less [symmetric])
  then show ?thesis
    using A first_min_in [of key A]
    by (cases "first_min key A") (auto simp: first_min_append [of key A])
qed

locale best_fold =
  fixes step :: "'s \<Rightarrow> 'a \<Rightarrow> 's"
    and held :: "'s \<Rightarrow> 'a option \<Rightarrow> bool"
    and key :: "'a \<Rightarrow> 'k::linorder"
  assumes step_first: "held s None \<Longrightarrow> held (step s x) (Some x)"
    and step_better: "held s (Some b) \<Longrightarrow> key x < key b \<Longrightarrow> held (step s x) (Some x)"
    and step_keep: "held s (Some b) \<Longrightarrow> \<not> key x < key b \<Longrightarrow> held (step s x) (Some b)"
begin

lemma fold_from_Some:
  "held s (Some b) \<Longrightarrow> held (foldl step s xs) (first_min key (b # xs))"
proof (induction xs arbitrary: s b)
  case (Cons x xs)
  show ?case
  proof (cases "key x < key b")
    case True
    obtain m where m: "first_min key (x # xs) = Some m"
      by (metis first_min_None_iff list.distinct(1) not_None_eq)
    have "key m < key b"
      using first_min_le [OF m, of x] True by simp
    then have "first_min key (b # x # xs) = first_min key (x # xs)"
      by (simp only: first_min.simps(2) [of key b] m option.case if_True)
    with Cons.IH [OF step_better [OF Cons.prems True]] show ?thesis by simp
  next
    case False
    then have "first_min key (b # x # xs) = first_min key (b # xs)"
      by (auto split: option.splits)
    with Cons.IH [OF step_keep [OF Cons.prems False]] show ?thesis by simp
  qed
qed simp

lemma fold_first_min: "held s None \<Longrightarrow> held (foldl step s xs) (first_min key xs)"
proof (cases xs)
  case (Cons x xs')
  assume "held s None"
  then have "held (step s x) (Some x)" by (rule step_first)
  from fold_from_Some [OF this, of xs'] Cons show ?thesis by simp
qed simp

end

section \<open>Resolve as the best candidate\<close>

text \<open>
  The candidates for a method: every matching rule with its group and match length, in
  registration order; and the key that orders them: kind first, then longer matches.
\<close>

type_synonym candidate = "GroupBuilder \<times> rule \<times> int"

definition group_candidates :: "string \<Rightarrow> GroupBuilder \<Rightarrow> candidate list" where
  "group_candidates m g =
     map (\<lambda>r. (g, r, snd (rule_match r m))) (filter (\<lambda>r. fst (rule_match r m)) (rules g))"

definition candidates :: "Resolver \<Rightarrow> string \<Rightarrow> candidate list" where
  "candidates res m = concat (map (group_candidates m) (groups res))"

definition cand_key :: "candidate \<Rightarrow> matchKind \<times> int" where
  "cand_key c = (kind (fst (snd c)), - snd (snd c))"

definition cand_step :: "resolve_state \<Rightarrow> candidate \<Rightarrow> resolve_state" where
  "cand_step s c =
     (let (g, r, mLen) = c
      in if bestKind s < 0 \<or> kind_val (kind r) < bestKind s
            \<or> (kind_val (kind r) = bestKind s \<and> mLen > bestLen s)
         then \<lparr>bestKind = kind_val (kind r), bestLen = mLen, groupName = name g,
               pol = policy g, ok = True\<rparr>
         else s)"

fun holds_candidate :: "resolve_state \<Rightarrow> candidate option \<Rightarrow> bool" where
  "holds_candidate s None = (s = resolve_init)"
| "holds_candidate s (Some (g, r, mLen)) =
     (s = \<lparr>bestKind = kind_val (kind r), bestLen = mLen, groupName = name g,
           pol = policy g, ok = True\<rparr>)"

lemma cand_key_less:
  "cand_key (g, r, l) < cand_key (g', r', l') \<longleftrightarrow>
     kind_val (kind r) < kind_val (kind r') \<or> kind_val (kind r) = kind_val (kind r') \<and> l' < l"
  by (auto simp: cand_key_def less_prod_def less_matchKind_def less_eq_matchKind_def)

interpretation resolving: best_fold cand_step holds_candidate cand_key
proof
  fix s x b
  show "holds_candidate s None \<Longrightarrow> holds_candidate (cand_step s x) (Some x)"
    by (cases x) (simp add: cand_step_def resolve_init_def)
  show "holds_candidate s (Some b) \<Longrightarrow> cand_key x < cand_key b \<Longrightarrow> holds_candidate (cand_step s x) (Some x)"
    by (cases x; cases b) (auto simp: cand_step_def cand_key_less)
  show "holds_candidate s (Some b) \<Longrightarrow> \<not> cand_key x < cand_key b \<Longrightarrow> holds_candidate (cand_step s x) (Some b)"
    by (cases x; cases b) (simp add: cand_step_def cand_key_less not_less)
qed

lemma resolve_rules_candidates:
  "foldl (resolve_rule m g) s rs =
     foldl cand_step s
       (map (\<lambda>r. (g, r, snd (rule_match r m))) (filter (\<lambda>r. fst (rule_match r m)) rs))"
  by (induction rs arbitrary: s) (auto simp: resolve_rule_def cand_step_def split: prod.splits)

lemma resolve_groups_candidates:
  "foldl (resolve_group m) s gs = foldl cand_step s (concat (map (group_candidates m) gs))"
  by (induction gs arbitrary: s)
     (auto simp: resolve_group_def group_candidates_def resolve_rules_candidates)

lemma Resolve_best:
  "Resolve res m =
     (case first_min cand_key (candidates res m) of
        None \<Rightarrow> ([], None, False)
      | Some (g, _, _) \<Rightarrow> (name g, policy g, True))"
proof -
  have "holds_candidate (foldl (resolve_group m) resolve_init (groups res))
      (first_min cand_key (candidates res m))"
    using resolving.fold_first_min [of resolve_init "candidates res m"]
    by (simp add: candidates_def resolve_groups_candidates)
  then show ?thesis
    by (auto simp: Resolve_def Let_def resolve_init_def split: option.splits prod.splits)
qed

section \<open>Properties\<close>

definition rule_applies :: "rule \<Rightarrow> string \<Rightarrow> bool" where
  "rule_applies r m \<longleftrightarrow> fst (rule_match r m)"

lemma rule_applies_kinds:
  "kind r = kindExact \<Longrightarrow> rule_applies r m \<longleftrightarrow> m = pattern r"
  "kind r = kindPrefix \<Longrightarrow> rule_applies r m \<longleftrightarrow> prefix (pattern r) m"
  by (auto simp: rule_applies_def rule_match_def)

lemma set_candidates:
  "c \<in> set (candidates res m) \<longleftrightarrow>
     (\<exists>g \<in> set (groups res). \<exists>r \<in> set (rules g).
        rule_applies r m \<and> c = (g, r, snd (rule_match r m)))"
  by (auto simp: candidates_def group_candidates_def rule_applies_def)

text \<open>
  \<open>Resolve\<close> finds a group exactly when some rule of some group matches, and otherwise
  returns the empty name, no policy and false.
\<close>

theorem Resolve_finds:
  "snd (snd (Resolve res m)) = (\<exists>g \<in> set (groups res). \<exists>r \<in> set (rules g). rule_applies r m)
   \<and> (snd (snd (Resolve res m)) \<or> Resolve res m = ([], None, False))"
proof -
  have "candidates res m = [] \<longleftrightarrow>
      \<not> (\<exists>g \<in> set (groups res). \<exists>r \<in> set (rules g). rule_applies r m)"
    using set_candidates [of _ res m] by (metis empty_iff list.set(1) list.set_sel(1))
  then show ?thesis by (auto simp: Resolve_best split: option.splits prod.splits)
qed

text \<open>
  C6: the priority cascade: the group returned is that of a matching rule that beats every
  matching rule registered before it (a better kind, or the same kind and a longer match)
  and is not beaten by any registered after it.
\<close>

theorem Resolve_priority:
  assumes "Resolve res m = (n, p, True)"
  shows "\<exists>us g r l vs. candidates res m = us @ (g, r, l) # vs \<and> n = name g \<and> p = policy g \<and>
    (\<forall>u \<in> set us. cand_key (g, r, l) < cand_key u) \<and> (\<forall>v \<in> set vs. cand_key (g, r, l) \<le> cand_key v)"
proof (cases "first_min cand_key (candidates res m)")
  case None
  with assms show ?thesis by (simp add: Resolve_best)
next
  case (Some c)
  obtain g r l where c: "c = (g, r, l)" by (cases c)
  from first_min_position [OF Some] obtain us vs where
    "candidates res m = us @ c # vs" "\<forall>u \<in> set us. cand_key c < cand_key u"
    "\<forall>v \<in> set vs. cand_key c \<le> cand_key v" by blast
  moreover have "n = name g \<and> p = policy g"
    using assms Some c by (simp add: Resolve_best)
  ultimately show ?thesis using c by blast
qed

lemma exact_candidate:
  assumes "c \<in> set (candidates res m)"
  shows "(kindExact, - int (length m)) \<le> cand_key c"
    and "kind (fst (snd c)) = kindExact \<Longrightarrow> cand_key c = (kindExact, - int (length m))"
proof -
  obtain g r where c: "c = (g, r, snd (rule_match r m))" and r: "rule_applies r m"
    using assms by (auto simp: set_candidates)
  show e: "cand_key c = (kindExact, - int (length m))" if "kind (fst (snd c)) = kindExact"
    using that r c by (auto simp: cand_key_def rule_match_def rule_applies_kinds)
  show "(kindExact, - int (length m)) \<le> cand_key c"
  proof (cases "kind r = kindExact")
    case True
    with e c show ?thesis by simp
  next
    case False
    then show ?thesis
      using c by (cases "kind r")
        (auto simp: cand_key_def less_prod_def less_eq_prod_def less_matchKind_def)
  qed
qed

lemma first_exact_group:
  assumes gs: "groups res = gs1 @ g # gs2"
    and r: "r \<in> set (rules g)" "kind r = kindExact" "pattern r = m"
    and none: "\<forall>g' \<in> set gs1. \<forall>r' \<in> set (rules g'). kind r' = kindExact \<longrightarrow> pattern r' \<noteq> m"
  shows "\<exists>r' l. first_min cand_key (candidates res m) = Some (g, r', l)"
proof -
  let ?k = "(kindExact, - int (length m))"
  let ?A = "concat (map (group_candidates m) gs1)" and ?B = "group_candidates m g"
    and ?C = "concat (map (group_candidates m) gs2)"
  have cs: "candidates res m = ?A @ ?B @ ?C" by (simp add: candidates_def gs)
  have A: "?k < cand_key c" if "c \<in> set ?A" for c
  proof -
    have "c \<in> set (candidates res m)" using that cs by simp
    moreover have "kind (fst (snd c)) \<noteq> kindExact"
      using that none by (fastforce simp: group_candidates_def rule_match_def split: if_splits)
    ultimately show ?thesis
      using exact_candidate(1) [of c res m] by (cases c) (auto simp: cand_key_def less_le)
  qed
  have C: "?k \<le> cand_key c" if "c \<in> set ?C" for c
    using that cs exact_candidate(1) [of c res m] by simp
  have B: "(g, r, int (length m)) \<in> set ?B"
    using r by (auto simp: group_candidates_def rule_match_def intro!: rev_image_eqI [of r])
  then obtain b where b: "first_min cand_key ?B = Some b"
    by (cases "first_min cand_key ?B") auto
  have kb: "cand_key b = ?k"
  proof (rule antisym)
    show "cand_key b \<le> ?k"
      using first_min_le [OF b B] r by (simp add: cand_key_def)
    show "?k \<le> cand_key b"
      using first_min_in [OF b] exact_candidate(1) [of b res m] cs by simp
  qed
  obtain r' l where "b = (g, r', l)"
    using first_min_in [OF b] by (auto simp: group_candidates_def)
  moreover have "first_min cand_key (candidates res m) = Some b"
    unfolding cs by (rule first_min_middle [OF b]) (simp_all only: kb A C)
  ultimately show ?thesis by blast
qed

text \<open>
  an exact rule wins: the first registered group with an exact rule for the method is
  the one returned, whatever prefix and regex rules match and wherever they stand.
\<close>

theorem Resolve_exact_wins:
  assumes "find (\<lambda>g. \<exists>r \<in> set (rules g). kind r = kindExact \<and> pattern r = m) (groups res) = Some g"
  shows "Resolve res m = (name g, policy g, True)"
proof -
  from assms obtain i where i: "i < length (groups res)" "groups res ! i = g"
      "\<exists>r \<in> set (rules g). kind r = kindExact \<and> pattern r = m"
      "\<forall>j < i. \<not> (\<exists>r \<in> set (rules (groups res ! j)). kind r = kindExact \<and> pattern r = m)"
    by (auto simp: find_Some_iff)
  have "groups res = take i (groups res) @ g # drop (Suc i) (groups res)"
    using i(1,2) by (metis id_take_nth_drop)
  moreover have "\<forall>g' \<in> set (take i (groups res)). \<forall>r' \<in> set (rules g').
      kind r' = kindExact \<longrightarrow> pattern r' \<noteq> m"
  proof (intro ballI impI)
    fix g' r' assume "g' \<in> set (take i (groups res))" "r' \<in> set (rules g')" "kind r' = kindExact"
    moreover then obtain j where "j < i" "groups res ! j = g'"
      by (auto simp: in_set_conv_nth)
    ultimately show "pattern r' \<noteq> m" using i(4) by blast
  qed
  moreover obtain r where "r \<in> set (rules g)" "kind r = kindExact" "pattern r = m"
    using i(3) by blast
  ultimately obtain r' l where "first_min cand_key (candidates res m) = Some (g, r', l)"
    using first_exact_group by blast
  then show ?thesis by (simp add: Resolve_best)
qed

text \<open>
  without an exact rule for the method, a longest matching prefix wins: the group
  returned has a matching prefix rule, and no matching prefix rule of any group is longer.
\<close>

theorem Resolve_longest_prefix:
  assumes "\<forall>g \<in> set (groups res). \<forall>r \<in> set (rules g). kind r = kindExact \<longrightarrow> pattern r \<noteq> m"
    and "g0 \<in> set (groups res)" "r0 \<in> set (rules g0)" "kind r0 = kindPrefix" "prefix (pattern r0) m"
  shows "\<exists>g \<in> set (groups res). \<exists>r \<in> set (rules g).
    kind r = kindPrefix \<and> prefix (pattern r) m \<and> Resolve res m = (name g, policy g, True) \<and>
    (\<forall>g' \<in> set (groups res). \<forall>r' \<in> set (rules g').
       kind r' = kindPrefix \<and> prefix (pattern r') m \<longrightarrow> length (pattern r') \<le> length (pattern r))"
proof -
  have in_cands: "(g', r', int (length (pattern r'))) \<in> set (candidates res m)"
    if "g' \<in> set (groups res)" "r' \<in> set (rules g')" "kind r' = kindPrefix" "prefix (pattern r') m"
    for g' r'
    using that by (force simp: set_candidates rule_applies_kinds rule_match_def)
  from in_cands [OF assms(2-5)] obtain c where c: "first_min cand_key (candidates res m) = Some c"
    by (cases "first_min cand_key (candidates res m)") auto
  then obtain g r where g: "g \<in> set (groups res)" "r \<in> set (rules g)" "rule_applies r m"
      and cgr: "c = (g, r, snd (rule_match r m))"
    using first_min_in [OF c] by (auto simp: set_candidates)
  have "cand_key c \<le> cand_key (g0, r0, int (length (pattern r0)))"
    using first_min_le [OF c] in_cands [OF assms(2-5)] by blast
  moreover have "kind r \<noteq> kindExact"
    using assms(1) g rule_applies_kinds(1) [of r m] by blast
  ultimately have k: "kind r = kindPrefix"
    using assms(4) cgr
    by (cases "kind r") (auto simp: cand_key_def less_eq_prod_def less_prod_def less_matchKind_def
        less_eq_matchKind_def)
  then have p: "prefix (pattern r) m" and l: "snd (rule_match r m) = int (length (pattern r))"
    using g(3) by (auto simp: rule_applies_kinds rule_match_def)
  have longest: "length (pattern r') \<le> length (pattern r)"
    if "g' \<in> set (groups res)" "r' \<in> set (rules g')" "kind r' = kindPrefix" "prefix (pattern r') m"
    for g' r'
    using first_min_le [OF c in_cands [OF that]] that(3) k l cgr
    by (auto simp: cand_key_def less_eq_prod_def less_prod_def less_matchKind_def)
  have "Resolve res m = (name g, policy g, True)"
    using c cgr by (simp add: Resolve_best)
  with g k p longest show ?thesis by blast
qed

lemma group_candidates_none:
  "\<forall>r \<in> set (rules g). \<not> rule_applies r m \<Longrightarrow> group_candidates m g = []"
  by (simp add: group_candidates_def rule_applies_def filter_empty_conv)

text \<open>
  groups without a rule for the method do not influence the result: they can be added
  or removed anywhere in the registration order.
\<close>

theorem Resolve_frame:
  assumes "\<forall>r \<in> set (rules g). \<not> rule_applies r m"
  shows "Resolve (NewResolver (gs @ g # gs')) m = Resolve (NewResolver (gs @ gs')) m"
  using assms by (simp add: Resolve_best candidates_def NewResolver_def group_candidates_none)

text \<open>
  the builder says what it reads: a group built with one exact, one prefix and one
  regex rule and a policy is found for exactly the methods equal to the first, starting with
  the second or matched by the third, with its name and its policy; an invalid regex panics
  and builds nothing.
\<close>

theorem builder_matches:
  "(case GroupBuilder_Regex compile (GroupBuilder_Prefix (GroupBuilder_Exact (Group n) e) p) x of
      Panic _ \<Rightarrow> compile x = None
    | Return g \<Rightarrow>
        (\<exists>f. compile x = Some f \<and>
          Resolve (NewResolver [GroupBuilder_Policy g pl]) m =
            (if m \<noteq> e \<and> \<not> prefix p m \<and> f m = None then ([], None, False) else (n, Some pl, True))))"
proof (cases "compile x")
  case None
  then show ?thesis by (simp add: GroupBuilder_Regex_def)
next
  case (Some f)
  then show ?thesis
    by (auto simp: GroupBuilder_Regex_def GroupBuilder_Prefix_def GroupBuilder_Exact_def Group_def
        GroupBuilder_Policy_def NewResolver_def Resolve_def resolve_group_def resolve_rule_def
        resolve_init_def rule_match_def Let_def split: option.splits)
qed

section \<open>Witnesses\<close>

text \<open>The resolver of the repository's tests ``exact beats prefix'' and ``longer prefix wins''.\<close>

definition plain_policy :: "int \<Rightarrow> Policy" where
  "plain_policy t = \<lparr>RateLimit = None, Timeout = t, AuthRequired = False\<rparr>"

definition example_resolver :: Resolver where
  "example_resolver = NewResolver
     [GroupBuilder_Policy (GroupBuilder_Prefix (Group ''short'') ''/svc.'') (plain_policy 1),
      GroupBuilder_Policy (GroupBuilder_Prefix (Group ''long'') ''/svc.Service/'') (plain_policy 2),
      GroupBuilder_Policy (GroupBuilder_Exact (Group ''exact'') ''/svc.Service/Get'') (plain_policy 3)]"

lemma example_resolver_unfold:
  "groups example_resolver =
     [\<lparr>name = ''short'', rules = [\<lparr>kind = kindPrefix, pattern = ''/svc.'', re = None\<rparr>],
       policy = Some (plain_policy 1)\<rparr>,
      \<lparr>name = ''long'', rules = [\<lparr>kind = kindPrefix, pattern = ''/svc.Service/'', re = None\<rparr>],
       policy = Some (plain_policy 2)\<rparr>,
      \<lparr>name = ''exact'', rules = [\<lparr>kind = kindExact, pattern = ''/svc.Service/Get'', re = None\<rparr>],
       policy = Some (plain_policy 3)\<rparr>]"
  by (simp add: example_resolver_def NewResolver_def GroupBuilder_Policy_def GroupBuilder_Prefix_def
      GroupBuilder_Exact_def Group_def)

theorem Resolve_priority_witness:
  "\<exists>us g r l vs. candidates example_resolver ''/svc.Service/Get'' = us @ (g, r, l) # vs \<and>
     ''exact'' = name g \<and> Some (plain_policy 3) = policy g \<and>
     (\<forall>u \<in> set us. cand_key (g, r, l) < cand_key u) \<and> (\<forall>v \<in> set vs. cand_key (g, r, l) \<le> cand_key v)"
proof (rule Resolve_priority)
  show "Resolve example_resolver ''/svc.Service/Get'' = (''exact'', Some (plain_policy 3), True)"
    by (simp add: Resolve_def example_resolver_unfold resolve_group_def resolve_rule_def
        resolve_init_def rule_match_def Let_def)
qed

theorem Resolve_exact_wins_witness:
  "Resolve example_resolver ''/svc.Service/Get'' = (''exact'', Some (plain_policy 3), True)"
  using Resolve_exact_wins [of "''/svc.Service/Get''" example_resolver]
  by (simp add: example_resolver_unfold)

theorem Resolve_longest_prefix_witness:
  "\<exists>g \<in> set (groups example_resolver). \<exists>r \<in> set (rules g).
     kind r = kindPrefix \<and> prefix (pattern r) ''/svc.Service/List'' \<and>
     Resolve example_resolver ''/svc.Service/List'' = (name g, policy g, True) \<and>
     (\<forall>g' \<in> set (groups example_resolver). \<forall>r' \<in> set (rules g').
       kind r' = kindPrefix \<and> prefix (pattern r') ''/svc.Service/List''
         \<longrightarrow> length (pattern r') \<le> length (pattern r))"
  by (rule Resolve_longest_prefix [of _ _ "groups example_resolver ! 0"
        "rules (groups example_resolver ! 0) ! 0"])
     (simp_all add: example_resolver_unfold)

theorem Resolve_frame_witness:
  "Resolve (NewResolver ([groups example_resolver ! 0] @ groups example_resolver ! 2 # []))
      ''/svc.Service/List'' =
   Resolve (NewResolver ([groups example_resolver ! 0] @ [])) ''/svc.Service/List''"
  by (rule Resolve_frame) (simp add: example_resolver_unfold rule_applies_kinds)

end
