(* ===== verification/Float64.thy ===== *)
theory Float64
  imports Complex_Main Prelude
begin

text \<open>
  Go's \<open>float64\<close>: IEEE 754 double precision with round-to-nearest-even, as far as the
  library's arithmetic goes (package retry computes delays in it, package interceptors a
  rate).  A finite value is the rational it denotes; the two zeros are one value, which the
  library's expressions cannot tell apart.  Every operation rounds its exact result.
  Conversions to integers truncate.
\<close>

section \<open>Rounding\<close>

definition pow2 :: "int \<Rightarrow> rat" where
  "pow2 e = (if 0 \<le> e then 2 ^ nat e else 1 / 2 ^ nat (- e))"

text \<open>The exponent of the highest bit of a positive integer, and of a positive rational.\<close>

function ilog2 :: "int \<Rightarrow> int" where
  "ilog2 n = (if n < 2 then 0 else 1 + ilog2 (n div 2))"
  by pat_completeness auto
termination
  by (relation "measure nat") auto

declare ilog2.simps [simp del]

definition f64_exp :: "rat \<Rightarrow> int" where
  "f64_exp q =
     (let (n, d) = quotient_of q; k = ilog2 n - ilog2 d
      in if pow2 k \<le> q then k else k - 1)"

definition round_half_even :: "rat \<Rightarrow> int" where
  "round_half_even q =
     (let f = \<lfloor>q\<rfloor>; r = q - of_int f
      in if r < 1 / 2 then f
         else if r > 1 / 2 then f + 1
         else if even f then f else f + 1)"

text \<open>The exponent of the last place: 52 bits below the first, and at least \<open>-1074\<close>.\<close>

definition ulp_exp :: "rat \<Rightarrow> int" where
  "ulp_exp q = max (f64_exp q - 52) (- 1074)"

definition round_pos :: "rat \<Rightarrow> rat" where
  "round_pos q = of_int (round_half_even (q / pow2 (ulp_exp q))) * pow2 (ulp_exp q)"

datatype f64 = Fin rat | PInf | NInf | NaN

definition f64_max_bound :: rat where
  "f64_max_bound = 2 ^ 1024"

definition f64_round :: "rat \<Rightarrow> f64" where
  "f64_round q =
     (if q = 0 then Fin 0
      else if q > 0 then (let r = round_pos q in if r < f64_max_bound then Fin r else PInf)
      else (let r = round_pos (- q) in if r < f64_max_bound then Fin (- r) else NInf))"

section \<open>Operations\<close>

definition f64_of_int :: "int \<Rightarrow> f64" where
  "f64_of_int i = f64_round (of_int i)"

fun f64_neg :: "f64 \<Rightarrow> f64" where
  "f64_neg (Fin x) = Fin (- x)"
| "f64_neg PInf = NInf"
| "f64_neg NInf = PInf"
| "f64_neg NaN = NaN"

fun f64_add :: "f64 \<Rightarrow> f64 \<Rightarrow> f64" where
  "f64_add (Fin x) (Fin y) = f64_round (x + y)"
| "f64_add NaN _ = NaN"
| "f64_add _ NaN = NaN"
| "f64_add PInf NInf = NaN"
| "f64_add NInf PInf = NaN"
| "f64_add PInf _ = PInf"
| "f64_add NInf _ = NInf"
| "f64_add (Fin _) PInf = PInf"
| "f64_add (Fin _) NInf = NInf"

definition f64_sub :: "f64 \<Rightarrow> f64 \<Rightarrow> f64" where
  "f64_sub a b = f64_add a (f64_neg b)"

text \<open>The infinity with the sign of a finite value; infinity times zero is NaN.\<close>

definition inf_times :: "bool \<Rightarrow> rat \<Rightarrow> f64" where
  "inf_times pos x = (if x = 0 then NaN else if (0 < x) = pos then PInf else NInf)"

fun f64_mul :: "f64 \<Rightarrow> f64 \<Rightarrow> f64" where
  "f64_mul (Fin x) (Fin y) = f64_round (x * y)"
| "f64_mul NaN _ = NaN"
| "f64_mul _ NaN = NaN"
| "f64_mul PInf (Fin y) = inf_times True y"
| "f64_mul NInf (Fin y) = inf_times False y"
| "f64_mul (Fin x) PInf = inf_times True x"
| "f64_mul (Fin x) NInf = inf_times False x"
| "f64_mul PInf PInf = PInf"
| "f64_mul NInf NInf = PInf"
| "f64_mul PInf NInf = NInf"
| "f64_mul NInf PInf = NInf"

text \<open>Division; a zero divisor counts as \<open>+0\<close>, the only zero the library divides by.\<close>

fun f64_div :: "f64 \<Rightarrow> f64 \<Rightarrow> f64" where
  "f64_div (Fin x) (Fin y) =
     (if y = 0 then (if x = 0 then NaN else if x > 0 then PInf else NInf)
      else f64_round (x / y))"
| "f64_div NaN _ = NaN"
| "f64_div _ NaN = NaN"
| "f64_div (Fin _) _ = Fin 0"
| "f64_div PInf (Fin y) = (if y \<ge> 0 then PInf else NInf)"
| "f64_div NInf (Fin y) = (if y \<ge> 0 then NInf else PInf)"
| "f64_div _ _ = NaN"

fun f64_less :: "f64 \<Rightarrow> f64 \<Rightarrow> bool" where
  "f64_less (Fin x) (Fin y) = (x < y)"
| "f64_less NaN _ = False"
| "f64_less _ NaN = False"
| "f64_less NInf NInf = False"
| "f64_less NInf _ = True"
| "f64_less PInf _ = False"
| "f64_less (Fin _) PInf = True"
| "f64_less (Fin _) NInf = False"

text \<open>\<open>math.Pow(2, n)\<close> for an integer \<open>n\<close>: exact, \<open>+Inf\<close> from 1024 on, subnormal or zero below.\<close>

definition f64_pow2 :: "int \<Rightarrow> f64" where
  "f64_pow2 n = (if n \<ge> 1024 then PInf else f64_round (pow2 n))"

definition trunc_rat :: "rat \<Rightarrow> int" where
  "trunc_rat q = (if q < 0 then - \<lfloor>- q\<rfloor> else \<lfloor>q\<rfloor>)"

text \<open>
  Conversion to \<open>int64\<close> truncates towards zero.  Outside the range (and for infinities and
  NaN) the result is implementation-dependent: \<open>oob\<close> is what the platform gives.
\<close>

fun f64_to_i64 :: "(f64 \<Rightarrow> int) \<Rightarrow> f64 \<Rightarrow> int" where
  "f64_to_i64 oob (Fin x) = (if in_i64 (trunc_rat x) then trunc_rat x else oob (Fin x))"
| "f64_to_i64 oob x = oob x"

section \<open>Rounding is exact on doubles and monotone\<close>


lemma pow2_powi: "pow2 e = 2 powi e"
  by (simp add: pow2_def power_int_def inverse_eq_divide power_one_over)

lemma pow2_pos [simp]: "0 < pow2 e"
  by (simp add: pow2_powi)

lemma pow2_neq_0 [simp]: "pow2 e \<noteq> 0"
  using pow2_pos [of e] by linarith

lemma pow2_0 [simp]: "pow2 0 = 1"
  by (simp add: pow2_def)

lemma pow2_add: "pow2 (a + b) = pow2 a * pow2 b"
  by (simp add: pow2_powi power_int_add)

lemma pow2_diff: "pow2 (a - b) = pow2 a / pow2 b"
  by (simp add: pow2_powi power_int_diff)

lemma pow2_mono: "a \<le> b \<Longrightarrow> pow2 a \<le> pow2 b"
  by (simp add: pow2_powi power_int_increasing)

lemma pow2_less_iff: "pow2 a < pow2 b \<longleftrightarrow> a < b"
  by (metis linorder_not_less nless_le pow2_mono pow2_powi power_int_strict_increasing
      one_less_numeral_iff semiring_norm(76))

lemma pow2_int: "0 \<le> e \<Longrightarrow> \<exists>k. pow2 e = of_int k"
  by (rule exI [of _ "2 ^ nat e"]) (simp add: pow2_def)

lemma ilog2_bounds: "0 < n \<Longrightarrow> 0 \<le> ilog2 n \<and> pow2 (ilog2 n) \<le> of_int n \<and> of_int n < pow2 (ilog2 n + 1)"
proof (induction n rule: ilog2.induct)
  case (1 n)
  show ?case
  proof (cases "n < 2")
    case True
    with "1.prems" have "n = 1" by simp
    then show ?thesis by (simp add: ilog2.simps pow2_def)
  next
    case False
    let ?e = "ilog2 (n div 2)"
    have e: "ilog2 n = 1 + ?e" using False by (subst ilog2.simps) simp
    from "1.IH" [OF False] False have IH: "0 \<le> ?e" "pow2 ?e \<le> of_int (n div 2)"
      "of_int (n div 2) < pow2 (?e + 1)" by auto
    obtain k where k: "pow2 (?e + 1) = of_int k" using pow2_int [of "?e + 1"] IH(1) by auto
    have "n div 2 < k" using IH(3) k by simp
    then have "n < 2 * k" by linarith
    then have "of_int n < 2 * pow2 (?e + 1)" using k
      by (metis of_int_less_iff of_int_mult of_int_numeral)
    moreover have "2 * pow2 ?e \<le> of_int n"
    proof -
      have "2 * of_int (n div 2) \<le> (of_int n :: rat)"
        by (metis (no_types) mult.commute of_int_le_iff of_int_mult of_int_numeral
            pos_mod_sign zero_less_numeral add_le_same_cancel1 div_mult_mod_eq le_add_same_cancel1)
      with IH(2) show ?thesis by linarith
    qed
    ultimately show ?thesis
      using IH(1) by (simp add: e pow2_add pow2_def [of 1] pow2_def [of 2] algebra_simps)
  qed
qed

lemma f64_exp_bounds:
  assumes "0 < q"
  shows "pow2 (f64_exp q) \<le> q" and "q < pow2 (f64_exp q + 1)"
proof -
  obtain n d where nd: "quotient_of q = (n, d)" by (cases "quotient_of q")
  have d: "0 < d" using quotient_of_denom_pos [OF nd] .
  have q: "q = of_int n / of_int d" using quotient_of_div [OF nd] .
  have n: "0 < n" using assms d q by (simp add: zero_less_divide_iff)
  let ?a = "ilog2 n" and ?b = "ilog2 d"
  note N = ilog2_bounds [OF n] and D = ilog2_bounds [OF d]
  have up: "q < pow2 (?a - ?b + 1)"
  proof -
    have "q * pow2 ?b \<le> q * of_int d" using D assms by (simp add: mult_left_mono)
    also have "\<dots> = of_int n" using d q by simp
    also have "\<dots> < pow2 (?a + 1)" using N by simp
    finally have "q < pow2 (?a + 1) / pow2 ?b" by (simp add: pos_less_divide_eq)
    then show ?thesis by (metis add.commute add_diff_eq pow2_diff)
  qed
  have low: "pow2 (?a - ?b - 1) \<le> q"
  proof -
    have "pow2 ?a \<le> of_int n" using N by simp
    also have "\<dots> = q * of_int d" using d q by simp
    also have "\<dots> \<le> q * pow2 (?b + 1)" using D assms by (simp add: mult_left_mono less_imp_le)
    finally have "pow2 ?a / pow2 (?b + 1) \<le> q" by (simp add: pos_divide_le_eq)
    then show ?thesis by (metis diff_diff_add pow2_diff)
  qed
  have e: "f64_exp q = (if pow2 (?a - ?b) \<le> q then ?a - ?b else ?a - ?b - 1)"
    by (simp add: f64_exp_def nd Let_def)
  show "pow2 (f64_exp q) \<le> q" using low by (simp add: e)
  show "q < pow2 (f64_exp q + 1)" using up by (simp add: e not_le)
qed

lemma f64_exp_mono:
  assumes "0 < p" "p \<le> q"
  shows "f64_exp p \<le> f64_exp q"
proof -
  have "pow2 (f64_exp p) < pow2 (f64_exp q + 1)"
    using f64_exp_bounds [of p] f64_exp_bounds [of q] assms by linarith
  then show ?thesis by (simp add: pow2_less_iff)
qed

lemma round_half_even_int [simp]: "round_half_even (of_int k) = k"
  by (simp add: round_half_even_def)

lemma round_half_even_mono:
  assumes "p \<le> q" shows "round_half_even p \<le> round_half_even q"
proof (cases "\<lfloor>p\<rfloor> = \<lfloor>q\<rfloor>")
  case True
  then show ?thesis using assms by (simp add: round_half_even_def Let_def)
next
  case False
  then have "\<lfloor>p\<rfloor> + 1 \<le> \<lfloor>q\<rfloor>" using floor_mono [OF assms] by simp
  moreover have "round_half_even p \<le> \<lfloor>p\<rfloor> + 1" "\<lfloor>q\<rfloor> \<le> round_half_even q"
    by (simp_all add: round_half_even_def Let_def)
  ultimately show ?thesis by simp
qed

text \<open>A multiple of the rounding grid bounds the rounded value from its own side.\<close>

definition on_grid :: "rat \<Rightarrow> int \<Rightarrow> bool" where
  "on_grid y u \<longleftrightarrow> (\<exists>k. y = of_int k * pow2 u)"

lemma on_grid_pow2: "u \<le> e \<Longrightarrow> on_grid (pow2 e) u"
proof -
  assume "u \<le> e"
  then obtain k where "pow2 (e - u) = of_int k" using pow2_int [of "e - u"] by auto
  then have "pow2 e = of_int k * pow2 u" using pow2_add [of "e - u" u] by simp
  then show ?thesis by (auto simp: on_grid_def)
qed

lemma round_pos_le: "on_grid y (ulp_exp q) \<Longrightarrow> q \<le> y \<Longrightarrow> round_pos q \<le> y"
proof -
  assume "on_grid y (ulp_exp q)" "q \<le> y"
  then obtain k where k: "y = of_int k * pow2 (ulp_exp q)" by (auto simp: on_grid_def)
  with \<open>q \<le> y\<close> have "q / pow2 (ulp_exp q) \<le> of_int k" by (simp add: pos_divide_le_eq)
  then have "round_half_even (q / pow2 (ulp_exp q)) \<le> k"
    using round_half_even_mono [of "q / pow2 (ulp_exp q)" "of_int k"] by simp
  then show ?thesis by (simp add: round_pos_def k)
qed

lemma round_pos_ge: "on_grid y (ulp_exp q) \<Longrightarrow> y \<le> q \<Longrightarrow> y \<le> round_pos q"
proof -
  assume "on_grid y (ulp_exp q)" "y \<le> q"
  then obtain k where k: "y = of_int k * pow2 (ulp_exp q)" by (auto simp: on_grid_def)
  with \<open>y \<le> q\<close> have "of_int k \<le> q / pow2 (ulp_exp q)" by (simp add: pos_le_divide_eq)
  then have "k \<le> round_half_even (q / pow2 (ulp_exp q))"
    using round_half_even_mono [of "of_int k" "q / pow2 (ulp_exp q)"] by simp
  then show ?thesis by (simp add: round_pos_def k)
qed

lemma round_pos_exact: "on_grid q (ulp_exp q) \<Longrightarrow> round_pos q = q"
  by (intro antisym round_pos_le round_pos_ge) auto

text \<open>Rounding is monotone.\<close>

lemma round_pos_mono:
  assumes "0 < p" "p \<le> q"
  shows "round_pos p \<le> round_pos q"
proof (cases "ulp_exp p = ulp_exp q")
  case True
  have "p / pow2 (ulp_exp q) \<le> q / pow2 (ulp_exp q)"
    using assms by (simp add: divide_right_mono less_imp_le)
  then show ?thesis by (simp add: round_pos_def True round_half_even_mono)
next
  case False
  have "f64_exp p \<le> f64_exp q" using f64_exp_mono [OF assms] .
  with False have u: "ulp_exp q = f64_exp q - 52" "f64_exp p < f64_exp q"
      "ulp_exp p \<le> f64_exp q" by (auto simp: ulp_exp_def)
  have "p < pow2 (f64_exp p + 1)" using f64_exp_bounds(2) [OF assms(1)] .
  also have "\<dots> \<le> pow2 (f64_exp q)" using u(2) by (intro pow2_mono) simp
  finally have "round_pos p \<le> pow2 (f64_exp q)"
    using u(3) by (intro round_pos_le on_grid_pow2) auto
  also have "pow2 (f64_exp q) \<le> round_pos q"
    using u(1) f64_exp_bounds(1) [of q] assms by (intro round_pos_ge on_grid_pow2) auto
  finally show ?thesis .
qed

text \<open>Doubles: values with a 53-bit significand and an exponent of at least \<open>-1074\<close>.\<close>

definition is_double :: "rat \<Rightarrow> bool" where
  "is_double x \<longleftrightarrow> (\<exists>m e. 0 \<le> m \<and> m < 2 ^ 53 \<and> - 1074 \<le> e \<and> x = of_int m * pow2 e)"

lemma round_pos_double:
  assumes "is_double x" "0 < x"
  shows "round_pos x = x"
proof -
  from assms(1) obtain m e where m: "0 \<le> m" "m < 2 ^ 53" "- 1074 \<le> e" "x = of_int m * pow2 e"
    by (auto simp: is_double_def)
  have "pow2 (f64_exp x) \<le> x" using f64_exp_bounds(1) [OF assms(2)] .
  also have "x < pow2 53 * pow2 e"
  proof -
    have "(of_int m :: rat) < of_int (2 ^ 53)" using m(2) by (simp only: of_int_less_iff)
    then show ?thesis by (simp add: m(4) pow2_def [of 53])
  qed
  finally have "f64_exp x < 53 + e" by (simp add: pow2_less_iff flip: pow2_add)
  then have "ulp_exp x \<le> e" using m(3) by (simp add: ulp_exp_def)
  then obtain k where "pow2 e = of_int k * pow2 (ulp_exp x)"
    using on_grid_pow2 by (auto simp: on_grid_def)
  then have "x = of_int (m * k) * pow2 (ulp_exp x)" by (simp add: m(4))
  then have "on_grid x (ulp_exp x)" unfolding on_grid_def by blast
  then show ?thesis by (rule round_pos_exact)
qed

lemma is_double_int: "0 \<le> m \<Longrightarrow> m < 2 ^ 53 \<Longrightarrow> is_double (of_int m)"
  unfolding is_double_def by (intro exI [of _ m] exI [of _ 0]) simp

lemma is_double_scale: "is_double x \<Longrightarrow> 0 \<le> k \<Longrightarrow> is_double (x * pow2 k)"
proof -
  assume "is_double x" "0 \<le> k"
  then obtain m e where "0 \<le> m" "m < 2 ^ 53" "- 1074 \<le> e" "x = of_int m * pow2 e"
    by (auto simp: is_double_def)
  with \<open>0 \<le> k\<close> show ?thesis
    unfolding is_double_def by (intro exI [of _ m] exI [of _ "e + k"]) (simp add: pow2_add)
qed

lemma f64_round_double:
  assumes "is_double x" "0 \<le> x"
  shows "f64_round x = (if x < f64_max_bound then Fin x else PInf)"
  using round_pos_double [OF assms(1)] assms(2)
  by (cases "x = 0") (auto simp: f64_round_def f64_max_bound_def Let_def)

lemma f64_of_int_exact: "0 \<le> k \<Longrightarrow> k < 2 ^ 53 \<Longrightarrow> f64_of_int k = Fin (of_int k)"
proof -
  assume k: "0 \<le> k" "k < 2 ^ 53"
  have "(of_int k :: rat) < of_int (2 ^ 1024)"
    unfolding of_int_less_iff using k(2) by (rule less_trans) (rule power_strict_increasing; simp)
  then show ?thesis
    using f64_round_double [OF is_double_int [OF k]] k(1) by (simp add: f64_of_int_def f64_max_bound_def)
qed

text \<open>A bound that is itself a double bounds the rounded value.\<close>

lemma f64_round_le:
  assumes "0 \<le> q" "q \<le> y" "is_double y" "y < f64_max_bound"
  shows "\<exists>r. f64_round q = Fin r \<and> 0 \<le> r \<and> r \<le> y"
proof (cases "q = 0")
  case True
  with assms show ?thesis by (simp add: f64_round_def)
next
  case False
  with assms have q: "0 < q" by simp
  have "round_pos q \<le> y"
    using round_pos_mono [OF q assms(2)] round_pos_double [OF assms(3)] q assms(2) by simp
  moreover have "0 \<le> round_pos q"
    using q by (intro round_pos_ge) (auto simp: on_grid_def intro: exI [of _ 0])
  ultimately show ?thesis using q assms(4) by (simp add: f64_round_def)
qed

section \<open>The error of rounding\<close>

text \<open>
  Half a unit in the last place: at most \<open>2^-53\<close> of the value, or \<open>2^-1075\<close> where that is
  more (below the normal range).
\<close>

lemma round_half_even_error: "\<bar>of_int (round_half_even q) - q\<bar> \<le> 1 / 2"
proof -
  have f: "0 \<le> q - of_int \<lfloor>q\<rfloor>" "q - of_int \<lfloor>q\<rfloor> < 1" by linarith+
  consider "round_half_even q = \<lfloor>q\<rfloor>" "q - of_int \<lfloor>q\<rfloor> \<le> 1 / 2"
    | "round_half_even q = \<lfloor>q\<rfloor> + 1" "1 / 2 \<le> q - of_int \<lfloor>q\<rfloor>"
    by (fastforce simp: round_half_even_def Let_def split: if_splits)
  then show ?thesis using f by cases (simp_all add: abs_le_iff)
qed

lemma round_pos_error:
  assumes "0 < q"
  shows "\<bar>round_pos q - q\<bar> \<le> q / 2 ^ 53 + pow2 (- 1075)"
proof -
  let ?u = "pow2 (ulp_exp q)"
  have "round_pos q - q = (of_int (round_half_even (q / ?u)) - q / ?u) * ?u"
    by (simp add: round_pos_def algebra_simps)
  then have "\<bar>round_pos q - q\<bar> = \<bar>of_int (round_half_even (q / ?u)) - q / ?u\<bar> * ?u"
    by (simp add: abs_mult abs_of_pos [OF pow2_pos])
  also have "\<dots> \<le> 1 / 2 * ?u" using round_half_even_error [of "q / ?u"] by (intro mult_right_mono) (simp_all add: less_imp_le)
  also have "1 / 2 * ?u \<le> q / 2 ^ 53 + pow2 (- 1075)"
  proof (cases "f64_exp q - 52 \<le> - 1074")
    case True
    then have "?u = pow2 1 * pow2 (- 1075)" by (simp add: ulp_exp_def max_def flip: pow2_add)
    then show ?thesis using assms by (simp add: pow2_def [of 1])
  next
    case False
    then have "?u = pow2 (f64_exp q) / pow2 52" by (simp add: ulp_exp_def max_def pow2_diff)
    also have "\<dots> \<le> q / pow2 52" using f64_exp_bounds(1) [OF assms] by (simp add: divide_right_mono less_imp_le)
    finally have "?u \<le> q / pow2 52" .
    then have "1 / 2 * ?u \<le> q / 2 ^ 53" by (simp add: pow2_def [of 52])
    then show ?thesis using pow2_pos [of "- 1075"] by linarith
  qed
  finally show ?thesis .
qed

lemma f64_round_error:
  assumes "\<bar>q\<bar> \<le> 2 ^ 1000"
  shows "\<exists>r. f64_round q = Fin r \<and> \<bar>r - q\<bar> \<le> \<bar>q\<bar> / 2 ^ 53 + pow2 (- 1075)"
proof -
  have bound: "round_pos p < f64_max_bound" if "0 < p" "p \<le> 2 ^ 1000" for p
  proof -
    have "round_pos p \<le> p + (p / 2 ^ 53 + pow2 (- 1075))" using round_pos_error [OF that(1)] by (simp add: abs_le_iff)
    also have "\<dots> \<le> p + (p + 1)"
      using that by (intro add_mono) (simp_all add: divide_le_eq pow2_def)
    also have "\<dots> \<le> 2 ^ 1000 + (2 ^ 1000 + 1)" using that by simp
    also have "\<dots> < f64_max_bound" by (simp add: f64_max_bound_def)
    finally show ?thesis .
  qed
  consider "q = 0" | "0 < q" | "q < 0" by linarith
  then show ?thesis
  proof cases
    case 2
    then show ?thesis using bound [of q] round_pos_error [of q] assms by (simp add: f64_round_def Let_def)
  next
    case 3
    have "\<bar>- round_pos (- q) - q\<bar> = \<bar>round_pos (- q) - - q\<bar>" by linarith
    then show ?thesis
      using 3 bound [of "- q"] round_pos_error [of "- q"] assms by (simp add: f64_round_def Let_def)
  qed (simp add: f64_round_def less_imp_le)
qed

lemma pow2_tiny: "pow2 (- 1075) \<le> 1 / 2 ^ 53 / 16"
  by (simp add: pow2_def)

text \<open>The same for a value of moderate size with a bound.\<close>

lemma f64_round_near:
  assumes "\<bar>q\<bar> \<le> k" "k \<le> 2 ^ 64" "h = 1 / 2 ^ 53"
  shows "\<exists>v. f64_round q = Fin v \<and> \<bar>v - q\<bar> \<le> k * h + h / 16"
proof -
  have "\<bar>q\<bar> \<le> 2 ^ 1000" by (rule order_trans [OF order_trans [OF assms(1,2)]]) simp
  then obtain v where "f64_round q = Fin v" "\<bar>v - q\<bar> \<le> \<bar>q\<bar> / 2 ^ 53 + pow2 (- 1075)"
    using f64_round_error by blast
  moreover have "\<bar>q\<bar> / 2 ^ 53 \<le> k * h" unfolding assms(3) using assms(1) by (simp add: divide_right_mono)
  ultimately show ?thesis using pow2_tiny assms(3) by fastforce
qed

text \<open>The relative error of a positive value that is not tiny.\<close>

lemma f64_round_close:
  assumes "h = 1 / 2 ^ 53" "h * h \<le> q" "q \<le> 2 ^ 1000"
  shows "\<exists>v. f64_round q = Fin v \<and> \<bar>v - q\<bar> \<le> 17 / 16 * (h * q)"
proof -
  have t: "pow2 (- 1075) \<le> 1 / 16 * h * (h * h)" unfolding assms(1) by (simp add: pow2_def)
  have h: "0 < h" using assms(1) by simp
  have "1 / 16 * h * (h * h) \<le> 1 / 16 * h * q" using assms(2) h by (intro mult_left_mono) simp_all
  with t have t: "pow2 (- 1075) \<le> 1 / 16 * h * q" by simp
  have q: "0 \<le> q" using assms(2) h by (simp add: order_trans [of 0 "h * h"])
  then obtain v where "f64_round q = Fin v" "\<bar>v - q\<bar> \<le> \<bar>q\<bar> / 2 ^ 53 + pow2 (- 1075)"
    using f64_round_error [of q] assms(3) by auto
  moreover have "\<bar>q\<bar> / 2 ^ 53 = h * q" using q by (simp add: assms(1))
  ultimately have "\<bar>v - q\<bar> \<le> h * q + 1 / 16 * h * q" using t by linarith
  with \<open>f64_round q = Fin v\<close> show ?thesis by (simp add: algebra_simps)
qed

lemma abs_mult_error:
  fixes a x :: rat
  assumes "\<bar>a - x\<bar> \<le> e" "\<bar>u - y\<bar> \<le> f" "\<bar>x\<bar> \<le> k" "\<bar>u\<bar> \<le> l"
  shows "\<bar>a * u - x * y\<bar> \<le> e * l + k * f"
proof -
  have "a * u - x * y = (a - x) * u + x * (u - y)" by (simp add: algebra_simps)
  also have "\<bar>\<dots>\<bar> \<le> \<bar>a - x\<bar> * \<bar>u\<bar> + \<bar>x\<bar> * \<bar>u - y\<bar>"
    by (metis abs_mult abs_triangle_ineq)
  also have "\<dots> \<le> e * l + k * f"
    using assms by (intro add_mono mult_mono) auto
  finally show ?thesis .
qed

end
