(* ===== verification/Ratelimit.thy ===== *)
theory Ratelimit
  imports Guards Policy Float64
begin

text \<open>
  Package ratelimit and interceptors/ratelimit.go: token buckets shared by pointer, and the
  per-group buckets created on demand from resolved policies.

  The buckets themselves are \<open>golang.org/x/time/rate\<close>, not part of the repository: creating
  one and asking it for a token are the fields of a record argument.  Limiters are shared by
  pointer (the global one by the unary and the stream interceptor), so they live in a store
  and a pointer is an index into it; so do the \<open>rateLimitState\<close> objects the interceptor
  closures capture.
\<close>

section \<open>The bucket store\<close>

text \<open>\<open>rate.NewLimiter(limit, burst)\<close>, and \<open>Allow()\<close> at a time of the clock.\<close>

record 'lim rate_api =
  rate_NewLimiter :: "f64 \<Rightarrow> int \<Rightarrow> 'lim"
  rate_Allow :: "int \<Rightarrow> 'lim \<Rightarrow> bool \<times> 'lim"

text \<open>
  \<open>rateLimitState\<close>: the address of the global limiter, the resolver, and the map from group
  names to limiter addresses.
\<close>

record rateLimitState =
  rl_global :: nat
  rl_resolver :: "Resolver option"
  rl_groups :: "string \<rightharpoonup> nat"

record 'lim rl_world = rand_world +
  clock :: int
  limiters :: "'lim list"
  rl_states :: "rateLimitState list"

definition NewLimiter ::
    "'lim rate_api \<Rightarrow> f64 \<Rightarrow> int \<Rightarrow> ('lim, 'x) rl_world_scheme \<Rightarrow> nat \<times> ('lim, 'x) rl_world_scheme" where
  "NewLimiter R rps burst w =
     (length (limiters w), w\<lparr>limiters := limiters w @ [rate_NewLimiter R rps burst]\<rparr>)"

definition Limiter_Allow ::
    "'lim rate_api \<Rightarrow> nat \<Rightarrow> ('lim, 'x) rl_world_scheme \<Rightarrow> bool \<times> ('lim, 'x) rl_world_scheme" where
  "Limiter_Allow R l w =
     (let (ok, lim') = rate_Allow R (clock w) (limiters w ! l)
      in (ok, w\<lparr>limiters := (limiters w)[l := lim']\<rparr>))"

section \<open>Choosing the limiter\<close>

text \<open>
  \<open>Duration.Seconds\<close>: whole seconds and the rest, each converted, the rest divided by
  \<open>1e9\<close>; integer division truncates towards zero.
\<close>

definition go_div :: "int \<Rightarrow> int \<Rightarrow> int" where
  "go_div a b = sgn a * sgn b * (\<bar>a\<bar> div \<bar>b\<bar>)"

definition go_mod :: "int \<Rightarrow> int \<Rightarrow> int" where
  "go_mod a b = a - b * go_div a b"

definition Duration_Seconds :: "int \<Rightarrow> f64" where
  "Duration_Seconds d =
     f64_add (f64_of_int (go_div d 1000000000))
             (f64_div (f64_of_int (go_mod d 1000000000)) (f64_of_int 1000000000))"

definition group_rate :: "RateLimitRule \<Rightarrow> f64" where
  "group_rate rl = f64_div (f64_of_int (Rate rl)) (Duration_Seconds (Window rl))"

text \<open>
  \<open>groupLimiter\<close> resolves the method a second time to get the name.  It is called with a
  non-nil resolver only; \<open>rl_resolver\<close> of a nil one would panic, which \<open>the\<close> leaves open.
\<close>

definition groupLimiter ::
    "'lim rate_api \<Rightarrow> nat \<Rightarrow> string \<Rightarrow> RateLimitRule \<Rightarrow> ('lim, 'x) rl_world_scheme
       \<Rightarrow> nat \<times> ('lim, 'x) rl_world_scheme" where
  "groupLimiter R st fullMethod rl w =
     (let s = rl_states w ! st;
          (n, _, _) = Resolve (the (rl_resolver s)) fullMethod
      in case rl_groups s n of
           Some l \<Rightarrow> (l, w)
         | None \<Rightarrow>
             (let (l, w') = NewLimiter R (group_rate rl) (Rate rl) w
              in (l, w'\<lparr>rl_states := (rl_states w')[st := s\<lparr>rl_groups := (rl_groups s)(n \<mapsto> l)\<rparr>]\<rparr>)))"

definition limiterFor ::
    "'lim rate_api \<Rightarrow> nat \<Rightarrow> string \<Rightarrow> ('lim, 'x) rl_world_scheme \<Rightarrow> nat \<times> ('lim, 'x) rl_world_scheme" where
  "limiterFor R st fullMethod w =
     (let s = rl_states w ! st
      in case rl_resolver s of
           None \<Rightarrow> (rl_global s, w)
         | Some res \<Rightarrow>
             (case Resolve res fullMethod of
                (_, Some p, True) \<Rightarrow>
                  (case RateLimit p of
                     Some rl \<Rightarrow> groupLimiter R st fullMethod rl w
                   | None \<Rightarrow> (rl_global s, w))
              | _ \<Rightarrow> (rl_global s, w)))"

section \<open>The interceptors\<close>

definition errRateLimited :: gerror where
  "errRateLimited = StatusError ResourceExhausted ''rate limit exceeded''"

text \<open>The body of the unary closure over the state at address \<open>st\<close>, and the stream one.\<close>

definition rate_limit_unary ::
    "'lim rate_api \<Rightarrow> nat \<Rightarrow> (('lim, 'x) rl_world_scheme, 'b, 'req, 'resp) unary_interceptor" where
  "rate_limit_unary R st = (\<lambda>ctx req info handler w.
     let (l, w1) = limiterFor R st info w;
         (allowed, w2) = Limiter_Allow R l w1
     in if \<not> allowed then (Return (None, Some errRateLimited), w2)
        else handler ctx req w2)"

definition rate_limit_stream ::
    "'lim rate_api \<Rightarrow> nat \<Rightarrow> (('lim, 'x) rl_world_scheme, 'b, 'srv, 'ss) stream_interceptor" where
  "rate_limit_stream R st = (\<lambda>srv ss info handler w.
     let (l, w1) = limiterFor R st info w;
         (allowed, w2) = Limiter_Allow R l w1
     in if \<not> allowed then (Return (Some errRateLimited), w2)
        else handler srv ss w2)"

text \<open>\<open>RateLimitUnary(l, r)\<close> and \<open>RateLimitStream(l, r)\<close> each allocate a state of their own.\<close>

definition new_rateLimitState ::
    "nat \<Rightarrow> Resolver option \<Rightarrow> ('lim, 'x) rl_world_scheme \<Rightarrow> nat \<times> ('lim, 'x) rl_world_scheme" where
  "new_rateLimitState l r w =
     (length (rl_states w),
      w\<lparr>rl_states := rl_states w @ [\<lparr>rl_global = l, rl_resolver = r, rl_groups = Map.empty\<rparr>]\<rparr>)"

definition RateLimitUnary ::
    "'lim rate_api \<Rightarrow> nat \<Rightarrow> Resolver option \<Rightarrow> ('lim, 'x) rl_world_scheme
       \<Rightarrow> (('lim, 'x) rl_world_scheme, 'b, 'req, 'resp) unary_interceptor \<times> ('lim, 'x) rl_world_scheme" where
  "RateLimitUnary R l r w =
     (let (st, w') = new_rateLimitState l r w in (rate_limit_unary R st, w'))"

definition RateLimitStream ::
    "'lim rate_api \<Rightarrow> nat \<Rightarrow> Resolver option \<Rightarrow> ('lim, 'x) rl_world_scheme
       \<Rightarrow> (('lim, 'x) rl_world_scheme, 'b, 'srv, 'ss) stream_interceptor \<times> ('lim, 'x) rl_world_scheme" where
  "RateLimitStream R l r w =
     (let (st, w') = new_rateLimitState l r w in (rate_limit_stream R st, w'))"

definition rl_verdict ::
    "'lim rate_api \<Rightarrow> nat \<Rightarrow> 'b gctx \<Rightarrow> string \<Rightarrow> (('lim, 'x) rl_world_scheme, gerror + 'b gctx) go" where
  "rl_verdict R st ctx info w =
     (let (l, w1) = limiterFor R st info w;
          (allowed, w2) = Limiter_Allow R l w1
      in (Return (if allowed then Inr ctx else Inl errRateLimited), w2))"

interpretation rl_u: unary_guard "rate_limit_unary R st" "rl_verdict R st" for R st
  by unfold_locales (auto simp: rate_limit_unary_def rl_verdict_def go_unfold split: prod.splits)

interpretation rl_s: stream_guard "rate_limit_stream R st" "rl_verdict R st" for R st
  by unfold_locales (auto simp: rate_limit_stream_def rl_verdict_def go_unfold split: prod.splits)

section \<open>The rate-limited group of a method\<close>

text \<open>The name and the rule of the group a method resolves to, when its policy has a rule.\<close>

definition limited_group :: "Resolver option \<Rightarrow> string \<Rightarrow> (string \<times> RateLimitRule) option" where
  "limited_group r m =
     (case r of
        None \<Rightarrow> None
      | Some res \<Rightarrow>
          (case Resolve res m of
             (n, Some p, True) \<Rightarrow> map_option (\<lambda>rl. (n, rl)) (RateLimit p)
           | _ \<Rightarrow> None))"

lemma limiterFor_eq:
  "limiterFor R st m w =
     (let s = rl_states w ! st
      in case limited_group (rl_resolver s) m of
           None \<Rightarrow> (rl_global s, w)
         | Some (n, rl) \<Rightarrow>
             (case rl_groups s n of
                Some l \<Rightarrow> (l, w)
              | None \<Rightarrow>
                  (length (limiters w),
                   w\<lparr>limiters := limiters w @ [rate_NewLimiter R (group_rate rl) (Rate rl)],
                     rl_states := (rl_states w)
                       [st := s\<lparr>rl_groups := (rl_groups s)(n \<mapsto> length (limiters w))\<rparr>]\<rparr>)))"
  by (auto simp: limiterFor_def limited_group_def groupLimiter_def NewLimiter_def Let_def
      split: option.splits prod.splits bool.splits)

section \<open>Interleavings\<close>

text \<open>
  Requests run concurrently: one looks its limiter up under the lock, and takes a token in a
  later step.  New global limiters and new states appear while servers are configured; a
  state is created over a limiter that is no group's.  Anything else, the clock included,
  leaves both stores as they are.
\<close>

definition group_limiters :: "('lim, 'x) rl_world_scheme \<Rightarrow> nat set" where
  "group_limiters w = {l. \<exists>s \<in> set (rl_states w). \<exists>n. rl_groups s n = Some l}"

inductive rl_step ::
    "'lim rate_api \<Rightarrow> ('lim, 'x) rl_world_scheme \<Rightarrow> ('lim, 'x) rl_world_scheme \<Rightarrow> bool"
  for R :: "'lim rate_api" where
  rl_limiter: "rl_step R w (snd (NewLimiter R rps burst w))"
| rl_install: "l < length (limiters w) \<Longrightarrow> l \<notin> group_limiters w \<Longrightarrow>
     rl_step R w (snd (new_rateLimitState l r w))"
| rl_lookup: "st < length (rl_states w) \<Longrightarrow> rl_step R w (snd (limiterFor R st m w))"
| rl_take: "l < length (limiters w) \<Longrightarrow> rl_step R w (snd (Limiter_Allow R l w))"
| rl_other: "limiters v = limiters w \<Longrightarrow> rl_states v = rl_states w \<Longrightarrow> rl_step R w v"

definition rl_init :: "('lim, 'x) rl_world_scheme \<Rightarrow> bool" where
  "rl_init w \<longleftrightarrow> limiters w = [] \<and> rl_states w = []"

text \<open>
  The invariant: every pointer is in the store; a group's limiter is nobody's global one, and
  belongs to one group of one state.
\<close>

definition rl_wf :: "('lim, 'x) rl_world_scheme \<Rightarrow> bool" where
  "rl_wf w \<longleftrightarrow>
     (\<forall>s \<in> set (rl_states w). rl_global s < length (limiters w) \<and> rl_global s \<notin> group_limiters w) \<and>
     (\<forall>l \<in> group_limiters w. l < length (limiters w)) \<and>
     (\<forall>i < length (rl_states w). \<forall>j < length (rl_states w). \<forall>n n' l.
        rl_groups (rl_states w ! i) n = Some l \<and> rl_groups (rl_states w ! j) n' = Some l
          \<longrightarrow> i = j \<and> n = n')"

lemma group_limitersI: "i < length (rl_states w) \<Longrightarrow> rl_groups (rl_states w ! i) n = Some l \<Longrightarrow> l \<in> group_limiters w"
  by (auto simp: group_limiters_def intro!: bexI [of _ "rl_states w ! i"])

lemma rl_wf_init: "rl_init w \<Longrightarrow> rl_wf w"
  by (simp add: rl_init_def rl_wf_def group_limiters_def)

lemma rl_wf_frame:
  "rl_states w' = rl_states w \<Longrightarrow> length (limiters w) \<le> length (limiters w') \<Longrightarrow> rl_wf w \<Longrightarrow> rl_wf w'"
  by (fastforce simp: rl_wf_def group_limiters_def)

lemma rl_wf_unique:
  "rl_wf w \<Longrightarrow> i < length (rl_states w) \<Longrightarrow> j < length (rl_states w) \<Longrightarrow>
   rl_groups (rl_states w ! i) n = Some l \<Longrightarrow> rl_groups (rl_states w ! j) n' = Some l \<Longrightarrow> i = j \<and> n = n'"
  unfolding rl_wf_def by blast

lemma rl_wf_install:
  assumes "rl_wf w" "l < length (limiters w)" "l \<notin> group_limiters w"
  shows "rl_wf (snd (new_rateLimitState l r w))"
proof -
  let ?w = "snd (new_rateLimitState l r w)"
  have g: "group_limiters ?w = group_limiters w"
    by (auto simp: group_limiters_def new_rateLimitState_def)
  have old: "i < length (rl_states w) \<and> rl_groups (rl_states w ! i) n = Some k"
    if "i < length (rl_states ?w)" "rl_groups (rl_states ?w ! i) n = Some k" for i n k
    using that by (auto simp: new_rateLimitState_def nth_append less_Suc_eq split: if_splits)
  have "i = j \<and> n = n'" if "i < length (rl_states ?w)" "j < length (rl_states ?w)"
      "rl_groups (rl_states ?w ! i) n = Some k" "rl_groups (rl_states ?w ! j) n' = Some k"
    for i j n n' k
    using rl_wf_unique [OF assms(1)] old [OF that(1,3)] old [OF that(2,4)] by blast
  then show ?thesis
    using assms g by (auto simp: rl_wf_def new_rateLimitState_def)
qed

text \<open>The new world of a first lookup in a group, and what it does to the invariant.\<close>

lemma rl_wf_add_group:
  assumes wf: "rl_wf w" and st: "st < length (rl_states w)" and fresh: "rl_groups (rl_states w ! st) n = None"
    and w': "rl_states w' = (rl_states w)
        [st := (rl_states w ! st)\<lparr>rl_groups := (rl_groups (rl_states w ! st))(n \<mapsto> length (limiters w))\<rparr>]"
      "length (limiters w') = Suc (length (limiters w))"
  shows "rl_wf w'"
proof -
  let ?l = "length (limiters w)"
  have nth: "rl_groups (rl_states w' ! i) k = Some l \<longleftrightarrow>
      rl_groups (rl_states w ! i) k = Some l \<or> i = st \<and> k = n \<and> l = ?l"
    if "i < length (rl_states w)" for i k l
    using that fresh w'(1) st by (auto simp: nth_list_update)
  have len: "length (rl_states w') = length (rl_states w)" by (simp add: w'(1))
  have gl: "group_limiters w' \<subseteq> insert ?l (group_limiters w)"
    using nth len by (fastforce simp: group_limiters_def in_set_conv_nth)
  have glob: "rl_global (rl_states w' ! i) = rl_global (rl_states w ! i)" if "i < length (rl_states w)" for i
    using that st by (cases "i = st") (simp_all add: w'(1))
  have old: "l < ?l" if "l \<in> group_limiters w" for l
    using wf that by (simp add: rl_wf_def)
  show ?thesis
    unfolding rl_wf_def
  proof (intro conjI ballI allI impI)
    fix s assume "s \<in> set (rl_states w')"
    then obtain i where i: "i < length (rl_states w)" "s = rl_states w' ! i" by (auto simp: in_set_conv_nth len)
    with wf glob have "rl_global s < ?l" "rl_global s \<notin> group_limiters w" by (auto simp: rl_wf_def)
    with gl w'(2) show "rl_global s < length (limiters w')" "rl_global s \<notin> group_limiters w'" by auto
  next
    fix l assume "l \<in> group_limiters w'"
    with gl old w'(2) show "l < length (limiters w')" by fastforce
  next
    fix i j k k' l
    assume ij: "i < length (rl_states w')" "j < length (rl_states w')"
      and eq: "rl_groups (rl_states w' ! i) k = Some l \<and> rl_groups (rl_states w' ! j) k' = Some l"
    have "rl_groups (rl_states w ! i) k = Some l \<and> rl_groups (rl_states w ! j) k' = Some l
        \<or> i = st \<and> k = n \<and> j = st \<and> k' = n"
      using eq ij len nth old group_limitersI by (metis less_irrefl)
    then show "i = j" "k = k'"
      using rl_wf_unique [OF wf] ij len by metis+
  qed
qed

lemma rl_wf_lookup:
  assumes "rl_wf w" "st < length (rl_states w)"
  shows "rl_wf (snd (limiterFor R st m w))"
proof (cases "\<exists>n rl. limited_group (rl_resolver (rl_states w ! st)) m = Some (n, rl) \<and> rl_groups (rl_states w ! st) n = None")
  case True
  then obtain n rl where new: "limited_group (rl_resolver (rl_states w ! st)) m = Some (n, rl)"
    "rl_groups (rl_states w ! st) n = None" by blast
  show ?thesis
    by (rule rl_wf_add_group [OF assms new(2)]) (simp_all add: limiterFor_eq Let_def new)
next
  case False
  then have "snd (limiterFor R st m w) = w" by (auto simp: limiterFor_eq Let_def split: option.splits)
  with assms show ?thesis by simp
qed

lemma rl_wf_step: "rl_wf s \<Longrightarrow> rl_step R s t \<Longrightarrow> rl_wf t"
proof (erule rl_step.cases, goal_cases)
  case (1 w rps burst)
  then show ?case by (auto simp: NewLimiter_def intro!: rl_wf_frame [of _ w])
next
  case (2 l w r)
  then show ?case by (simp add: rl_wf_install)
next
  case (3 st w m)
  then show ?case by (simp add: rl_wf_lookup)
next
  case (4 l w)
  then show ?case by (auto simp: Limiter_Allow_def split: prod.splits intro!: rl_wf_frame [of _ w])
next
  case (5 v w)
  then show ?case by (auto intro!: rl_wf_frame [of _ w])
qed

interpretation rl: inductive_invariant "rl_step R" rl_init rl_wf for R
  by unfold_locales (auto intro: rl_wf_init rl_wf_step)

section \<open>Budgets\<close>

text \<open>
  The abstract view: every request draws on a budget, the global limiter at an address or
  the one of a group in a state, and every budget has a bucket.  A group's bucket before its
  first request is the one that request will create.
\<close>

datatype budget = GlobalBudget nat | GroupBudget nat string

definition budget_of :: "('lim, 'x) rl_world_scheme \<Rightarrow> nat \<Rightarrow> string \<Rightarrow> budget" where
  "budget_of w st m =
     (case limited_group (rl_resolver (rl_states w ! st)) m of
        None \<Rightarrow> GlobalBudget (rl_global (rl_states w ! st))
      | Some (n, _) \<Rightarrow> GroupBudget st n)"

definition bucket :: "'lim rate_api \<Rightarrow> ('lim, 'x) rl_world_scheme \<Rightarrow> nat \<Rightarrow> string \<Rightarrow> 'lim" where
  "bucket R w st m =
     (case limited_group (rl_resolver (rl_states w ! st)) m of
        None \<Rightarrow> limiters w ! rl_global (rl_states w ! st)
      | Some (n, rl) \<Rightarrow>
          (case rl_groups (rl_states w ! st) n of
             Some l \<Rightarrow> limiters w ! l
           | None \<Rightarrow> rate_NewLimiter R (group_rate rl) (Rate rl)))"

text \<open>The world after a request has looked its limiter up and taken a token.\<close>

definition after_request ::
    "'lim rate_api \<Rightarrow> nat \<Rightarrow> string \<Rightarrow> ('lim, 'x) rl_world_scheme \<Rightarrow> ('lim, 'x) rl_world_scheme" where
  "after_request R st m w =
     (let (l, w1) = limiterFor R st m w in snd (Limiter_Allow R l w1))"

lemma lookup_bucket:
  "limiters (snd (limiterFor R st m w)) ! fst (limiterFor R st m w) = bucket R w st m"
  by (auto simp: limiterFor_eq bucket_def Let_def split: option.splits)

lemma lookup_clock [simp]: "clock (snd (limiterFor R st m w)) = clock w"
  by (auto simp: limiterFor_eq Let_def split: option.splits)

lemma after_request_parts:
  "rl_states (after_request R st m w) = rl_states (snd (limiterFor R st m w))"
  "clock (after_request R st m w) = clock w"
  "limiters (after_request R st m w) =
     (limiters (snd (limiterFor R st m w)))
       [fst (limiterFor R st m w) := snd (rate_Allow R (clock w) (bucket R w st m))]"
  by (simp_all add: after_request_def Limiter_Allow_def split_beta lookup_bucket)

lemma rl_verdict_eq:
  "rl_verdict R st ctx m w =
     (Return (if fst (rate_Allow R (clock w) (bucket R w st m)) then Inr ctx else Inl errRateLimited),
      after_request R st m w)"
  by (simp add: rl_verdict_def after_request_def Limiter_Allow_def split_beta lookup_bucket)

lemma lookup_less:
  assumes "rl_wf w" "st < length (rl_states w)"
  shows "fst (limiterFor R st m w) < length (limiters (snd (limiterFor R st m w)))"
proof -
  have "rl_states w ! st \<in> set (rl_states w)" using assms(2) by simp
  then show ?thesis
    using assms group_limitersI [OF assms(2)] by (auto simp: limiterFor_eq Let_def rl_wf_def split: option.splits)
qed

lemma lookup_states:
  assumes "st < length (rl_states w)"
  shows "length (rl_states (snd (limiterFor R st m w))) = length (rl_states w)"
    and "rl_resolver (rl_states (snd (limiterFor R st m w)) ! i) = rl_resolver (rl_states w ! i)"
    and "rl_global (rl_states (snd (limiterFor R st m w)) ! i) = rl_global (rl_states w ! i)"
  using assms by (auto simp: limiterFor_eq Let_def nth_list_update split: option.splits)

text \<open>A lookup changes no budget's bucket.\<close>

lemma lookup_keeps_buckets:
  assumes wf: "rl_wf w" and st: "st < length (rl_states w)" "st' < length (rl_states w)"
    and other: "budget_of w st m \<noteq> budget_of w st' m'"
  shows "bucket R (snd (limiterFor R st m w)) st' m' = bucket R w st' m'"
proof -
  have g: "rl_global (rl_states w ! st') < length (limiters w)"
    using wf nth_mem [OF st(2)] by (auto simp: rl_wf_def)
  have l: "l < length (limiters w)" if "rl_groups (rl_states w ! st') n = Some l" for n l
    using wf group_limitersI [OF st(2) that] by (auto simp: rl_wf_def)
  show ?thesis
    using st other g by (auto simp: limiterFor_eq bucket_def budget_of_def Let_def nth_append
        nth_list_update dest: l split: option.splits)
qed

definition bucket_addr :: "('lim, 'x) rl_world_scheme \<Rightarrow> nat \<Rightarrow> string \<Rightarrow> nat option" where
  "bucket_addr w st m =
     (case limited_group (rl_resolver (rl_states w ! st)) m of
        None \<Rightarrow> Some (rl_global (rl_states w ! st))
      | Some (n, _) \<Rightarrow> rl_groups (rl_states w ! st) n)"

lemma bucket_at: "bucket_addr w st m = Some l \<Longrightarrow> bucket R w st m = limiters w ! l"
  by (auto simp: bucket_addr_def bucket_def split: option.splits)

lemma bucket_unborn:
  "bucket_addr w st m = None \<Longrightarrow> rl_states v ! st = rl_states w ! st \<Longrightarrow> bucket R v st m = bucket R w st m"
  by (auto simp: bucket_addr_def bucket_def split: option.splits)

lemma lookup_addr:
  "st < length (rl_states w) \<Longrightarrow>
   bucket_addr (snd (limiterFor R st m w)) st m = Some (fst (limiterFor R st m w))"
  by (auto simp: bucket_addr_def limiterFor_eq Let_def split: option.splits)

lemma same_budget_addr:
  "budget_of w st m = budget_of w st' m' \<Longrightarrow> bucket_addr w st m = bucket_addr w st' m'"
  by (auto simp: budget_of_def bucket_addr_def split: option.splits)

lemma addr_budget:
  assumes "rl_wf w" "st < length (rl_states w)" "st' < length (rl_states w)"
    and "bucket_addr w st m = Some l" "bucket_addr w st' m' = Some l"
  shows "budget_of w st m = budget_of w st' m'"
proof -
  have "rl_global (rl_states w ! i) \<notin> group_limiters w" if "i < length (rl_states w)" for i
    using assms(1) nth_mem [OF that] by (auto simp: rl_wf_def)
  with assms(2-) show ?thesis
    by (auto simp: bucket_addr_def budget_of_def split: option.splits
        dest: group_limitersI rl_wf_unique [OF assms(1)])
qed

lemma budget_of_cong:
  "rl_resolver (rl_states v ! st) = rl_resolver (rl_states w ! st) \<Longrightarrow>
   rl_global (rl_states v ! st) = rl_global (rl_states w ! st) \<Longrightarrow> budget_of v st m = budget_of w st m"
  by (simp add: budget_of_def split: option.split)

lemma lookup_budgets:
  "st < length (rl_states w) \<Longrightarrow> budget_of (snd (limiterFor R st m w)) i k = budget_of w i k"
  by (rule budget_of_cong) (simp_all add: lookup_states)

lemma after_request_budgets:
  "st < length (rl_states w) \<Longrightarrow> budget_of (after_request R st m w) i k = budget_of w i k"
  by (rule budget_of_cong) (simp_all add: after_request_parts lookup_states)

text \<open>A request updates the bucket of its own budget and no other one.\<close>

lemma after_request_buckets:
  assumes wf: "rl_wf w" and st: "st < length (rl_states w)" "st' < length (rl_states w)"
  shows "bucket R (after_request R st m w) st' m' =
    (if budget_of w st' m' = budget_of w st m
     then snd (rate_Allow R (clock w) (bucket R w st m)) else bucket R w st' m')"
proof -
  let ?w1 = "snd (limiterFor R st m w)" and ?l = "fst (limiterFor R st m w)"
    and ?v = "after_request R st m w"
  have wf1: "rl_wf ?w1" and st1: "st < length (rl_states ?w1)" "st' < length (rl_states ?w1)"
    using rl_wf_lookup [OF wf st(1)] st by (simp_all add: lookup_states)
  have v: "bucket_addr ?v st' m' = bucket_addr ?w1 st' m'"
    unfolding bucket_addr_def after_request_parts ..
  have l: "?l < length (limiters ?w1)" by (rule lookup_less [OF wf st(1)])
  show ?thesis
  proof (cases "budget_of w st' m' = budget_of w st m")
    case True
    with st have "bucket_addr ?v st' m' = Some ?l"
      using same_budget_addr [of ?w1 st' m' st m] v lookup_addr [OF st(1)] by (simp add: lookup_budgets)
    with True l show ?thesis by (simp add: bucket_at after_request_parts)
  next
    case False
    have "bucket R ?v st' m' = bucket R ?w1 st' m'"
    proof (cases "bucket_addr ?w1 st' m'")
      case None
      then show ?thesis by (rule bucket_unborn) (simp add: after_request_parts)
    next
      case (Some l')
      have "l' \<noteq> ?l"
        using addr_budget [OF wf1 st1(2,1) Some] lookup_addr [OF st(1)] False st(1)
        by (auto simp: lookup_budgets)
      with Some v show ?thesis by (simp add: bucket_at after_request_parts)
    qed
    with False lookup_keeps_buckets [OF wf st] show ?thesis by metis
  qed
qed

section \<open>Rates\<close>

lemma Duration_Seconds_whole:
  assumes "0 \<le> k" "k < 2 ^ 53"
  shows "Duration_Seconds (k * 1000000000) = Fin (of_int k)"
proof -
  have d: "go_div (k * 1000000000) 1000000000 = k"
    using assms by (cases "k = 0") (simp_all add: go_div_def sgn_if abs_mult)
  have z: "f64_of_int 0 = Fin 0" and e: "f64_of_int 1000000000 = Fin 1000000000"
    using f64_of_int_exact [of 0] f64_of_int_exact [of 1000000000] by simp_all
  have k: "f64_of_int k = Fin (of_int k)" by (rule f64_of_int_exact [OF assms])
  then have "f64_round (of_int k) = Fin (of_int k)" by (simp add: f64_of_int_def)
  then show ?thesis
    by (simp add: Duration_Seconds_def go_mod_def d z e k f64_round_def)
qed

text \<open>
  \<open>Duration.Seconds\<close> rounds at most twice and the division of the rate once: \<open>h\<close> is half the
  distance of the doubles at one.
\<close>

lemma Duration_Seconds_close:
  assumes h_def: "h = 1 / 2 ^ 53" and W: "0 < W" "in_i64 W"
  shows "\<exists>s. Duration_Seconds W = Fin s \<and> \<bar>s - of_int W / 1000000000\<bar> \<le> 9 / 4 * (h * (of_int W / 1000000000))"
proof -
  define k where "k = W div 1000000000"
  define n where "n = W mod 1000000000"
  define S :: rat where "S = of_int W / 1000000000"
  have kn: "0 \<le> k" "k < 2 ^ 53" "0 \<le> n" "n < 1000000000" and W_eq: "W = 1000000000 * k + n"
    using W by (auto simp: k_def n_def in_i64_def)
  have go: "go_div W 1000000000 = k" "go_mod W 1000000000 = n"
    using W by (simp_all add: go_div_def go_mod_def k_def n_def minus_mult_div_eq_mod)
  have S: "S = of_int k + of_int n / 1000000000" by (simp add: S_def W_eq add_divide_distrib)
  have h: "0 < h" "256 * h \<le> 1" by (simp_all add: h_def)
  have S0: "0 < S" using W by (simp add: S_def)
  have "1 / 1000000000 \<le> S" using W unfolding S_def by (intro divide_right_mono) simp_all
  then have low: "2 * (h * h) \<le> S" by (simp add: h_def)
  have n1: "of_int n / 1000000000 \<le> (1 :: rat)" "0 \<le> (of_int n / 1000000000 :: rat)" using kn by simp_all
  have "\<exists>f. f64_round (of_int n / 1000000000) = Fin f \<and>
      \<bar>f - of_int n / 1000000000\<bar> \<le> 17 / 16 * (h * (of_int n / 1000000000))"
  proof (cases "n = 0")
    case False
    then have "1 \<le> n" using kn(3) by simp
    then have "1 / 1000000000 \<le> (of_int n / 1000000000 :: rat)" by (intro divide_right_mono) simp_all
    then have "h * h \<le> of_int n / 1000000000" by (simp add: h_def)
    moreover have "of_int n / 1000000000 \<le> (2 :: rat) ^ 1000" by (rule order_trans [OF n1(1)]) simp
    ultimately show ?thesis by (rule f64_round_close [OF h_def])
  qed (simp add: f64_round_def)
  then obtain f where f: "f64_round (of_int n / 1000000000) = Fin f"
    "\<bar>f - of_int n / 1000000000\<bar> \<le> 17 / 16 * (h * (of_int n / 1000000000))" by blast
  have "17 / 16 * (h * (of_int n / 1000000000)) \<le> 17 / 16 * (h * S)"
    using h kn by (simp add: S)
  then have kf: "\<bar>of_int k + f - S\<bar> \<le> 17 / 16 * (h * S)" using f(2) unfolding S by linarith
  have hS: "256 * (h * S) \<le> S" "0 \<le> h * S" "0 \<le> S"
    using mult_right_mono [OF h(2), of S] S0 h(1) by simp_all
  have "(of_int k :: rat) < of_int (2 ^ 53)" using kn(2) by (simp only: of_int_less_iff)
  then have "S \<le> 2 ^ 54" using n1 unfolding S by simp
  moreover have "of_int k + f \<le> 2 * S" using kf hS by linarith
  ultimately have "of_int k + f \<le> 2 ^ 55" by simp
  then have "of_int k + f \<le> 2 ^ 1000" by (rule order_trans) simp
  moreover have "h * h \<le> of_int k + f" using kf hS low by linarith
  ultimately have kf': "h * h \<le> of_int k + f" "of_int k + f \<le> 2 ^ 1000" by simp_all
  from f64_round_close [OF h_def kf'] obtain s where
    s: "f64_round (of_int k + f) = Fin s" "\<bar>s - (of_int k + f)\<bar> \<le> 17 / 16 * (h * (of_int k + f))" by blast
  have "h * (of_int k + f) \<le> h * (65 / 64 * S)" using kf hS h by (intro mult_left_mono) linarith+
  with s(2) kf hS have "\<bar>s - S\<bar> \<le> 9 / 4 * (h * S)" by linarith
  moreover have "Duration_Seconds W = Fin s"
    using f64_of_int_exact [OF kn(1,2)] f64_of_int_exact [OF kn(3)] f64_of_int_exact [of 1000000000] kn(4) f(1) s(1)
    by (simp add: Duration_Seconds_def go)
  ultimately show ?thesis unfolding S_def by blast
qed

lemma group_rate_close:
  assumes h_def: "h = 1 / 2 ^ 53" and R: "0 \<le> R" "R < 2 ^ 53" and W: "0 < W" "in_i64 W"
  shows "\<exists>q. f64_div (f64_of_int R) (Duration_Seconds W) = Fin q \<and>
    \<bar>q - of_int R * 1000000000 / of_int W\<bar> \<le> 4 * h * (of_int R * 1000000000 / of_int W)"
proof -
  define S :: rat where "S = of_int W / 1000000000"
  define Q :: rat where "Q = of_int R / S"
  have h: "0 < h" "256 * h \<le> 1" by (simp_all add: h_def)
  obtain s where s: "Duration_Seconds W = Fin s" "\<bar>s - S\<bar> \<le> 9 / 4 * (h * S)"
    using Duration_Seconds_close [OF h_def W] unfolding S_def by blast
  have S: "0 < S" using W by (simp add: S_def)
  have hS: "256 * (h * S) \<le> S" using mult_right_mono [OF h(2), of S] S by simp
  have s_low: "15 / 16 * S \<le> s" "0 < s" using s(2) hS S by linarith+
  show ?thesis
  proof (cases "R = 0")
    case True
    then show ?thesis using s s_low f64_of_int_exact [of 0] by (simp add: f64_round_def)
  next
    case False
    have Q: "Q * S = of_int R" "0 < Q" using S False R by (simp_all add: Q_def)
    have "of_int R / s - Q = Q * (S - s) / s" using Q(1) s_low by (simp add: field_simps)
    then have "\<bar>of_int R / s - Q\<bar> = Q * \<bar>S - s\<bar> / s" using Q(2) s_low by (simp add: abs_mult)
    also have "\<dots> \<le> Q * (9 / 4 * (h * S)) / (15 / 16 * S)"
      using s(2) s_low S Q(2) h by (intro frac_le mult_left_mono mult_nonneg_nonneg) (simp_all add: abs_minus_commute)
    also have "\<dots> = 12 / 5 * (h * Q)" using S by (simp add: field_simps)
    finally have e: "\<bar>of_int R / s - Q\<bar> \<le> 12 / 5 * (h * Q)" .
    have hQ: "256 * (h * Q) \<le> Q" using mult_right_mono [OF h(2), of Q] Q by simp
    have "of_int R \<le> (2 ^ 53 :: rat)"
      using R(2) by (metis less_imp_le of_int_le_iff of_int_numeral of_int_power)
    moreover have "(1 :: rat) \<le> of_int R" using False R by simp
    moreover have "1 / 1000000000 \<le> S" using W(1) unfolding S_def by (intro divide_right_mono) simp_all
    moreover have "S \<le> 2 ^ 63 / 1000000000"
    proof -
      have "W \<le> 2 ^ 63" using W(2) by (simp add: in_i64_def)
      then have "(of_int W :: rat) \<le> of_int (2 ^ 63)" by (simp only: of_int_le_iff)
      then show ?thesis by (simp add: S_def)
    qed
    ultimately have "Q \<le> 2 ^ 53 / (1 / 1000000000)" "1 / (2 ^ 63 / 1000000000) \<le> Q"
      unfolding Q_def using S by (intro frac_le; simp)+
    then have "2 * (h * h) \<le> Q" "Q \<le> 2 ^ 99" by (simp_all add: h_def)
    moreover have "of_int R / s \<le> 2 * Q" using e hQ Q(2) by linarith
    ultimately have low: "h * h \<le> of_int R / s" and "of_int R / s \<le> 2 ^ 100" using e hQ by (linarith, simp)
    from this(2) have "of_int R / s \<le> 2 ^ 1000" by (rule order_trans) simp
    from f64_round_close [OF h_def low this] obtain q where
      q: "f64_round (of_int R / s) = Fin q" "\<bar>q - of_int R / s\<bar> \<le> 17 / 16 * (h * (of_int R / s))" by blast
    have "h * (of_int R / s) \<le> h * (65 / 64 * Q)" using e hQ h by (intro mult_left_mono) linarith+
    with q(2) e hQ have "\<bar>q - Q\<bar> \<le> 4 * (h * Q)" by linarith
    moreover have "f64_div (f64_of_int R) (Duration_Seconds W) = Fin q"
      using s s_low f64_of_int_exact [OF R] q(1) by simp
    moreover have "Q = of_int R * 1000000000 / of_int W" by (simp add: Q_def S_def)
    ultimately show ?thesis by (simp add: mult.assoc)
  qed
qed

section \<open>Properties\<close>

text \<open>
  C4: the buckets behave as independent budgets.  In every reachable state a request runs
  its handler exactly when the bucket of its budget, the group's when its method resolves to
  a policy with a rate limit and the global one otherwise, grants a token now; it is refused
  with codes.ResourceExhausted otherwise; and its bucket is the only one that changes.
\<close>

theorem rate_limit_refines:
  assumes "reachable (rl_step R) rl_init w" and "st < length (rl_states w)"
  shows "\<exists>w'. rate_limit_unary R st ctx req m h w =
        (if fst (rate_Allow R (clock w) (bucket R w st m)) then h ctx req w'
         else (Return (None, Some (StatusError ResourceExhausted ''rate limit exceeded'')), w')) \<and>
      clock w' = clock w \<and>
      (\<forall>st' < length (rl_states w). \<forall>m'. budget_of w' st' m' = budget_of w st' m' \<and>
         bucket R w' st' m' =
           (if budget_of w st' m' = budget_of w st m
            then snd (rate_Allow R (clock w) (bucket R w st m)) else bucket R w st' m'))"
proof (intro exI conjI allI impI)
  show "rate_limit_unary R st ctx req m h w =
      (if fst (rate_Allow R (clock w) (bucket R w st m)) then h ctx req (after_request R st m w)
       else (Return (None, Some (StatusError ResourceExhausted ''rate limit exceeded'')),
         after_request R st m w))"
    by (simp add: rl_u.guard rl_verdict_eq go_unfold errRateLimited_def)
next
  show "clock (after_request R st m w) = clock w" by (rule after_request_parts(2))
next
  fix st' m' assume "st' < length (rl_states w)"
  then show "bucket R (after_request R st m w) st' m' =
      (if budget_of w st' m' = budget_of w st m
       then snd (rate_Allow R (clock w) (bucket R w st m)) else bucket R w st' m')"
    using after_request_buckets rl.inv_reachable [OF assms(1)] assms(2) by blast
next
  fix st' m'
  show "budget_of (after_request R st m w) st' m' = budget_of w st' m'"
    by (rule after_request_budgets [OF assms(2)])
qed

text \<open>The bucket a budget has got stays its bucket.\<close>

lemma bucket_addr_cong: "rl_states v ! st = rl_states w ! st \<Longrightarrow> bucket_addr v st m = bucket_addr w st m"
  by (simp add: bucket_addr_def split: option.split)

lemma bucket_addr_step:
  assumes wf: "rl_wf w" and st: "st < length (rl_states w)" and l: "bucket_addr w st m = Some l"
    and "rl_step R w v"
  shows "st < length (rl_states v) \<and> bucket_addr v st m = Some l"
  using \<open>rl_step R w v\<close>
proof cases
  case (rl_lookup st' m')
  have g: "rl_groups (rl_states v ! st) n = Some k" if "rl_groups (rl_states w ! st) n = Some k" for n k
    using that rl_lookup st
    by (cases "st = st'") (auto simp: limiterFor_eq Let_def split: option.splits)
  show ?thesis
    using l st rl_lookup(2) g
    by (auto simp: rl_lookup(1) lookup_states [OF rl_lookup(2)] bucket_addr_def split: option.splits)
qed (use st l bucket_addr_cong [of v st w m] in \<open>auto simp: NewLimiter_def Limiter_Allow_def
       new_rateLimitState_def nth_append split_beta\<close>)

lemma bucket_addr_steps:
  assumes "rl_wf w" "st < length (rl_states w)" "bucket_addr w st m = Some l" "steps (rl_step R) w v"
  shows "st < length (rl_states v)" "bucket_addr v st m = Some l"
  using rl.stable_steps [where P = "\<lambda>v. st < length (rl_states v) \<and> bucket_addr v st m = Some l", OF _ assms(4,1)]
    assms(2,3) bucket_addr_step by blast+

text \<open>
  C11: a request's limiter is fixed for good by its budget: once a request of method \<open>m\<close> has
  looked its limiter up, any later lookup, whatever happened in between, gets the same
  limiter exactly when it draws on the same budget.
\<close>

theorem limiterFor_stable:
  assumes "reachable (rl_step R) rl_init w" and "st < length (rl_states w)"
    and "steps (rl_step R) (snd (limiterFor R st m w)) v" and "st' < length (rl_states v)"
  shows "fst (limiterFor R st' m' v) = fst (limiterFor R st m w) \<longleftrightarrow>
    budget_of v st' m' = budget_of v st m"
proof -
  let ?w1 = "snd (limiterFor R st m w)" and ?l = "fst (limiterFor R st m w)"
  have wf1: "rl_wf ?w1"
    using rl_wf_lookup [OF rl.inv_reachable [OF assms(1)] assms(2)] .
  have st1: "st < length (rl_states ?w1)" using assms(2) by (simp add: lookup_states)
  note later = bucket_addr_steps [OF wf1 st1 lookup_addr [OF assms(2)] assms(3)]
  have wf: "rl_wf v" by (rule rl.inv_steps [OF assms(3) wf1])
  have l: "?l < length (limiters v)"
  proof -
    have "rl_global (rl_states v ! st) < length (limiters v)"
      using wf nth_mem [OF later(1)] by (auto simp: rl_wf_def)
    moreover have "k < length (limiters v)" if "k \<in> group_limiters v" for k
      using wf that by (simp add: rl_wf_def)
    ultimately show ?thesis
      using later group_limitersI [OF later(1)] by (auto simp: bucket_addr_def split: option.splits)
  qed
  show ?thesis
  proof (cases "bucket_addr v st' m'")
    case None
    then have "fst (limiterFor R st' m' v) = length (limiters v)"
      by (auto simp: bucket_addr_def limiterFor_eq Let_def split: option.splits)
    with None l later(2) show ?thesis using same_budget_addr by fastforce
  next
    case (Some l')
    then have "fst (limiterFor R st' m' v) = l'"
      by (auto simp: bucket_addr_def limiterFor_eq Let_def split: option.splits)
    moreover have "l' = ?l" if "budget_of v st' m' = budget_of v st m"
      using same_budget_addr [OF that] Some later(2) by simp
    moreover have "budget_of v st' m' = budget_of v st m" if "l' = ?l"
      by (rule addr_budget [OF wf assms(4) later(1) Some [unfolded that] later(2)])
    ultimately show ?thesis by blast
  qed
qed

text \<open>
  C36: a group's bucket is filled at the rate its rule says, up to rounding: for every window
  that is positive and every rate from zero to \<open>2^53\<close> the quotient is finite and within
  \<open>2^-51\<close> of \<open>Rate\<close> per \<open>Window\<close>, relatively; it is rounded only once, to the nearest double,
  when the window is a whole number of seconds.  A zero window divides by zero: the rate is
  infinite, or NaN when the rule's rate is zero too.
\<close>

theorem group_rate_accurate:
  assumes "0 \<le> Rate rl" "Rate rl < 2 ^ 53" "0 \<le> Window rl" "in_i64 (Window rl)"
  shows "if Window rl = 0 then group_rate rl = (if Rate rl = 0 then NaN else PInf)
    else \<exists>q. group_rate rl = Fin q \<and>
      \<bar>q - of_int (Rate rl) * 1000000000 / of_int (Window rl)\<bar>
        \<le> of_int (Rate rl) * 1000000000 / of_int (Window rl) / 2 ^ 51 \<and>
      (1000000000 dvd Window rl \<longrightarrow>
         group_rate rl = f64_round (of_int (Rate rl) / of_int (Window rl div 1000000000)))"
proof (cases "Window rl = 0")
  case True
  with assms Duration_Seconds_whole [of 0] show ?thesis by (simp add: group_rate_def f64_of_int_exact)
next
  case False
  with assms(3) have W: "0 < Window rl" by simp
  have "group_rate rl = f64_round (of_int (Rate rl) / of_int k)" if k: "Window rl = 1000000000 * k" for k
  proof -
    have "0 < k" "k < 2 ^ 53" using W assms(4) by (simp_all add: k in_i64_def)
    then show ?thesis
      using Duration_Seconds_whole [of k] assms(1,2) by (simp add: group_rate_def k mult.commute f64_of_int_exact)
  qed
  then have "1000000000 dvd Window rl \<longrightarrow>
      group_rate rl = f64_round (of_int (Rate rl) / of_int (Window rl div 1000000000))"
    by (auto elim!: dvdE)
  with group_rate_close [OF refl assms(1,2) W assms(4)] False show ?thesis
    by (auto simp: group_rate_def)
qed

text \<open>
  the unary and the stream interceptor made from one limiter and one resolver, as the
  server makes them, count a group's requests apart: they draw on the same budget exactly
  for the methods without a group limit.
\<close>

theorem unary_stream_budgets:
  assumes "RateLimitUnary R l (Some res) w = (iu, w1)" and "RateLimitStream R l (Some res) w1 = (is, w2)"
  shows "\<exists>u s. iu = rate_limit_unary R u \<and> is = rate_limit_stream R s \<and>
    (budget_of w2 u m = budget_of w2 s m \<longleftrightarrow> limited_group (Some res) m = None)"
proof (intro exI conjI)
  let ?u = "length (rl_states w)"
  show "iu = rate_limit_unary R ?u" "is = rate_limit_stream R (Suc ?u)"
    using assms by (auto simp: RateLimitUnary_def RateLimitStream_def new_rateLimitState_def Let_def)
  have "rl_states w2 ! ?u = \<lparr>rl_global = l, rl_resolver = Some res, rl_groups = Map.empty\<rparr>"
    "rl_states w2 ! Suc ?u = \<lparr>rl_global = l, rl_resolver = Some res, rl_groups = Map.empty\<rparr>"
    using assms
    by (auto simp: RateLimitUnary_def RateLimitStream_def new_rateLimitState_def Let_def nth_append)
  then show "budget_of w2 ?u m = budget_of w2 (Suc ?u) m \<longleftrightarrow> limited_group (Some res) m = None"
    by (auto simp: budget_of_def split: option.splits)
qed

section \<open>A concrete world\<close>

text \<open>Buckets that never refill, one global limiter of five tokens and a group of one.\<close>

definition demo_rate :: "int rate_api" where
  "demo_rate = \<lparr>rate_NewLimiter = (\<lambda>_ burst. burst),
                rate_Allow = (\<lambda>_ n. (0 < n, if 0 < n then n - 1 else n))\<rparr>"

definition demo_limits :: Resolver where
  "demo_limits = NewResolver
     [GroupBuilder_Policy (GroupBuilder_Exact (Group ''g'') ''/svc/Get'')
        \<lparr>RateLimit = Some \<lparr>Rate = 1, Window = 1000000000\<rparr>, Timeout = 0, AuthRequired = False\<rparr>]"

definition demo_start :: "int rl_world" where
  "demo_start = \<lparr>entropy = (\<lambda>_. 0), drawn = 0, clock = 0, limiters = [], rl_states = []\<rparr>"

definition demo_world :: "int rl_world" where
  "demo_world = snd (new_rateLimitState 0 (Some demo_limits) (snd (NewLimiter demo_rate (Fin 5) 5 demo_start)))"

lemma demo_reachable: "reachable (rl_step demo_rate) rl_init demo_world"
  unfolding demo_world_def
proof (rule reachable_step)
  show "reachable (rl_step demo_rate) rl_init (snd (NewLimiter demo_rate (Fin 5) 5 demo_start))"
  proof (rule reachable_step)
    show "reachable (rl_step demo_rate) rl_init demo_start"
      by (rule reachable_init) (simp add: rl_init_def demo_start_def)
  qed (rule rl_limiter)
qed (rule rl_install; simp add: demo_start_def NewLimiter_def group_limiters_def)

lemma demo_world_eq:
  "rl_states demo_world = [\<lparr>rl_global = 0, rl_resolver = Some demo_limits, rl_groups = Map.empty\<rparr>]"
  "limiters demo_world = [5]"
  by (simp_all add: demo_world_def demo_start_def new_rateLimitState_def NewLimiter_def demo_rate_def)

lemma demo_limited:
  "limited_group (Some demo_limits) ''/svc/Get'' = Some (''g'', \<lparr>Rate = 1, Window = 1000000000\<rparr>)"
  "limited_group (Some demo_limits) ''/svc/List'' = None"
  by (simp_all add: limited_group_def demo_limits_def NewResolver_def GroupBuilder_Policy_def
      GroupBuilder_Exact_def Group_def Resolve_def resolve_group_def resolve_rule_def resolve_init_def
      rule_match_def Let_def)

theorem rate_limit_refines_witness:
  "\<forall>ctx req h. \<exists>w'. rate_limit_unary demo_rate 0 ctx req ''/svc/Get'' h demo_world = h ctx req w' \<and>
     bucket demo_rate w' 0 ''/svc/Get'' = 0 \<and> bucket demo_rate w' 0 ''/svc/List'' = 5"
proof (intro allI)
  fix ctx req and h :: "(int rl_world, 'a, 'b, 'c) unary_handler"
  have b: "bucket demo_rate demo_world 0 ''/svc/Get'' = 1" "bucket demo_rate demo_world 0 ''/svc/List'' = 5"
    "budget_of demo_world 0 ''/svc/Get'' = GroupBudget 0 ''g''"
    "budget_of demo_world 0 ''/svc/List'' = GlobalBudget 0"
    by (simp_all add: bucket_def budget_of_def demo_world_eq demo_limited demo_rate_def)
  show "\<exists>w'. rate_limit_unary demo_rate 0 ctx req ''/svc/Get'' h demo_world = h ctx req w' \<and>
     bucket demo_rate w' 0 ''/svc/Get'' = 0 \<and> bucket demo_rate w' 0 ''/svc/List'' = 5"
    using rate_limit_refines [OF demo_reachable, of 0 ctx req "''/svc/Get''" h] b
    by (auto simp: demo_world_eq demo_rate_def)
qed

theorem limiterFor_stable_witness:
  "fst (limiterFor demo_rate 0 ''/svc/Get'' (snd (limiterFor demo_rate 0 ''/svc/Get'' demo_world)))
     = fst (limiterFor demo_rate 0 ''/svc/Get'' demo_world)"
  using limiterFor_stable [OF demo_reachable _ steps_refl, of 0 0 "''/svc/Get''" "''/svc/Get''"]
  by (simp add: demo_world_eq lookup_states)

theorem group_rate_accurate_witness:
  "(\<exists>q. group_rate \<lparr>Rate = 7, Window = 300000000\<rparr> = Fin q \<and> \<bar>q - 70 / 3\<bar> \<le> 70 / 3 / 2 ^ 51) \<and>
   group_rate \<lparr>Rate = 1, Window = 60000000000\<rparr> = f64_round (1 / 60) \<and>
   group_rate \<lparr>Rate = 1, Window = 0\<rparr> = PInf \<and> group_rate \<lparr>Rate = 0, Window = 0\<rparr> = NaN"
  using group_rate_accurate [of "\<lparr>Rate = 7, Window = 300000000\<rparr>"]
    group_rate_accurate [of "\<lparr>Rate = 1, Window = 60000000000\<rparr>"]
    group_rate_accurate [of "\<lparr>Rate = 1, Window = 0\<rparr>"] group_rate_accurate [of "\<lparr>Rate = 0, Window = 0\<rparr>"]
  by (auto simp: in_i64_def)

theorem unary_stream_budgets_witness:
  "case RateLimitUnary demo_rate 0 (Some demo_limits) demo_world of (iu, w1) \<Rightarrow>
     (case RateLimitStream demo_rate 0 (Some demo_limits) w1 of (is, w2) \<Rightarrow>
        \<exists>u s. iu = rate_limit_unary demo_rate u \<and> is = rate_limit_stream demo_rate s \<and>
          budget_of w2 u ''/svc/Get'' \<noteq> budget_of w2 s ''/svc/Get'')"
proof (split prod.split, intro allI impI, split prod.split, intro allI impI)
  fix iu w1 "is" w2
  assume "RateLimitUnary demo_rate 0 (Some demo_limits) demo_world = (iu, w1)"
    "RateLimitStream demo_rate 0 (Some demo_limits) w1 = (is, w2)"
  from unary_stream_budgets [OF this, of "''/svc/Get''"]
  show "\<exists>u s. iu = rate_limit_unary demo_rate u \<and> is = rate_limit_stream demo_rate s \<and>
      budget_of w2 u ''/svc/Get'' \<noteq> budget_of w2 s ''/svc/Get''"
    unfolding demo_limited(1) by blast
qed

end
