(* ===== verification/Tracing.thy ===== *)
theory Tracing
  imports Grpc Netip
begin

text \<open>
  Package tracing (tracing/interceptors.go): a server span around every call.

  OpenTelemetry is not part of the repository: providers, propagators and spans are opaque
  values, and what the library calls on them are the fields of a record argument.  Recording
  on a span is an effect on the world; the global provider and propagator are read from it.
\<close>

section \<open>The functions of the OpenTelemetry packages\<close>

text \<open>A carrier as the propagator sees it: \<open>Get\<close> and \<open>Keys\<close>.\<close>

record carrier =
  carrier_Get :: "string \<Rightarrow> string"
  carrier_Keys :: "string list"

datatype span_status = StatusOk | StatusErr

record ('w, 'b, 'md, 'tp, 'pr, 'sp) otel_api =
  GetTracerProvider :: "'w \<Rightarrow> 'tp"
  GetTextMapPropagator :: "'w \<Rightarrow> 'pr"
  Tracer_Start :: "'tp \<Rightarrow> string \<Rightarrow> 'b gctx \<Rightarrow> string \<Rightarrow> 'w \<Rightarrow> ('b gctx \<times> 'sp) \<times> 'w"
  Extract :: "'pr \<Rightarrow> 'b gctx \<Rightarrow> carrier \<Rightarrow> 'b gctx"
  SetAttributes :: "'sp \<Rightarrow> (string \<times> string) list \<Rightarrow> 'w \<Rightarrow> 'w"
  RecordError :: "'sp \<Rightarrow> gerror \<Rightarrow> 'w \<Rightarrow> 'w"
  SetStatus :: "'sp \<Rightarrow> span_status \<Rightarrow> string \<Rightarrow> 'w \<Rightarrow> 'w"
  span_End :: "'sp \<Rightarrow> 'w \<Rightarrow> 'w"
  code_String :: "code \<Rightarrow> string"
  MD_Keys :: "'md \<Rightarrow> string list"
  MD_Set :: "'md \<Rightarrow> string \<Rightarrow> string \<Rightarrow> 'md"
  MD_empty :: 'md

section \<open>Configuration\<close>

record ('tp, 'pr) TracingConfig =
  TracerProvider :: "'tp option"
  Propagators :: "'pr option"

text \<open>\<open>tracer()\<close> and \<open>propagators()\<close>: the configured value or the global one at that moment.\<close>

definition cfg_provider :: "('w, 'b, 'md, 'tp, 'pr, 'sp) otel_api \<Rightarrow> ('tp, 'pr) TracingConfig \<Rightarrow> 'w \<Rightarrow> 'tp" where
  "cfg_provider T c w = (case TracerProvider c of None \<Rightarrow> GetTracerProvider T w | Some tp \<Rightarrow> tp)"

definition tracer_Start ::
    "('w, 'b, 'md, 'tp, 'pr, 'sp) otel_api \<Rightarrow> ('tp, 'pr) TracingConfig \<Rightarrow> 'b gctx \<Rightarrow> string
       \<Rightarrow> 'w \<Rightarrow> ('b gctx \<times> 'sp) \<times> 'w" where
  "tracer_Start T c ctx fullMethod w =
     Tracer_Start T (cfg_provider T c w) ''github.com/Keksclan/goRawrSquirrel/tracing'' ctx fullMethod w"

definition cfg_propagators :: "('w, 'b, 'md, 'tp, 'pr, 'sp) otel_api \<Rightarrow> ('tp, 'pr) TracingConfig \<Rightarrow> 'w \<Rightarrow> 'pr" where
  "cfg_propagators T c w = (case Propagators c of Some pr \<Rightarrow> pr | None \<Rightarrow> GetTextMapPropagator T w)"

section \<open>Helpers\<close>

definition metadataCarrier_Get :: "('b, 'md) grpc_api \<Rightarrow> 'md \<Rightarrow> string \<Rightarrow> string" where
  "metadataCarrier_Get A md key =
     (let vals = MD_Get A md key in if vals = [] then [] else vals ! 0)"

text \<open>
  \<open>MD_Keys\<close> are the keys in the order the loop over the map meets them.  \<open>Set\<close> is there for the
  interface; extraction does not call it.
\<close>

definition metadataCarrier_Keys :: "('w, 'b, 'md, 'tp, 'pr, 'sp) otel_api \<Rightarrow> 'md \<Rightarrow> string list" where
  "metadataCarrier_Keys T md = foldl (\<lambda>keys k. keys @ [k]) [] (MD_Keys T md)"

definition metadataCarrier_Set :: "('w, 'b, 'md, 'tp, 'pr, 'sp) otel_api \<Rightarrow> 'md \<Rightarrow> string \<Rightarrow> string \<Rightarrow> 'md" where
  "metadataCarrier_Set T md key val = MD_Set T md key val"

definition metadataCarrier ::
    "('b, 'md) grpc_api \<Rightarrow> ('w, 'b, 'md, 'tp, 'pr, 'sp) otel_api \<Rightarrow> 'md \<Rightarrow> carrier" where
  "metadataCarrier A T md = \<lparr>carrier_Get = metadataCarrier_Get A md, carrier_Keys = metadataCarrier_Keys T md\<rparr>"

definition extract_ctx ::
    "('b, 'md) grpc_api \<Rightarrow> ('w, 'b, 'md, 'tp, 'pr, 'sp) otel_api \<Rightarrow> 'b gctx
       \<Rightarrow> ('tp, 'pr) TracingConfig \<Rightarrow> 'w \<Rightarrow> 'b gctx" where
  "extract_ctx A T ctx c w =
     (let (md, ok) = FromIncomingContext A ctx;
          md = (if \<not> ok then MD_empty T else md)
      in Extract T (cfg_propagators T c w) ctx (metadataCarrier A T md))"

text \<open>The library call to trim one leading slash.\<close>

definition trim_slash :: "string \<Rightarrow> string" where
  "trim_slash s = (case s of c # cs \<Rightarrow> if c = CHR ''/'' then cs else s | [] \<Rightarrow> s)"

definition splitFullMethod :: "string \<Rightarrow> string \<times> string" where
  "splitFullMethod fullMethod =
     (let m = trim_slash fullMethod
      in case cut_first (CHR ''/'') m of
           None \<Rightarrow> (m, [])
         | Some (service, method) \<Rightarrow> (service, method))"

definition recordStatus ::
    "('b, 'md) grpc_api \<Rightarrow> ('w, 'b, 'md, 'tp, 'pr, 'sp) otel_api \<Rightarrow> 'sp \<Rightarrow> gerror option \<Rightarrow> 'w \<Rightarrow> 'w" where
  "recordStatus A T span err w =
     (let (st, _) = status_FromError A err;
          w1 = SetAttributes T span [(''rpc.grpc.status_code'', code_String T (st_code st))] w
      in case err of
           Some e \<Rightarrow> SetStatus T span StatusErr (st_msg st) (RecordError T span e w1)
         | None \<Rightarrow> SetStatus T span StatusOk [] w1)"

definition rpc_attributes :: "string \<Rightarrow> (string \<times> string) list" where
  "rpc_attributes info =
     (let (service, method) = splitFullMethod info
      in [(''rpc.system'', ''grpc''), (''rpc.service'', service), (''rpc.method'', method)])"

section \<open>The interceptors\<close>

definition TracingUnary ::
    "('b, 'md) grpc_api \<Rightarrow> ('w, 'b, 'md, 'tp, 'pr, 'sp) otel_api \<Rightarrow> ('tp, 'pr) TracingConfig option
       \<Rightarrow> ('w, 'b, 'req, 'resp) unary_interceptor" where
  "TracingUnary A T cfg =
     (case cfg of
        None \<Rightarrow> (\<lambda>ctx req info handler. handler ctx req)
      | Some c \<Rightarrow> (\<lambda>ctx req info handler w.
          let ctx1 = extract_ctx A T ctx c w;
              ((ctx2, span), w1) = tracer_Start T c ctx1 info w
          in go_defer
               (\<lambda>w1. go_bind (handler ctx2 req) (\<lambda>(resp, err) w2.
                  (Return (resp, err), recordStatus A T span err w2))
                  (SetAttributes T span (rpc_attributes info) w1))
               (span_End T span) w1))"

text \<open>\<open>wrappedStream\<close>: the stream with another context.\<close>

definition wrappedStream :: "('b, 'ss) server_stream \<Rightarrow> 'b gctx \<Rightarrow> ('b, 'ss) server_stream" where
  "wrappedStream ss ctx = ss\<lparr>ss_ctx := ctx\<rparr>"

definition TracingStream ::
    "('b, 'md) grpc_api \<Rightarrow> ('w, 'b, 'md, 'tp, 'pr, 'sp) otel_api \<Rightarrow> ('tp, 'pr) TracingConfig option
       \<Rightarrow> ('w, 'b, 'srv, 'ss) stream_interceptor" where
  "TracingStream A T cfg =
     (case cfg of
        None \<Rightarrow> (\<lambda>srv ss info handler. handler srv ss)
      | Some c \<Rightarrow> (\<lambda>srv ss info handler w.
          let ctx1 = extract_ctx A T (ss_ctx ss) c w;
              ((ctx2, span), w1) = tracer_Start T c ctx1 info w
          in go_defer
               (\<lambda>w1. go_bind (handler srv (wrappedStream ss ctx2)) (\<lambda>err w2.
                  (Return err, recordStatus A T span err w2))
                  (SetAttributes T span (rpc_attributes info) w1))
               (span_End T span) w1))"

section \<open>Facts\<close>

text \<open>What a carrier is set to, it reads, when the metadata do.\<close>

lemma metadataCarrier_laws:
  "MD_Get A (MD_Set T md key val) key = [val] \<Longrightarrow>
     metadataCarrier_Get A (metadataCarrier_Set T md key val) key = val"
  "metadataCarrier_Keys T md = MD_Keys T md"
proof -
  have "foldl (\<lambda>keys k. keys @ [k]) ks xs = ks @ xs" for ks xs :: "string list"
    by (induction xs arbitrary: ks) simp_all
  then show "metadataCarrier_Keys T md = MD_Keys T md" by (simp add: metadataCarrier_Keys_def)
qed (simp add: metadataCarrier_Get_def metadataCarrier_Set_def)

lemma TracingUnary_eq:
  "TracingUnary A T (Some c) ctx req info h w =
     (let ((ctx2, sp), w1) = tracer_Start T c (extract_ctx A T ctx c w) info w
      in case h ctx2 req (SetAttributes T sp (rpc_attributes info) w1) of
           (Return (resp, err), w2) \<Rightarrow> (Return (resp, err), span_End T sp (recordStatus A T sp err w2))
         | (Panic p, w2) \<Rightarrow> (Panic p, span_End T sp w2))"
  by (simp add: TracingUnary_def go_unfold split: prod.splits outcome.splits)

lemma TracingStream_eq:
  "TracingStream A T (Some c) srv ss info h w =
     (let ((ctx2, sp), w1) = tracer_Start T c (extract_ctx A T (ss_ctx ss) c w) info w
      in case h srv (ss\<lparr>ss_ctx := ctx2\<rparr>) (SetAttributes T sp (rpc_attributes info) w1) of
           (Return err, w2) \<Rightarrow> (Return err, span_End T sp (recordStatus A T sp err w2))
         | (Panic p, w2) \<Rightarrow> (Panic p, span_End T sp w2))"
  by (simp add: TracingStream_def wrappedStream_def go_unfold split: prod.splits outcome.splits)

text \<open>Tracing returns whenever what it wraps does.\<close>

lemma TracingUnary_returns:
  "(\<And>ctx' w'. is_return (fst (h ctx' req w'))) \<Longrightarrow> is_return (fst (TracingUnary A T cfg ctx req info h w))"
proof (cases cfg)
  case (Some c)
  assume h: "\<And>ctx' w'. is_return (fst (h ctx' req w'))"
  show ?thesis
  proof -
    obtain ctx2 sp w1 where st: "tracer_Start T c (extract_ctx A T ctx c w) info w = ((ctx2, sp), w1)"
      by (metis prod.collapse)
    obtain r w2 where "h ctx2 req (SetAttributes T sp (rpc_attributes info) w1) = (Return r, w2)"
      using h [of ctx2 "SetAttributes T sp (rpc_attributes info) w1"] by (metis is_return.elims(2) prod.collapse)
    then show ?thesis using Some st by (cases r) (simp add: TracingUnary_eq)
  qed
qed (simp add: TracingUnary_def)

lemma TracingStream_returns:
  "(\<And>ss' w'. is_return (fst (h srv ss' w'))) \<Longrightarrow> is_return (fst (TracingStream A T cfg srv ss info h w))"
proof (cases cfg)
  case (Some c)
  assume h: "\<And>ss' w'. is_return (fst (h srv ss' w'))"
  obtain ctx2 sp w1 where st: "tracer_Start T c (extract_ctx A T (ss_ctx ss) c w) info w = ((ctx2, sp), w1)"
    by (metis prod.collapse)
  obtain r w2 where "h srv (ss\<lparr>ss_ctx := ctx2\<rparr>) (SetAttributes T sp (rpc_attributes info) w1) = (Return r, w2)"
    using h [of "ss\<lparr>ss_ctx := ctx2\<rparr>" "SetAttributes T sp (rpc_attributes info) w1"]
    by (metis is_return.elims(2) prod.collapse)
  then show ?thesis using Some st by (simp add: TracingStream_eq)
qed (simp add: TracingStream_def)

section \<open>A recording tracer\<close>

text \<open>
  A tracer that appends every call to a log in the world: spans are numbered in the order
  they start.
\<close>

datatype span_event =
    Started nat string
  | Attributes nat "(string \<times> string) list"
  | ErrorRecorded nat gerror
  | StatusSet nat span_status string
  | Ended nat

record span_world =
  next_span :: nat
  span_log :: "span_event list"

definition log_event :: "span_event \<Rightarrow> 'x span_world_scheme \<Rightarrow> 'x span_world_scheme" where
  "log_event e w = w\<lparr>span_log := span_log w @ [e]\<rparr>"

definition recording_otel ::
    "'md \<Rightarrow> ('b gctx \<Rightarrow> carrier \<Rightarrow> 'b gctx) \<Rightarrow> (code \<Rightarrow> string)
       \<Rightarrow> ('x span_world_scheme, 'b, 'md, unit, unit, nat) otel_api" where
  "recording_otel noMD ext str =
     \<lparr>GetTracerProvider = (\<lambda>_. ()), GetTextMapPropagator = (\<lambda>_. ()),
      Tracer_Start = (\<lambda>_ _ ctx m w.
        ((ctx, next_span w), log_event (Started (next_span w) m) (w\<lparr>next_span := next_span w + 1\<rparr>))),
      Extract = (\<lambda>_. ext),
      SetAttributes = (\<lambda>sp as. log_event (Attributes sp as)),
      RecordError = (\<lambda>sp e. log_event (ErrorRecorded sp e)),
      SetStatus = (\<lambda>sp st m. log_event (StatusSet sp st m)),
      span_End = (\<lambda>sp. log_event (Ended sp)),
      code_String = str, MD_Keys = (\<lambda>_. []), MD_Set = (\<lambda>md _ _. md), MD_empty = noMD\<rparr>"

text \<open>The events of one span, in order.\<close>

definition span_of :: "span_event \<Rightarrow> nat" where
  "span_of e = (case e of Started n _ \<Rightarrow> n | Attributes n _ \<Rightarrow> n | ErrorRecorded n _ \<Rightarrow> n
     | StatusSet n _ _ \<Rightarrow> n | Ended n \<Rightarrow> n)"

definition span_events :: "nat \<Rightarrow> 'x span_world_scheme \<Rightarrow> span_event list" where
  "span_events n w = filter (\<lambda>e. span_of e = n) (span_log w)"

section \<open>Properties\<close>

text \<open>
  C33: tracing is transparent and complete: it gives the handler's result on the extracted
  context, or its panic; and a span that the handler does not touch is started once, gets the
  call's attributes, then the status of the result if the handler returned, and is ended last,
  also when it panicked.
\<close>

theorem tracing_span_lifecycle:
  assumes "T = recording_otel noMD ext str" and "n = next_span w" and "span_events n w = []"
    and "\<And>c v. span_events n (snd (h c req v)) = span_events n v"
  shows "\<exists>v v'. h (extract_ctx A T ctx c w) req v = (fst (TracingUnary A T (Some c) ctx req info h w), v') \<and>
    span_events n (snd (TracingUnary A T (Some c) ctx req info h w)) =
      [Started n info, Attributes n (rpc_attributes info)] @
      (case fst (TracingUnary A T (Some c) ctx req info h w) of
         Return (_, err) \<Rightarrow>
           [Attributes n [(''rpc.grpc.status_code'', str (st_code (fst (status_FromError A err))))]] @
           (case err of
              None \<Rightarrow> [StatusSet n StatusOk []]
            | Some e \<Rightarrow> [ErrorRecorded n e, StatusSet n StatusErr (st_msg (fst (status_FromError A err)))])
       | Panic _ \<Rightarrow> []) @
      [Ended n]"
proof -
  let ?v = "log_event (Attributes n (rpc_attributes info))
    (log_event (Started n info) (w\<lparr>next_span := next_span w + 1\<rparr>))"
  let ?ctx = "extract_ctx A T ctx c w"
  obtain out v' where run: "h ?ctx req ?v = (out, v')" by (cases "h ?ctx req ?v")
  have log: "span_events n (log_event e u) = span_events n u @ (if span_of e = n then [e] else [])" for e and u :: "'a span_world_scheme"
    by (simp add: span_events_def log_event_def)
  have "span_events n (w\<lparr>next_span := next_span w + 1\<rparr>) = []"
    using assms(3) by (simp add: span_events_def)
  then have v': "span_events n v' = [Started n info, Attributes n (rpc_attributes info)]"
    using assms(4) [of ?ctx ?v] run by (simp add: log span_of_def)
  show ?thesis
    using run v'
    by (intro exI [of _ ?v] exI [of _ v'])
       (auto simp: TracingUnary_eq tracer_Start_def assms(1,2) recording_otel_def recordStatus_def Let_def
         log [unfolded assms(2)] span_of_def split: outcome.splits option.splits prod.splits)
qed

text \<open>
  \<open>splitFullMethod\<close> inverts the composition of a full method name, with or without the
  leading slash, for a service name without slashes that is not empty.
\<close>

theorem splitFullMethod_roundtrip:
  assumes "CHR ''/'' \<notin> set service" and "service \<noteq> []"
  shows "splitFullMethod (CHR ''/'' # service @ CHR ''/'' # method) = (service, method) \<and>
    splitFullMethod (service @ CHR ''/'' # method) = (service, method) \<and>
    splitFullMethod (CHR ''/'' # service) = (service, [])"
proof -
  have "cut_first (CHR ''/'') (s @ CHR ''/'' # m) = Some (s, m)" if "CHR ''/'' \<notin> set s" for s m
    using that by (induction s) auto
  moreover have "cut_first (CHR ''/'') s = None" if "CHR ''/'' \<notin> set s" for s
    using that by (induction s) auto
  ultimately show ?thesis
    using assms by (cases service) (auto simp: splitFullMethod_def trim_slash_def)
qed

section \<open>Witnesses\<close>

definition demo_otel :: "(span_world, demo_base, demo_md, unit, unit, nat) otel_api" where
  "demo_otel = recording_otel [] (\<lambda>ctx _. ctx) (\<lambda>c. if c = OK then ''OK'' else ''NotOK'')"

theorem tracing_span_lifecycle_witness:
  "span_events 0 (snd (TracingUnary demo_api demo_otel (Some \<lparr>TracerProvider = None, Propagators = None\<rparr>)
      (BaseCtx (None, None)) () ''/svc/Get'' (\<lambda>_ _ w. (Return (Some (), None), w)) \<lparr>next_span = 0, span_log = []\<rparr>)) =
    [Started 0 ''/svc/Get'', Attributes 0 (rpc_attributes ''/svc/Get''),
     Attributes 0 [(''rpc.grpc.status_code'', ''OK'')], StatusSet 0 StatusOk [], Ended 0] \<and>
   span_events 0 (snd (TracingUnary demo_api demo_otel (Some \<lparr>TracerProvider = None, Propagators = None\<rparr>)
      (BaseCtx (None, None)) () ''/svc/Get'' (\<lambda>_ _ w. (Panic ''boom'' :: unit unary_result outcome, w))
      \<lparr>next_span = 0, span_log = []\<rparr>)) =
    [Started 0 ''/svc/Get'', Attributes 0 (rpc_attributes ''/svc/Get''), Ended 0]"
proof -
  let ?w = "\<lparr>next_span = 0, span_log = []\<rparr>"
  note life = tracing_span_lifecycle [OF demo_otel_def, of 0 ?w _ _ demo_api "BaseCtx (None, None)"
      "\<lparr>TracerProvider = None, Propagators = None\<rparr>" "''/svc/Get''"]
  have start: "span_events 0 ?w = []" by (simp add: span_events_def)
  show ?thesis
    using life [of "\<lambda>_ _ w. (Return (Some (), None), w)" "()"]
      life [of "\<lambda>_ _ w. (Panic ''boom'' :: unit unary_result outcome, w)" "()"] start
    by (auto simp: demo_api_def)
qed

theorem splitFullMethod_roundtrip_witness:
  "splitFullMethod ''/rawr.Ping/Ping'' = (''rawr.Ping'', ''Ping'')"
  using splitFullMethod_roundtrip [of "''rawr.Ping''" "''Ping''"] by simp

end
