(* ===== verification/Ping.thy ===== *)
theory Ping
  imports Grpc "HOL-Library.Word"
begin

unbundle bit_operations_syntax

text \<open>
  Package ping (ping/ping.go): the built-in ping service, its two handlers and the method
  handler gRPC calls.  The codec is in Ping\_Codec.
\<close>

section \<open>Messages\<close>

record PingRequest =
  req_Message :: string

record PingResponse =
  resp_Message :: string
  ServerTimeUnix :: int

section \<open>Random numbers\<close>

text \<open>
  \<open>math/rand.Rand\<close> over a source: the numbers \<open>Int63\<close> will return, as a function of how many
  have been drawn.  \<open>Int31\<close> is the upper 31 bits.  For a bound that is no power of two numbers
  above the largest multiple of the bound are rejected and drawn again, which need not end
  for a source of the caller's own: a value of \<open>None\<close> is a loop that never ends.
\<close>

type_synonym source = "nat \<Rightarrow> int"

definition Int31 :: "source \<Rightarrow> nat \<Rightarrow> int" where
  "Int31 src p = src p div 2 ^ 32"

partial_function (option) reject_loop :: "source \<Rightarrow> int \<Rightarrow> nat \<Rightarrow> (int \<times> nat) option" where
  "reject_loop draw mx p =
     (if draw p > mx then reject_loop draw mx (p + 1) else Some (draw p, p + 1))"

text \<open>\<open>Int31n\<close> (\<open>rg = 2^31\<close>) and \<open>Int63n\<close> (\<open>rg = 2^63\<close>).\<close>

definition rand_below :: "source \<Rightarrow> int \<Rightarrow> int \<Rightarrow> nat \<Rightarrow> (int \<times> nat) option" where
  "rand_below draw rg n p =
     (if n AND (n - 1) = 0 then Some (draw p AND (n - 1), p + 1)
      else map_option (\<lambda>(v, p'). (v mod n, p')) (reject_loop draw (rg - 1 - rg mod n) p))"

text \<open>\<open>Intn\<close> of a positive bound; it panics for any other.\<close>

definition Intn :: "source \<Rightarrow> int \<Rightarrow> nat \<Rightarrow> (int \<times> nat) option" where
  "Intn src n p =
     (if n \<le> 2 ^ 31 - 1 then rand_below (Int31 src) (2 ^ 31) n p else rand_below src (2 ^ 63) n p)"

section \<open>Handlers\<close>

record ping_world =
  unix_now :: int
  src_drawn :: nat

text \<open>A method that may not return: \<open>None\<close>.\<close>

type_synonym ('w, 'b) ping_method =
  "'b gctx \<Rightarrow> PingRequest \<Rightarrow> 'w \<Rightarrow> ((PingResponse option \<times> gerror option) outcome \<times> 'w) option"

definition defaultHandler_Ping :: "('x ping_world_scheme, 'b) ping_method" where
  "defaultHandler_Ping ctx req w =
     Some (Return (Some \<lparr>resp_Message = req_Message req, ServerTimeUnix = unix_now w\<rparr>, None), w)"

text \<open>The variable as it is initialised; it is exported, and a program may assign to it.\<close>

definition DefaultFunMessages :: "string list" where
  "DefaultFunMessages =
     [''Squirrel power!'', ''Nom nom nom acorns!'', ''Tail flick activated!'', ''Scurry mode engaged!'',
      ''Nuts about this request!'', ''Try use Go Charm its very fun thx to the authors'', ''Katha is scary'']"

record funHandler =
  rng :: source
  msgs :: "string list"

text \<open>\<open>seeded\<close> is \<open>rand.NewSource\<close> of a seed, here the clock.\<close>

definition FunHandler :: "(int \<Rightarrow> source) \<Rightarrow> int \<Rightarrow> source option \<Rightarrow> string list \<Rightarrow> funHandler" where
  "FunHandler seeded now src ms =
     \<lparr>rng = (case src of None \<Rightarrow> seeded now | Some s \<Rightarrow> s),
      msgs = (if ms = [] then DefaultFunMessages else ms)\<rparr>"

definition funHandler_Ping :: "funHandler \<Rightarrow> ('x ping_world_scheme, 'b) ping_method" where
  "funHandler_Ping h ctx req w =
     (case Intn (rng h) 5 (src_drawn w) of
        None \<Rightarrow> None
      | Some (k, p) \<Rightarrow>
          (if k = 0
           then (if msgs h = [] then Some (Panic ''invalid argument to Intn'', w\<lparr>src_drawn := p\<rparr>)
                 else (case Intn (rng h) (int (length (msgs h))) p of
                         None \<Rightarrow> None
                       | Some (i, p') \<Rightarrow>
                           Some (Return (Some \<lparr>resp_Message = msgs h ! nat i, ServerTimeUnix = unix_now w\<rparr>, None),
                             w\<lparr>src_drawn := p'\<rparr>)))
           else Some (Return (Some \<lparr>resp_Message = req_Message req, ServerTimeUnix = unix_now w\<rparr>, None),
                  w\<lparr>src_drawn := p\<rparr>)))"

section \<open>The method handler\<close>

text \<open>
  An \<open>any\<close> on this path: a ping request, or something an interceptor put in its place, on
  which the type assertion panics.
\<close>

datatype ping_any = AnyPing PingRequest | AnyOther string

text \<open>\<open>srv.(Handler).Ping(ctx, req)\<close>, for a method that returns.\<close>

type_synonym ('w, 'b) ping_impl =
  "'b gctx \<Rightarrow> PingRequest \<Rightarrow> ('w, PingResponse option \<times> gerror option) go"

text \<open>The service description: the names under which gRPC finds the method handler.\<close>

record service_desc =
  ServiceName :: string
  MethodNames :: "string list"
  StreamNames :: "string list"
  desc_Metadata :: string

definition ServiceDesc :: service_desc where
  "ServiceDesc = \<lparr>ServiceName = ''rawr.Ping'', MethodNames = [''Ping''], StreamNames = [], desc_Metadata = ''rawr/ping.proto''\<rparr>"

lemma ServiceName_ServiceDesc [simp]: "ServiceName ServiceDesc = ''rawr.Ping''"
  by (simp add: ServiceDesc_def)

definition ping_full_method :: string where
  "ping_full_method = ''/rawr.Ping/Ping''"

text \<open>
  \<open>dec\<close> fills the request it is given, here a new one, and returns its error.
\<close>

type_synonym decoder = "PingRequest \<Rightarrow> gerror option \<times> PingRequest"

definition new_PingRequest :: PingRequest where
  "new_PingRequest = \<lparr>req_Message = []\<rparr>"

text \<open>A decoder that succeeds.\<close>

abbreviation decoded :: "PingRequest \<Rightarrow> decoder" where
  "decoded req \<equiv> \<lambda>_. (None, req)"

definition pingHandler ::
    "('w, 'b) ping_impl \<Rightarrow> 'b gctx \<Rightarrow> decoder
       \<Rightarrow> ('w, 'b, ping_any, PingResponse) unary_interceptor option
       \<Rightarrow> ('w, PingResponse unary_result) go" where
  "pingHandler srv ctx dec interceptor =
     (case dec new_PingRequest of
        (Some err, _) \<Rightarrow> go_return (None, Some err)
      | (None, req) \<Rightarrow>
          (case interceptor of
             None \<Rightarrow> srv ctx req
           | Some ic \<Rightarrow>
               ic ctx (AnyPing req) ping_full_method
                 (\<lambda>ctx r. case r of
                    AnyPing req \<Rightarrow> srv ctx req
                  | AnyOther _ \<Rightarrow> go_panic ''interface conversion'')))"

section \<open>Facts about the random numbers\<close>

lemma reject_loop_result:
  assumes "reject_loop draw mx p = Some y"
  shows "p < snd y \<and> fst y = draw (snd y - 1) \<and> fst y \<le> mx \<and> (\<forall>q. p \<le> q \<and> q < snd y - 1 \<longrightarrow> mx < draw q)"
  using assms
proof (induction draw mx p y rule: reject_loop.raw_induct [rotated, consumes 1])
  case (1 f draw mx p y)
  show ?case
  proof (cases "draw p > mx")
    case True
    with 1(2) have "f draw mx (p + 1) = Some y" by simp
    from 1(1) [OF this] have IH: "p + 1 < snd y \<and> fst y = draw (snd y - 1) \<and> fst y \<le> mx \<and>
        (\<forall>q. p + 1 \<le> q \<and> q < snd y - 1 \<longrightarrow> mx < draw q)" .
    moreover have "mx < draw q" if "p \<le> q" "q < snd y - 1" for q
      using IH True that by (cases "q = p") auto
    ultimately show ?thesis by simp
  qed (use 1 in auto)
qed

lemma reject_loop_Some:
  "reject_loop draw mx p = Some (v, p') \<longleftrightarrow>
     p < p' \<and> v = draw (p' - 1) \<and> v \<le> mx \<and> (\<forall>q. p \<le> q \<and> q < p' - 1 \<longrightarrow> mx < draw q)"
proof
  have go: "p + n + 1 = p' \<Longrightarrow> v = draw (p' - 1) \<Longrightarrow> v \<le> mx \<Longrightarrow>
    (\<forall>q. p \<le> q \<and> q < p' - 1 \<longrightarrow> mx < draw q) \<Longrightarrow> reject_loop draw mx p = Some (v, p')" for n
    by (induction n arbitrary: p) (subst reject_loop.simps; force)+
  assume "p < p' \<and> v = draw (p' - 1) \<and> v \<le> mx \<and> (\<forall>q. p \<le> q \<and> q < p' - 1 \<longrightarrow> mx < draw q)"
  then show "reject_loop draw mx p = Some (v, p')" using go [of "p' - p - 1"] by auto
qed (drule reject_loop_result, simp)

lemma reject_loop_returns: "reject_loop draw mx p \<noteq> None \<longleftrightarrow> (\<exists>q \<ge> p. draw q \<le> mx)"
proof
  assume "reject_loop draw mx p \<noteq> None"
  then obtain v p' where "reject_loop draw mx p = Some (v, p')" by auto
  then show "\<exists>q \<ge> p. draw q \<le> mx" unfolding reject_loop_Some by (intro exI [of _ "p' - 1"]) auto
next
  assume "\<exists>q \<ge> p. draw q \<le> mx"
  then have ex: "\<exists>q. p \<le> q \<and> draw q \<le> mx" by blast
  define q where "q = (LEAST q. p \<le> q \<and> draw q \<le> mx)"
  have q: "p \<le> q" "draw q \<le> mx" using LeastI_ex [OF ex] by (simp_all add: q_def)
  have "mx < draw r" if "p \<le> r" "r < q" for r
    using not_less_Least [of r "\<lambda>q. p \<le> q \<and> draw q \<le> mx"] that by (auto simp: q_def)
  with q have "reject_loop draw mx p = Some (draw q, q + 1)" unfolding reject_loop_Some by auto
  then show "reject_loop draw mx p \<noteq> None" by simp
qed

text \<open>A source gives 63-bit numbers.\<close>

definition is_source :: "source \<Rightarrow> bool" where
  "is_source src \<longleftrightarrow> (\<forall>p. 0 \<le> src p \<and> src p < 2 ^ 63)"

lemma Int31_range: "is_source src \<Longrightarrow> 0 \<le> Int31 src p \<and> Int31 src p < 2 ^ 31"
proof -
  assume "is_source src"
  then have s: "0 \<le> src p" "src p < 2 ^ 63" unfolding is_source_def by blast+
  then have "src p \<le> 2 ^ 63 - 1" by linarith
  then have "src p div 2 ^ 32 \<le> (2 ^ 63 - 1) div 2 ^ 32" by (intro zdiv_mono1) simp_all
  with s show ?thesis by (simp add: Int31_def pos_imp_zdiv_nonneg_iff)
qed

lemma rand_below_range:
  assumes "0 < n" and "rand_below draw rg n p = Some (v, p')"
  shows "0 \<le> v \<and> v < n"
proof (cases "n AND (n - 1) = 0")
  case True
  then have "v = draw p AND (n - 1)" using assms(2) by (simp add: rand_below_def)
  moreover have "draw p AND (n - 1) \<le> n - 1" "0 \<le> draw p AND (n - 1)"
    using assms(1) by (simp_all add: AND_upper2)
  ultimately show ?thesis by simp
next
  case False
  with assms show ?thesis by (auto simp: rand_below_def)
qed

lemma Intn_range: "0 < n \<Longrightarrow> Intn src n p = Some (v, p') \<Longrightarrow> 0 \<le> v \<and> v < n"
  unfolding Intn_def using rand_below_range by (metis (no_types, lifting))

text \<open>
  The accepted numbers are a whole number of periods, so every result is as likely as every
  other when the source is uniform.
\<close>

lemma accepted_periods:
  fixes n :: int
  assumes "0 < n" "n \<le> rg" "0 \<le> k" "k < n"
  shows "int (card {v. 0 \<le> v \<and> v \<le> rg - 1 - rg mod n \<and> v mod n = k}) * n = rg - rg mod n"
proof -
  let ?m = "rg div n"
  have m: "rg - rg mod n = ?m * n" "0 \<le> ?m"
    using assms by (simp_all add: minus_mod_eq_div_mult pos_imp_zdiv_nonneg_iff)
  have "{v. 0 \<le> v \<and> v \<le> rg - 1 - rg mod n \<and> v mod n = k} = (\<lambda>q. q * n + k) ` {0..<?m}" (is "?A = ?B")
  proof (rule set_eqI)
    fix v
    show "v \<in> ?A \<longleftrightarrow> v \<in> ?B"
    proof
      assume "v \<in> ?A"
      then have v: "0 \<le> v" "v < ?m * n" "v mod n = k" using m by auto
      then have "v = v div n * n + k" using div_mult_mod_eq [of v n] by simp
      moreover have "v div n < ?m"
      proof (rule ccontr)
        assume "\<not> v div n < ?m"
        then have "?m * n \<le> v div n * n" using assms(1) by (intro mult_right_mono) auto
        moreover have "v div n * n \<le> v" using \<open>v = v div n * n + k\<close> assms(3) by linarith
        ultimately show False using v(2) by linarith
      qed
      moreover have "0 \<le> v div n" using v(1) assms(1) by (simp add: pos_imp_zdiv_nonneg_iff)
      ultimately show "v \<in> ?B" by auto
    next
      assume "v \<in> ?B"
      then obtain q where q: "0 \<le> q" "q < ?m" "v = q * n + k" by auto
      have "(q + 1) * n \<le> ?m * n" using q(2) assms(1) by (intro mult_right_mono) auto
      then have "v < ?m * n" using q(3) assms(4) by (simp add: distrib_right)
      moreover have "0 \<le> v" using q(1,3) assms(1,3) by simp
      ultimately show "v \<in> ?A" using q(3) m assms(3,4) by auto
    qed
  qed
  moreover have "inj_on (\<lambda>q. q * n + k) {0..<?m}" using assms(1) by (intro inj_onI) auto
  ultimately show ?thesis using m by (simp add: card_image)
qed

lemma funHandler_result:
  assumes "h = FunHandler seeded now src ms" and "length ms < 2 ^ 31"
    and "funHandler_Ping h ctx req w = Some (out, w')"
  shows "\<exists>k p m. Intn (rng h) 5 (src_drawn w) = Some (k, p) \<and> 0 \<le> k \<and> k < 5 \<and>
    out = Return (Some \<lparr>resp_Message = m, ServerTimeUnix = unix_now w\<rparr>, None) \<and>
    (if k = 0 then m \<in> set (if ms = [] then DefaultFunMessages else ms)
     else m = req_Message req \<and> w' = w\<lparr>src_drawn := p\<rparr>)"
proof -
  have ne: "msgs h \<noteq> []" "set (msgs h) = set (if ms = [] then DefaultFunMessages else ms)"
    using assms(1) by (auto simp: FunHandler_def DefaultFunMessages_def)
  obtain k p where draw: "Intn (rng h) 5 (src_drawn w) = Some (k, p)"
    using assms(3) by (auto simp: funHandler_Ping_def split: option.splits)
  note range = Intn_range [OF _ draw]
  show ?thesis
  proof (cases "k = 0")
    case False
    with assms(3) draw range show ?thesis by (auto simp: funHandler_Ping_def)
  next
    case True
    then obtain i p' where i: "Intn (rng h) (int (length (msgs h))) p = Some (i, p')"
      using assms(3) draw ne(1) by (auto simp: funHandler_Ping_def split: option.splits)
    have "0 \<le> i \<and> i < int (length (msgs h))" by (rule Intn_range [OF _ i]) (simp add: ne(1))
    then have "msgs h ! nat i \<in> set (msgs h)" by (intro nth_mem) auto
    with assms(3) draw i True ne show ?thesis by (auto simp: funHandler_Ping_def)
  qed
qed

section \<open>Properties\<close>

text \<open>
  C34: the fun handler, when its draws come to an end, answers with the request's own message
  exactly when the first draw below five is not zero, and otherwise with one of its messages;
  it never panics, and the response carries the time of the call.  Both draws end as soon as
  the source gives an acceptable number.
\<close>

theorem funHandler_answers:
  assumes "h = FunHandler seeded now src ms" and "length ms < 2 ^ 31"
    and "funHandler_Ping h ctx req w = Some (out, w')"
  shows "\<exists>k p m. Intn (rng h) 5 (src_drawn w) = Some (k, p) \<and> 0 \<le> k \<and> k < 5 \<and>
    out = Return (Some \<lparr>resp_Message = m, ServerTimeUnix = unix_now w\<rparr>, None) \<and>
    (if k = 0 then m \<in> set (if ms = [] then DefaultFunMessages else ms)
     else m = req_Message req \<and> w' = w\<lparr>src_drawn := p\<rparr>)"
  by (rule funHandler_result [OF assms])

text \<open>
  \<open>Intn\<close> returns as soon as the source gives one acceptable number, and for a bound
  that is no power of two only then; its result is in range; and each of the \<open>n\<close> results has
  the same number of accepted draws, so a uniform source gives uniform results.
\<close>

theorem Intn_uniform:
  assumes "is_source src" and "1 < n" "n \<le> 2 ^ 31 - 1" and "n AND (n - 1) \<noteq> 0"
  shows "(Intn src n p \<noteq> None \<longleftrightarrow> (\<exists>q \<ge> p. Int31 src q \<le> 2 ^ 31 - 1 - 2 ^ 31 mod n)) \<and>
    (\<forall>v p'. Intn src n p = Some (v, p') \<longrightarrow> 0 \<le> v \<and> v < n \<and> v = Int31 src (p' - 1) mod n) \<and>
    (\<forall>k. 0 \<le> k \<and> k < n \<longrightarrow>
       int (card {d. 0 \<le> d \<and> d \<le> 2 ^ 31 - 1 - 2 ^ 31 mod n \<and> d mod n = k}) * n = 2 ^ 31 - 2 ^ 31 mod n)"
proof (intro conjI allI impI)
  have eq: "Intn src n p = map_option (\<lambda>(v, p'). (v mod n, p')) (reject_loop (Int31 src) (2 ^ 31 - 1 - 2 ^ 31 mod n) p)"
    using assms by (simp add: Intn_def rand_below_def)
  show "Intn src n p \<noteq> None \<longleftrightarrow> (\<exists>q \<ge> p. Int31 src q \<le> 2 ^ 31 - 1 - 2 ^ 31 mod n)"
    unfolding eq reject_loop_returns [symmetric] by simp
  fix v p' assume r: "Intn src n p = Some (v, p')"
  show "0 \<le> v" "v < n" using Intn_range [OF _ r] assms(2) by auto
  show "v = Int31 src (p' - 1) mod n" using r by (auto simp: eq reject_loop_Some)
next
  fix k assume "0 \<le> k \<and> k < n"
  then show "int (card {d. 0 \<le> d \<and> d \<le> 2 ^ 31 - 1 - 2 ^ 31 mod n \<and> d mod n = k}) * n = 2 ^ 31 - 2 ^ 31 mod n"
    using accepted_periods [of n "2 ^ 31" k] assms(2,3) by auto
qed

text \<open>
  the method handler, which is the one the service description's names lead to, runs the service behind the interceptor exactly as gRPC's generated
  handlers do: a request that does not decode returns its error without running anything;
  without an interceptor the service is called; with one, the interceptor gets the request
  and the full method name, and the service runs on what it passes on.
\<close>

theorem pingHandler_dispatch:
  "ping_full_method = CHR ''/'' # ServiceName ServiceDesc @ CHR ''/'' # hd (MethodNames ServiceDesc) \<and>
   pingHandler srv ctx (\<lambda>r. (Some err, r)) ic w = (Return (None, Some err), w) \<and>
   pingHandler srv ctx (decoded req) None w = srv ctx req w \<and>
   pingHandler srv ctx (decoded req) (Some (\<lambda>c r info h. h c r)) w = srv ctx req w \<and>
   pingHandler srv ctx (decoded req) (Some (\<lambda>c r info h. go_return (None, Some (PlainError info)))) w =
     (Return (None, Some (PlainError ''/rawr.Ping/Ping'')), w)"
  by (simp add: pingHandler_def go_return_def ping_full_method_def ServiceDesc_def)

section \<open>Witnesses\<close>

lemma Intn_zero_source: "1 < n \<Longrightarrow> n \<le> 2 ^ 31 - 1 \<Longrightarrow> Intn (\<lambda>_. 0) n p = Some (0, p + 1)"
proof -
  assume n: "1 < n" "n \<le> 2 ^ 31 - 1"
  have "2 ^ 31 mod n < n" using n(1) by simp
  with n have "0 \<le> 2 ^ 31 - 1 - 2 ^ 31 mod n" by linarith
  with n show ?thesis
    by (auto simp: Intn_def rand_below_def Int31_def reject_loop.simps [of _ _ p])
qed

theorem funHandler_answers_witness:
  "funHandler_Ping (FunHandler (\<lambda>_ _. 0) 0 None [''hi'', ''ho'']) (BaseCtx ()) \<lparr>req_Message = ''x''\<rparr>
      \<lparr>unix_now = 7, src_drawn = 0\<rparr> =
     Some (Return (Some \<lparr>resp_Message = ''hi'', ServerTimeUnix = 7\<rparr>, None), \<lparr>unix_now = 7, src_drawn = 2\<rparr>) \<and>
   (\<exists>m. m \<in> {''hi'', ''ho''} \<and> resp_Message \<lparr>resp_Message = ''hi'', ServerTimeUnix = 7\<rparr> = m)"
proof -
  let ?h = "FunHandler (\<lambda>_ _. 0) 0 None [''hi'', ''ho'']" and ?w = "\<lparr>unix_now = 7, src_drawn = 0\<rparr>"
  have h: "rng ?h = (\<lambda>_. 0)" "msgs ?h = [''hi'', ''ho'']" by (simp_all add: FunHandler_def)
  have run: "funHandler_Ping ?h (BaseCtx ()) \<lparr>req_Message = ''x''\<rparr> ?w =
     Some (Return (Some \<lparr>resp_Message = ''hi'', ServerTimeUnix = 7\<rparr>, None), \<lparr>unix_now = 7, src_drawn = 2\<rparr>)"
    using Intn_zero_source [of 5 0] Intn_zero_source [of 2 1] h by (simp add: funHandler_Ping_def)
  from funHandler_answers [OF refl _ this] Intn_zero_source [of 5 0] h run
  show ?thesis by auto
qed

theorem Intn_uniform_witness:
  "Intn (\<lambda>_. 0) 5 0 \<noteq> None \<and>
   int (card {d. 0 \<le> d \<and> d \<le> 2 ^ 31 - 1 - 2 ^ 31 mod 5 \<and> d mod 5 = (0 :: int)}) * 5 = 2 ^ 31 - 2 ^ 31 mod 5"
  using Intn_uniform [of "\<lambda>_. 0" 5 0] by (auto simp: is_source_def Int31_def)

end
