(* ===== verification/Server.thy ===== *)
theory Server
  imports Ratelimit Tracing Ping Cache
begin

text \<open>
  The root package: the configuration (config.go), the options (options.go, defaults.go) and
  the server (server.go), which puts the interceptors of the other packages together.

  A configuration is passed from option to option and returned changed.  Limiters, rate limit
  states and caches are objects shared by pointer: they live in stores of the world, and a
  pointer is an index.  What the library does with gRPC's own server, not part of the
  repository, is recorded as the options it is created with and the services registered.
\<close>

section \<open>State\<close>

record ('lim, 'rc, 'rd) server_world = "'lim rl_world" +
  l1_objs :: "'rc list"
  l2_objs :: "'rd list"

text \<open>The third-party clients the options use, and the text of an error.\<close>

record ('lim, 'rc, 'rd) server_api =
  api_rate :: "'lim rate_api"
  api_rist :: "'rc rist_api"
  api_redis :: "'rd redis_api"
  err_Error :: "gerror \<Rightarrow> string"

text \<open>A non-nil value of the interface \<open>cache.Cache\<close> as the server holds it.\<close>

datatype cache_ref = CacheL1 nat | CacheTiered nat nat

record ('u, 's, 'tp, 'pr) config =
  middlewares :: "('u, 's) MiddlewareBuilder"
  resolver :: "Resolver option"
  ipBlocker :: "IPBlocker option"
  cache :: "cache_ref option"
  l1 :: "nat option"
  l2 :: "nat option"
  tracing :: "('tp, 'pr) TracingConfig option"
  funMode :: bool
  funRand :: "source option"
  funMessages :: "string list"

definition zero_config :: "('u, 's, 'tp, 'pr) config" where
  "zero_config =
     \<lparr>middlewares = empty_builder, resolver = None, ipBlocker = None, cache = None, l1 = None,
      l2 = None, tracing = None, funMode = False, funRand = None, funMessages = []\<rparr>"

section \<open>Options (options.go)\<close>

definition orderTracing :: int where "orderTracing = 5"

definition orderRecovery :: int where "orderRecovery = 10"

definition orderIPBlock :: int where "orderIPBlock = 20"

definition orderRateLimit :: int where "orderRateLimit = 25"

definition orderAuth :: int where "orderAuth = 28"

definition orderRequestID :: int where "orderRequestID = 30"

definition orderInterceptor :: int where "orderInterceptor = 100"

lemmas order_defs [model_simps] =
  orderTracing_def orderRecovery_def orderIPBlock_def orderRateLimit_def orderAuth_def
  orderRequestID_def orderInterceptor_def

text \<open>
  An option may have effects (allocation, a panic).  \<open>config_add\<close> is
  \<open>c.middlewares.Add(order, unary, stream)\<close>.
\<close>

type_synonym ('w, 'u, 's, 'tp, 'pr) Option =
  "('u, 's, 'tp, 'pr) config \<Rightarrow> ('w, ('u, 's, 'tp, 'pr) config) go"

definition config_add ::
    "int \<Rightarrow> 'u option \<Rightarrow> 's option \<Rightarrow> ('u, 's, 'tp, 'pr) config \<Rightarrow> ('u, 's, 'tp, 'pr) config" where
  "config_add order un st c = c\<lparr>middlewares := MiddlewareBuilder_Add (middlewares c) order un st\<rparr>"

definition WithUnaryInterceptor :: "'u option \<Rightarrow> ('w, 'u, 's, 'tp, 'pr) Option" where
  "WithUnaryInterceptor i c = go_return (config_add orderInterceptor i None c)"

definition WithStreamInterceptor :: "'s option \<Rightarrow> ('w, 'u, 's, 'tp, 'pr) Option" where
  "WithStreamInterceptor i c = go_return (config_add orderInterceptor None i c)"

definition WithRecovery ::
    "('w, ('x rand_world_scheme, 'b, 'req, 'resp) unary_interceptor,
      ('x rand_world_scheme, 'b, 'srv, 'ss) stream_interceptor, 'tp, 'pr) Option" where
  "WithRecovery c = go_return
     (config_add orderRequestID (Some RequestIDUnary) (Some RequestIDStream)
       (config_add orderRecovery (Some RecoveryUnary) (Some RecoveryStream) c))"

definition WithResolver :: "Resolver option \<Rightarrow> ('w, 'u, 's, 'tp, 'pr) Option" where
  "WithResolver r c = go_return (c\<lparr>resolver := r\<rparr>)"

definition WithIPBlocker ::
    "('b, 'md) grpc_api \<Rightarrow> IPBlocker option
       \<Rightarrow> ('w, ('v, 'b, 'req, 'resp) unary_interceptor, ('v, 'b, 'srv, 'ss) stream_interceptor, 'tp, 'pr) Option" where
  "WithIPBlocker A b c = go_return
     (config_add orderIPBlock (Some (IPBlockUnary A b)) (Some (IPBlockStream A b)) (c\<lparr>ipBlocker := b\<rparr>))"

definition WithAuth ::
    "('b, 'md) grpc_api \<Rightarrow> ('v, 'b, 'md) AuthFunc
       \<Rightarrow> ('w, ('v, 'b, 'req, 'resp) unary_interceptor, ('v, 'b, 'srv, 'ss) stream_interceptor, 'tp, 'pr) Option" where
  "WithAuth A fn c = go_return (config_add orderAuth (Some (AuthUnary A fn)) (Some (AuthStream A fn)) c)"

text \<open>The resolver the rate limiter uses is the one configured so far.\<close>

definition WithRateLimitGlobal ::
    "'lim rate_api \<Rightarrow> f64 \<Rightarrow> int
       \<Rightarrow> (('lim, 'x) rl_world_scheme, (('lim, 'x) rl_world_scheme, 'b, 'req, 'resp) unary_interceptor,
           (('lim, 'x) rl_world_scheme, 'b, 'srv, 'ss) stream_interceptor, 'tp, 'pr) Option" where
  "WithRateLimitGlobal R rps burst c w =
     (let (l, w1) = NewLimiter R rps burst w;
          (un, w2) = RateLimitUnary R l (resolver c) w1;
          (st, w3) = RateLimitStream R l (resolver c) w2
      in (Return (config_add orderRateLimit (Some un) (Some st) c), w3))"

definition WithCacheL1 ::
    "('lim, 'rc, 'rd) server_api \<Rightarrow> int \<Rightarrow> (('lim, 'rc, 'rd, 'x) server_world_scheme, 'u, 's, 'tp, 'pr) Option" where
  "WithCacheL1 E maxEntries c w =
     (case NewL1 (api_rist E) maxEntries of
        Inl err \<Rightarrow> (Panic (''gorawrsquirrel: failed to create L1 cache: '' @ err_Error E err), w)
      | Inr obj \<Rightarrow>
          (Return (c\<lparr>l1 := Some (length (l1_objs w)), cache := Some (CacheL1 (length (l1_objs w)))\<rparr>),
           w\<lparr>l1_objs := l1_objs w @ [obj]\<rparr>))"

definition WithCacheRedis ::
    "('lim, 'rc, 'rd) server_api \<Rightarrow> string \<Rightarrow> string \<Rightarrow> int
       \<Rightarrow> (('lim, 'rc, 'rd, 'x) server_world_scheme, 'u, 's, 'tp, 'pr) Option" where
  "WithCacheRedis E addr password db c w =
     (Return (c\<lparr>l2 := Some (length (l2_objs w))\<rparr>),
      w\<lparr>l2_objs := l2_objs w @ [NewL2 (api_redis E) addr password db]\<rparr>)"

definition WithFunMode :: "bool \<Rightarrow> ('w, 'u, 's, 'tp, 'pr) Option" where
  "WithFunMode enabled c = go_return (c\<lparr>funMode := enabled\<rparr>)"

definition WithFunRand :: "source option \<Rightarrow> ('w, 'u, 's, 'tp, 'pr) Option" where
  "WithFunRand src c = go_return (c\<lparr>funRand := src\<rparr>)"

definition WithFunMessages :: "string list \<Rightarrow> ('w, 'u, 's, 'tp, 'pr) Option" where
  "WithFunMessages ms c = go_return (c\<lparr>funMessages := ms\<rparr>)"

definition WithOpenTelemetry ::
    "('b, 'md) grpc_api \<Rightarrow> ('v, 'b, 'md, 'tp, 'pr, 'sp) otel_api \<Rightarrow> ('tp, 'pr) TracingConfig
       \<Rightarrow> ('w, ('v, 'b, 'req, 'resp) unary_interceptor, ('v, 'b, 'srv, 'ss) stream_interceptor, 'tp, 'pr) Option" where
  "WithOpenTelemetry A T tc c = go_return
     (config_add orderTracing (Some (TracingUnary A T (Some tc))) (Some (TracingStream A T (Some tc)))
       (c\<lparr>tracing := Some tc\<rparr>))"

text \<open>
  Options are opaque functions for the package's users, so every option is the result of one
  of the calls above; \<open>opt\<close> is the syntax of those calls.
\<close>

datatype ('u, 's, 'a, 'tp, 'pr) opt =
    OptUnary "'u option"
  | OptStream "'s option"
  | OptRecovery
  | OptResolver "Resolver option"
  | OptIPBlocker "IPBlocker option"
  | OptAuth 'a
  | OptRateLimit f64 int
  | OptCacheL1 int
  | OptCacheRedis string string int
  | OptFunMode bool
  | OptFunRand "source option"
  | OptFunMessages "string list"
  | OptTracing "('tp, 'pr) TracingConfig"

fun option_of ::
    "('b, 'md) grpc_api \<Rightarrow> (('lim, 'rc, 'rd, 'x) server_world_scheme, 'b, 'md, 'tp, 'pr, 'sp) otel_api
       \<Rightarrow> ('lim, 'rc, 'rd) server_api
       \<Rightarrow> ((('lim, 'rc, 'rd, 'x) server_world_scheme, 'b, 'req, 'resp) unary_interceptor,
           (('lim, 'rc, 'rd, 'x) server_world_scheme, 'b, 'srv, 'ss) stream_interceptor,
           (('lim, 'rc, 'rd, 'x) server_world_scheme, 'b, 'md) AuthFunc, 'tp, 'pr) opt
       \<Rightarrow> (('lim, 'rc, 'rd, 'x) server_world_scheme,
           (('lim, 'rc, 'rd, 'x) server_world_scheme, 'b, 'req, 'resp) unary_interceptor,
           (('lim, 'rc, 'rd, 'x) server_world_scheme, 'b, 'srv, 'ss) stream_interceptor, 'tp, 'pr) Option" where
  "option_of A T E (OptUnary i) = WithUnaryInterceptor i"
| "option_of A T E (OptStream i) = WithStreamInterceptor i"
| "option_of A T E OptRecovery = WithRecovery"
| "option_of A T E (OptResolver r) = WithResolver r"
| "option_of A T E (OptIPBlocker b) = WithIPBlocker A b"
| "option_of A T E (OptAuth fn) = WithAuth A fn"
| "option_of A T E (OptRateLimit rps burst) = WithRateLimitGlobal (api_rate E) rps burst"
| "option_of A T E (OptCacheL1 n) = WithCacheL1 E n"
| "option_of A T E (OptCacheRedis addr password db) = WithCacheRedis E addr password db"
| "option_of A T E (OptFunMode enabled) = WithFunMode enabled"
| "option_of A T E (OptFunRand src) = WithFunRand src"
| "option_of A T E (OptFunMessages ms) = WithFunMessages ms"
| "option_of A T E (OptTracing tc) = WithOpenTelemetry A T tc"

text \<open>defaults.go\<close>

definition DefaultOptions :: "('u, 's, 'a, 'tp, 'pr) opt list" where
  "DefaultOptions = [OptRecovery]"

section \<open>The server (server.go)\<close>

record ('u, 's, 'h) grpc_server =
  gs_options :: "('u, 's) ServerOption list"
  gs_services :: "(string \<times> 'h) list"

record ('u, 's, 'tp, 'pr, 'h) Server =
  grpcServer :: "('u, 's, 'h) grpc_server"
  srv_cache :: "cache_ref option"
  srv_cfg :: "('u, 's, 'tp, 'pr) config"

text \<open>The loop over the options, and \<open>cache.NewTiered\<close>.\<close>

primrec apply_options :: "('c \<Rightarrow> ('w, 'c) go) list \<Rightarrow> 'c \<Rightarrow> ('w, 'c) go" where
  "apply_options [] c = go_return c"
| "apply_options (f # fs) c = go_bind (f c) (apply_options fs)"

definition NewTiered :: "nat \<Rightarrow> nat \<Rightarrow> cache_ref" where
  "NewTiered l1' l2' = CacheTiered l1' l2'"

definition NewServer ::
    "('w, ('w, 'b, 'req, 'resp) unary_interceptor, ('w, 'b, 'srv, 'ss) stream_interceptor, 'tp, 'pr) Option list
       \<Rightarrow> ('w, (('w, 'b, 'req, 'resp) unary_interceptor, ('w, 'b, 'srv, 'ss) stream_interceptor, 'tp, 'pr, 'h) Server) go" where
  "NewServer opts =
     go_bind (apply_options opts zero_config) (\<lambda>c.
       let c1 = (case (l1 c, l2 c) of
                   (Some a, Some b) \<Rightarrow> c\<lparr>cache := Some (NewTiered a b)\<rparr>
                 | _ \<Rightarrow> c);
           ((un, st), b) = MiddlewareBuilder_Build (middlewares c1);
           serverOpts = BuildServerOptions un st ChainUnary ChainStream
       in go_return \<lparr>grpcServer = \<lparr>gs_options = serverOpts, gs_services = []\<rparr>,
                     srv_cache = cache c1, srv_cfg = c1\<lparr>middlewares := b\<rparr>\<rparr>)"

definition Server_GRPC :: "('u, 's, 'tp, 'pr, 'h) Server \<Rightarrow> ('u, 's, 'h) grpc_server" where
  "Server_GRPC s = grpcServer s"

definition Server_Cache :: "('u, 's, 'tp, 'pr, 'h) Server \<Rightarrow> cache_ref option" where
  "Server_Cache s = srv_cache s"

text \<open>The handler of the Prometheus client, not part of the repository, whatever the server.\<close>

definition Server_MetricsHandler :: "'ph \<Rightarrow> ('u, 's, 'tp, 'pr, 'h) Server \<Rightarrow> 'ph" where
  "Server_MetricsHandler promhttp_Handler s = promhttp_Handler"

text \<open>
  The handlers the ping service can have: the echo handler, a fun handler, or one of the
  caller's; and \<open>ping.Register\<close>, under the name of its service description.
\<close>

datatype 'h ping_handler = DefaultHandler | FunPing funHandler | UserPing 'h

definition Register :: "('u, 's, 'h) grpc_server \<Rightarrow> 'h \<Rightarrow> ('u, 's, 'h) grpc_server" where
  "Register g h = g\<lparr>gs_services := gs_services g @ [(ServiceName ServiceDesc, h)]\<rparr>"

definition RegisterPing ::
    "(int \<Rightarrow> source) \<Rightarrow> int \<Rightarrow> 'h ping_handler option \<Rightarrow> ('u, 's, 'tp, 'pr, 'h ping_handler) Server
       \<Rightarrow> ('u, 's, 'tp, 'pr, 'h ping_handler) Server" where
  "RegisterPing seeded now h s =
     (let h1 = (case h of
                  Some h \<Rightarrow> h
                | None \<Rightarrow>
                    if funMode (srv_cfg s)
                    then FunPing (FunHandler seeded now (funRand (srv_cfg s)) (funMessages (srv_cfg s)))
                    else DefaultHandler)
      in s\<lparr>grpcServer := Register (grpcServer s) h1\<rparr>)"

end
