(* ===== verification/Wiring.thy ===== *)
theory Wiring
  imports Server
begin

text \<open>
  What \<open>NewServer\<close> builds from a list of options (server.go, options.go): the interceptors it
  installs and their order, the objects it creates, and what that means for a request.
\<close>

section \<open>Stable sorting, band by band\<close>

lemma filter_bands:
  "distinct ks \<Longrightarrow> filter (\<lambda>x. f x = k) (concat (map (\<lambda>j. filter (\<lambda>x. f x = j) xs) ks)) =
     (if k \<in> set ks then filter (\<lambda>x. f x = k) xs else [])"
  by (induction ks) (auto simp: filter_empty_conv intro!: filter_cong)

lemma sorted_band: "sorted (map f (filter (\<lambda>x. f x = (k :: 'k::linorder)) xs))"
  by (induction xs) auto

lemma sorted_bands:
  "sorted (ks :: 'k::linorder list) \<Longrightarrow> sorted (map f (concat (map (\<lambda>j. filter (\<lambda>x. f x = j) xs) ks)))"
  by (induction ks) (auto simp: sorted_append sorted_band)

lemma sort_key_bands:
  assumes "sorted ks" "distinct ks" "\<And>x. x \<in> set xs \<Longrightarrow> f x \<in> set ks"
  shows "sort_key f xs = concat (map (\<lambda>k. filter (\<lambda>x. f x = k) xs) ks)"
proof -
  have "sort_key f xs = sort_key f (concat (map (\<lambda>k. filter (\<lambda>x. f x = k) xs) ks))"
    by (rule sort_key_eq_of_bands) (use assms(2,3) in \<open>auto simp: filter_bands filter_empty_conv\<close>)
  also have "\<dots> = concat (map (\<lambda>k. filter (\<lambda>x. f x = k) xs) ks)"
    by (rule sort_key_id_if_sorted) (rule sorted_bands [OF assms(1)])
  finally show ?thesis .
qed

lemma map_filter_append [simp]: "List.map_filter f (xs @ ys) = List.map_filter f xs @ List.map_filter f ys"
  by (simp add: List.map_filter_def)

lemma map_filter_concat: "List.map_filter f (concat xss) = concat (map (List.map_filter f) xss)"
  by (induction xss) (simp_all add: List.map_filter_simps)

section \<open>The middleware of a list of options\<close>

text \<open>The entries an option adds, and how many rate limit states it creates.\<close>

fun opt_entries where
  "opt_entries A T E n (OptUnary i) = [\<lparr>Unary = i, Stream = None, Order = orderInterceptor\<rparr>]"
| "opt_entries A T E n (OptStream i) = [\<lparr>Unary = None, Stream = i, Order = orderInterceptor\<rparr>]"
| "opt_entries A T E n OptRecovery =
     [\<lparr>Unary = Some RecoveryUnary, Stream = Some RecoveryStream, Order = orderRecovery\<rparr>,
      \<lparr>Unary = Some RequestIDUnary, Stream = Some RequestIDStream, Order = orderRequestID\<rparr>]"
| "opt_entries A T E n (OptIPBlocker b) =
     [\<lparr>Unary = Some (IPBlockUnary A b), Stream = Some (IPBlockStream A b), Order = orderIPBlock\<rparr>]"
| "opt_entries A T E n (OptAuth fn) =
     [\<lparr>Unary = Some (AuthUnary A fn), Stream = Some (AuthStream A fn), Order = orderAuth\<rparr>]"
| "opt_entries A T E n (OptRateLimit rps burst) =
     [\<lparr>Unary = Some (rate_limit_unary (api_rate E) n), Stream = Some (rate_limit_stream (api_rate E) (Suc n)),
       Order = orderRateLimit\<rparr>]"
| "opt_entries A T E n (OptTracing tc) =
     [\<lparr>Unary = Some (TracingUnary A T (Some tc)), Stream = Some (TracingStream A T (Some tc)),
       Order = orderTracing\<rparr>]"
| "opt_entries A T E n _ = []"

fun opt_states :: "('u, 's, 'a, 'tp, 'pr) opt \<Rightarrow> nat" where
  "opt_states (OptRateLimit rps burst) = 2"
| "opt_states _ = 0"

primrec all_entries where
  "all_entries A T E n [] = []"
| "all_entries A T E n (x # xs) = opt_entries A T E n x @ all_entries A T E (n + opt_states x) xs"

lemmas option_defs =
  WithUnaryInterceptor_def WithStreamInterceptor_def WithRecovery_def WithResolver_def WithIPBlocker_def
  WithAuth_def WithRateLimitGlobal_def WithCacheL1_def WithCacheRedis_def WithFunMode_def WithFunRand_def
  WithFunMessages_def WithOpenTelemetry_def

lemmas limiter_defs = NewLimiter_def RateLimitUnary_def RateLimitStream_def new_rateLimitState_def

lemma option_entries:
  assumes "option_of A T E x c w = (Return c', w')"
  shows "entries (middlewares c') = entries (middlewares c) @ opt_entries A T E (length (rl_states w)) x \<and>
    length (rl_states w') = length (rl_states w) + opt_states x"
  using assms
  by (cases x) (auto simp: option_defs limiter_defs config_add_def MiddlewareBuilder_Add_def go_return_def
    Let_def split: sum.splits)

lemma go_bind_Return:
  "go_bind m f w = (Return r, w') \<longleftrightarrow> (\<exists>a w1. m w = (Return a, w1) \<and> f a w1 = (Return r, w'))"
  by (auto simp: go_bind_def split: prod.splits outcome.splits)

lemma options_entries:
  assumes "apply_options (map (option_of A T E) xs) c w = (Return c', w')"
  shows "entries (middlewares c') = entries (middlewares c) @ all_entries A T E (length (rl_states w)) xs"
  using assms
proof (induction xs arbitrary: c w)
  case Nil
  then show ?case by (simp add: go_return_def)
next
  case (Cons x xs)
  then obtain c1 w1 where "option_of A T E x c w = (Return c1, w1)"
    "apply_options (map (option_of A T E) xs) c1 w1 = (Return c', w')"
    by (auto simp: go_bind_Return)
  with Cons.IH [of c1 w1] option_entries [of A T E x c w c1 w1] show ?case by simp
qed

section \<open>The chain that is installed\<close>

text \<open>
  The specification of the order: tracing, recovery, IP blocking, rate limiting,
  authentication, request ids, the caller's own interceptors; within each the order of the
  options.  The rate limiters take the states created for them, two for each option.
\<close>

primrec limiter_states :: "nat \<Rightarrow> ('u, 's, 'a, 'tp, 'pr) opt list \<Rightarrow> nat list" where
  "limiter_states n [] = []"
| "limiter_states n (x # xs) =
     (case x of OptRateLimit rps burst \<Rightarrow> n # limiter_states (n + 2) xs | _ \<Rightarrow> limiter_states n xs)"

definition unary_spec where
  "unary_spec A T E n opts =
     [TracingUnary A T (Some tc). OptTracing tc \<leftarrow> opts] @
     [RecoveryUnary. OptRecovery \<leftarrow> opts] @
     [IPBlockUnary A b. OptIPBlocker b \<leftarrow> opts] @
     map (rate_limit_unary (api_rate E)) (limiter_states n opts) @
     [AuthUnary A fn. OptAuth fn \<leftarrow> opts] @
     [RequestIDUnary. OptRecovery \<leftarrow> opts] @
     [i. OptUnary (Some i) \<leftarrow> opts]"

definition stream_spec where
  "stream_spec A T E n opts =
     [TracingStream A T (Some tc). OptTracing tc \<leftarrow> opts] @
     [RecoveryStream. OptRecovery \<leftarrow> opts] @
     [IPBlockStream A b. OptIPBlocker b \<leftarrow> opts] @
     map (\<lambda>st. rate_limit_stream (api_rate E) (Suc st)) (limiter_states n opts) @
     [AuthStream A fn. OptAuth fn \<leftarrow> opts] @
     [RequestIDStream. OptRecovery \<leftarrow> opts] @
     [i. OptStream (Some i) \<leftarrow> opts]"

abbreviation orders :: "int list" where
  "orders \<equiv> [orderTracing, orderRecovery, orderIPBlock, orderRateLimit, orderAuth, orderRequestID, orderInterceptor]"

lemma orders_sorted: "sorted orders" "distinct orders"
  by (simp_all add: order_defs)

lemma entry_orders: "m \<in> set (all_entries A T E n opts) \<Longrightarrow> Order m \<in> set orders"
proof (induction opts arbitrary: n)
  case (Cons x xs)
  then show ?case by (cases x) (auto simp: order_defs)
qed simp

abbreviation unary_band where
  "unary_band k A T E n opts \<equiv> List.map_filter Unary (filter (\<lambda>m. Order m = k) (all_entries A T E n opts))"

abbreviation stream_band where
  "stream_band k A T E n opts \<equiv> List.map_filter Stream (filter (\<lambda>m. Order m = k) (all_entries A T E n opts))"

lemma unary_bands:
  "unary_band orderTracing A T E n opts = [TracingUnary A T (Some tc). OptTracing tc \<leftarrow> opts]"
  "unary_band orderRecovery A T E n opts = [RecoveryUnary. OptRecovery \<leftarrow> opts]"
  "unary_band orderIPBlock A T E n opts = [IPBlockUnary A b. OptIPBlocker b \<leftarrow> opts]"
  "unary_band orderRateLimit A T E n opts = map (rate_limit_unary (api_rate E)) (limiter_states n opts)"
  "unary_band orderAuth A T E n opts = [AuthUnary A fn. OptAuth fn \<leftarrow> opts]"
  "unary_band orderRequestID A T E n opts = [RequestIDUnary. OptRecovery \<leftarrow> opts]"
  "unary_band orderInterceptor A T E n opts = [i. OptUnary (Some i) \<leftarrow> opts]"
  by (induction opts arbitrary: n)
     (auto simp: order_defs List.map_filter_simps split: opt.split option.split)

lemma stream_bands:
  "stream_band orderTracing A T E n opts = [TracingStream A T (Some tc). OptTracing tc \<leftarrow> opts]"
  "stream_band orderRecovery A T E n opts = [RecoveryStream. OptRecovery \<leftarrow> opts]"
  "stream_band orderIPBlock A T E n opts = [IPBlockStream A b. OptIPBlocker b \<leftarrow> opts]"
  "stream_band orderRateLimit A T E n opts =
     map (\<lambda>st. rate_limit_stream (api_rate E) (Suc st)) (limiter_states n opts)"
  "stream_band orderAuth A T E n opts = [AuthStream A fn. OptAuth fn \<leftarrow> opts]"
  "stream_band orderRequestID A T E n opts = [RequestIDStream. OptRecovery \<leftarrow> opts]"
  "stream_band orderInterceptor A T E n opts = [i. OptStream (Some i) \<leftarrow> opts]"
  by (induction opts arbitrary: n)
     (auto simp: order_defs List.map_filter_simps split: opt.split option.split)

lemma sorted_entries:
  "List.map_filter Unary (sort_key Order (all_entries A T E n opts)) = unary_spec A T E n opts"
  "List.map_filter Stream (sort_key Order (all_entries A T E n opts)) = stream_spec A T E n opts"
proof -
  have "sort_key Order (all_entries A T E n opts) =
      concat (map (\<lambda>k. filter (\<lambda>m. Order m = k) (all_entries A T E n opts)) orders)"
    by (rule sort_key_bands [OF orders_sorted]) (rule entry_orders)
  then show "List.map_filter Unary (sort_key Order (all_entries A T E n opts)) = unary_spec A T E n opts"
    "List.map_filter Stream (sort_key Order (all_entries A T E n opts)) = stream_spec A T E n opts"
    by (simp_all only: map_filter_concat map_filter_append map_map o_def list.map concat.simps
        unary_bands stream_bands unary_spec_def stream_spec_def append_Nil2)
qed

lemma NewServer_Return:
  assumes "NewServer (map (option_of A T E) opts) w = (Return s, w')"
  obtains c where "apply_options (map (option_of A T E) opts) zero_config w = (Return c, w')"
    and "gs_options (grpcServer s) =
      BuildServerOptions (unary_spec A T E (length (rl_states w)) opts)
        (stream_spec A T E (length (rl_states w)) opts) ChainUnary ChainStream"
    and "gs_services (grpcServer s) = []"
    and "srv_cache s = (case (l1 c, l2 c) of (Some a, Some b) \<Rightarrow> Some (CacheTiered a b) | _ \<Rightarrow> cache c)"
    and "funMode (srv_cfg s) = funMode c" "funRand (srv_cfg s) = funRand c" "funMessages (srv_cfg s) = funMessages c"
proof -
  obtain c where c: "apply_options (map (option_of A T E) opts) zero_config w = (Return c, w')"
    using assms by (auto simp: NewServer_def go_bind_Return go_return_def split_beta Let_def)
  have "entries (middlewares c) = all_entries A T E (length (rl_states w)) opts"
    using options_entries [OF c] by (simp add: zero_config_def empty_builder_def)
  then have "fst (MiddlewareBuilder_Build (middlewares c)) =
      (unary_spec A T E (length (rl_states w)) opts, stream_spec A T E (length (rl_states w)) opts)"
    by (simp add: Build_eq sorted_entries)
  with c assms show thesis
    by (intro that [OF c])
       (auto simp: NewServer_def go_bind_def go_return_def Let_def NewTiered_def split: prod.splits option.splits)
qed

lemma BuildServerOptions_onion:
  "BuildServerOptions us ss ChainUnary ChainStream =
     (if us = [] then [] else [UnaryInterceptor (\<lambda>ctx req info h. onion us info h ctx req)]) @
     (if ss = [] then [] else [StreamInterceptor (\<lambda>srv ss' info h. onion ss info h srv ss')])"
  by (simp add: BuildServerOptions_def unary.chain_onion stream.chain_onion)

lemma installed:
  assumes "NewServer (map (option_of A T E) opts) w = (Return s, w')"
  shows "UnaryInterceptor u \<in> set (gs_options (grpcServer s)) \<Longrightarrow>
      u ctx req info h = onion (unary_spec A T E (length (rl_states w)) opts) info h ctx req"
    "StreamInterceptor t \<in> set (gs_options (grpcServer s)) \<Longrightarrow>
      t srv ss info k = onion (stream_spec A T E (length (rl_states w)) opts) info k srv ss"
proof -
  have g: "gs_options (grpcServer s) =
      BuildServerOptions (unary_spec A T E (length (rl_states w)) opts)
        (stream_spec A T E (length (rl_states w)) opts) ChainUnary ChainStream"
    by (rule NewServer_Return [OF assms])
  show "UnaryInterceptor u \<in> set (gs_options (grpcServer s)) \<Longrightarrow>
      u ctx req info h = onion (unary_spec A T E (length (rl_states w)) opts) info h ctx req"
    "StreamInterceptor t \<in> set (gs_options (grpcServer s)) \<Longrightarrow>
      t srv ss info k = onion (stream_spec A T E (length (rl_states w)) opts) info k srv ss"
    unfolding g BuildServerOptions_onion by (simp_all split: if_splits)
qed

section \<open>Requests\<close>

lemma recovery_returns [simp]:
  "is_return (fst (RecoveryUnary ctx req info h w))" "is_return (fst (RecoveryStream srv ss info k w))"
  by (simp_all add: RecoveryUnary_def RecoveryStream_def go_recover_returns)

lemma recovery_band:
  "h x y w = (Return r, w') \<Longrightarrow> onion [RecoveryUnary. OptRecovery \<leftarrow> opts] info h x y w = (Return r, w')"
  "k x' y' w = (Return r', w') \<Longrightarrow> onion [RecoveryStream. OptRecovery \<leftarrow> opts] info k x' y' w = (Return r', w')"
  by (induction opts) (auto simp: RecoveryUnary_def RecoveryStream_def go_recover_def split: opt.split)

lemma recovery_band_returns:
  assumes "OptRecovery \<in> set opts"
  shows "is_return (fst (onion [RecoveryUnary. OptRecovery \<leftarrow> opts] info h x y w))"
    "is_return (fst (onion [RecoveryStream. OptRecovery \<leftarrow> opts] info k x' y' w))"
  using assms by (induction opts) (auto split: opt.splits)

text \<open>The IP blockers reject without a trace when one of them denies, and are transparent otherwise.\<close>

definition ip_denied where
  "ip_denied A opts ctx \<longleftrightarrow>
     (\<exists>b. OptIPBlocker (Some b) \<in> set opts \<and> \<not> Evaluate A b ctx (fst (FromIncomingContext A ctx)))"

lemma ip_block_eq:
  "IPBlockUnary A (Some b) ctx req info h w =
     (if Evaluate A b ctx (fst (FromIncomingContext A ctx)) then h ctx req w else (Return (None, Some errBlocked), w))"
  "IPBlockStream A (Some b) srv ss info k w =
     (if Evaluate A b (ss_ctx ss) (fst (FromIncomingContext A (ss_ctx ss))) then k srv ss w
      else (Return (Some errBlocked), w))"
  by (simp_all add: IPBlockUnary_def IPBlockStream_def IPBlocker_Evaluate_def go_unfold split_beta Let_def)

lemma ip_band_unary:
  "OptIPBlocker None \<notin> set opts \<Longrightarrow> onion [IPBlockUnary A b. OptIPBlocker b \<leftarrow> opts] info h ctx req w =
     (if ip_denied A opts ctx then (Return (None, Some errBlocked), w) else h ctx req w)"
proof (induction opts)
  case (Cons x xs)
  show ?case
  proof (cases "\<exists>b. x = OptIPBlocker b")
    case True
    with Cons.prems obtain b where "x = OptIPBlocker (Some b)" by fastforce
    with Cons show ?thesis by (auto simp: ip_block_eq ip_denied_def)
  qed (use Cons in \<open>auto simp: ip_denied_def split: opt.split\<close>)
qed (simp add: ip_denied_def)

lemma ip_band_stream:
  "OptIPBlocker None \<notin> set opts \<Longrightarrow> onion [IPBlockStream A b. OptIPBlocker b \<leftarrow> opts] info k srv ss w =
     (if ip_denied A opts (ss_ctx ss) then (Return (Some errBlocked), w) else k srv ss w)"
proof (induction opts)
  case (Cons x xs)
  show ?case
  proof (cases "\<exists>b. x = OptIPBlocker b")
    case True
    with Cons.prems obtain b where "x = OptIPBlocker (Some b)" by fastforce
    with Cons show ?thesis by (auto simp: ip_block_eq ip_denied_def)
  qed (use Cons in \<open>auto simp: ip_denied_def split: opt.split\<close>)
qed (simp add: ip_denied_def)

text \<open>
  A request asks the limiters one after the other: each looks the bucket of the method up and
  takes a token, and the first that refuses is the last asked.
\<close>

primrec ask_limiters ::
    "'lim rate_api \<Rightarrow> string \<Rightarrow> nat list \<Rightarrow> ('lim, 'x) rl_world_scheme \<Rightarrow> bool \<times> ('lim, 'x) rl_world_scheme" where
  "ask_limiters R m [] w = (True, w)"
| "ask_limiters R m (st # sts) w =
     (if fst (rate_Allow R (clock w) (bucket R w st m)) then ask_limiters R m sts (after_request R st m w)
      else (False, after_request R st m w))"

lemma rl_band:
  "ask_limiters R info sts w = (False, w') \<Longrightarrow>
   onion (map (rate_limit_unary R) sts) info h ctx req w = (Return (None, Some errRateLimited), w')"
  "ask_limiters R info (map Suc sts) w = (False, w') \<Longrightarrow>
   onion (map (\<lambda>st. rate_limit_stream R (Suc st)) sts) info k srv ss w = (Return (Some errRateLimited), w')"
  by (induction sts arbitrary: w)
     (auto simp: rl_u.guard rl_s.guard rl_verdict_eq go_unfold split: if_splits)

lemma tracing_band_unary:
  assumes "\<And>x y w. is_return (fst (h x y w))"
  shows "is_return (fst (onion [TracingUnary A T (Some tc). OptTracing tc \<leftarrow> opts] info h x y w))"
proof (induction opts arbitrary: x y w)
  case (Cons a opts)
  then show ?case by (cases a) (simp_all add: TracingUnary_returns)
qed (simp add: assms)

lemma tracing_band_stream:
  assumes "\<And>x y w. is_return (fst (k x y w))"
  shows "is_return (fst (onion [TracingStream A T (Some tc). OptTracing tc \<leftarrow> opts] info k x y w))"
proof (induction opts arbitrary: x y w)
  case (Cons a opts)
  then show ?case by (cases a) (simp_all add: TracingStream_returns)
qed (simp add: assms)

lemma no_tracing_band:
  "(\<And>tc. OptTracing tc \<notin> set opts) \<Longrightarrow> [f tc. OptTracing tc \<leftarrow> opts] = []"
  by (induction opts) (auto split: opt.split)

section \<open>Swapping options\<close>

fun opt_kind :: "('u, 's, 'a, 'tp, 'pr) opt \<Rightarrow> nat" where
  "opt_kind (OptUnary _) = 0"
| "opt_kind (OptStream _) = 1"
| "opt_kind OptRecovery = 2"
| "opt_kind (OptResolver _) = 3"
| "opt_kind (OptIPBlocker _) = 4"
| "opt_kind (OptAuth _) = 5"
| "opt_kind (OptRateLimit _ _) = 6"
| "opt_kind (OptCacheL1 _) = 7"
| "opt_kind (OptCacheRedis _ _ _) = 8"
| "opt_kind (OptFunMode _) = 9"
| "opt_kind (OptFunRand _) = 10"
| "opt_kind (OptFunMessages _) = 11"
| "opt_kind (OptTracing _) = 12"

text \<open>Calls that may change places: of different kinds, and not a resolver and a rate limit.\<close>

definition independent :: "('u, 's, 'a, 'tp, 'pr) opt \<Rightarrow> ('u, 's, 'a, 'tp, 'pr) opt \<Rightarrow> bool" where
  "independent a b \<longleftrightarrow>
     opt_kind a \<noteq> opt_kind b \<and> (opt_kind a, opt_kind b) \<noteq> (3, 6) \<and> (opt_kind a, opt_kind b) \<noteq> (6, 3)"

lemma kind_swap:
  assumes "opt_kind a \<noteq> opt_kind b" and "\<And>x. f x \<noteq> [] \<Longrightarrow> opt_kind x = k"
  shows "concat (map f (xs @ [a, b] @ ys)) = concat (map f (xs @ [b, a] @ ys))"
proof -
  have "f a = [] \<or> f b = []" using assms by metis
  then show ?thesis by auto
qed

lemma limiter_states_append:
  "limiter_states n (xs @ ys) = limiter_states n xs @ limiter_states (n + 2 * length (limiter_states n xs)) ys"
  by (induction xs arbitrary: n) (auto split: opt.split simp: algebra_simps)

lemma limiter_states_swap:
  "opt_kind a \<noteq> opt_kind b \<Longrightarrow> limiter_states n (xs @ [a, b] @ ys) = limiter_states n (xs @ [b, a] @ ys)"
  by (simp only: limiter_states_append [of n xs]) (auto split: opt.splits)

lemma spec_swap:
  assumes "opt_kind a \<noteq> opt_kind b"
  shows "unary_spec A T E n (xs @ [a, b] @ ys) = unary_spec A T E n (xs @ [b, a] @ ys)"
    "stream_spec A T E n (xs @ [a, b] @ ys) = stream_spec A T E n (xs @ [b, a] @ ys)"
proof -
  note swap = kind_swap [OF assms, of _ _ xs ys]
  show "unary_spec A T E n (xs @ [a, b] @ ys) = unary_spec A T E n (xs @ [b, a] @ ys)"
    unfolding unary_spec_def limiter_states_swap [OF assms]
    by (intro arg_cong2 [where f = append] swap refl, auto split: opt.splits option.splits)
  show "stream_spec A T E n (xs @ [a, b] @ ys) = stream_spec A T E n (xs @ [b, a] @ ys)"
    unfolding stream_spec_def limiter_states_swap [OF assms]
    by (intro arg_cong2 [where f = append] swap refl, auto split: opt.splits option.splits)
qed

text \<open>The configuration without the middleware: all that later options and the server read.\<close>

definition settings :: "('u, 's, 'tp, 'pr) config \<Rightarrow> ('u, 's, 'tp, 'pr) config" where
  "settings c = c\<lparr>middlewares := empty_builder\<rparr>"

lemma settings_eq_iff:
  "settings d = settings c \<longleftrightarrow>
     resolver d = resolver c \<and> ipBlocker d = ipBlocker c \<and> cache d = cache c \<and> l1 d = l1 c \<and> l2 d = l2 c \<and>
     tracing d = tracing c \<and> funMode d = funMode c \<and> funRand d = funRand c \<and> funMessages d = funMessages c"
  by (cases c; cases d) (auto simp: settings_def)

text \<open>
  What an option does apart from the middleware: whether it returns, the settings it writes,
  given the world it runs in, and the objects it creates.
\<close>

fun opt_ok :: "('lim, 'rc, 'rd) server_api \<Rightarrow> ('u, 's, 'a, 'tp, 'pr) opt \<Rightarrow> bool" where
  "opt_ok E (OptCacheL1 n) = (case NewL1 (api_rist E) n of Inl _ \<Rightarrow> False | Inr _ \<Rightarrow> True)"
| "opt_ok E _ = True"

fun opt_set ::
    "('lim, 'rc, 'rd, 'x) server_world_scheme \<Rightarrow> ('u, 's, 'a, 'tp, 'pr) opt
       \<Rightarrow> ('u, 's, 'tp, 'pr) config \<Rightarrow> ('u, 's, 'tp, 'pr) config" where
  "opt_set w (OptResolver r) c = c\<lparr>resolver := r\<rparr>"
| "opt_set w (OptIPBlocker b) c = c\<lparr>ipBlocker := b\<rparr>"
| "opt_set w (OptCacheL1 n) c = c\<lparr>l1 := Some (length (l1_objs w)), cache := Some (CacheL1 (length (l1_objs w)))\<rparr>"
| "opt_set w (OptCacheRedis addr password db) c = c\<lparr>l2 := Some (length (l2_objs w))\<rparr>"
| "opt_set w (OptFunMode enabled) c = c\<lparr>funMode := enabled\<rparr>"
| "opt_set w (OptFunRand src) c = c\<lparr>funRand := src\<rparr>"
| "opt_set w (OptFunMessages ms) c = c\<lparr>funMessages := ms\<rparr>"
| "opt_set w (OptTracing tc) c = c\<lparr>tracing := Some tc\<rparr>"
| "opt_set w _ c = c"

fun opt_world ::
    "('lim, 'rc, 'rd) server_api \<Rightarrow> Resolver option \<Rightarrow> ('u, 's, 'a, 'tp, 'pr) opt
       \<Rightarrow> ('lim, 'rc, 'rd, 'x) server_world_scheme \<Rightarrow> ('lim, 'rc, 'rd, 'x) server_world_scheme" where
  "opt_world E r (OptRateLimit rps burst) w =
     (let s = \<lparr>rl_global = length (limiters w), rl_resolver = r, rl_groups = Map.empty\<rparr>
      in w\<lparr>limiters := limiters w @ [rate_NewLimiter (api_rate E) rps burst], rl_states := rl_states w @ [s, s]\<rparr>)"
| "opt_world E r (OptCacheL1 n) w = w\<lparr>l1_objs := l1_objs w @ [projr (NewL1 (api_rist E) n)]\<rparr>"
| "opt_world E r (OptCacheRedis addr password db) w = w\<lparr>l2_objs := l2_objs w @ [NewL2 (api_redis E) addr password db]\<rparr>"
| "opt_world E r _ w = w"

lemma option_effect:
  "(\<exists>c'. option_of A T E x c w = (Return c', w') \<and> settings c' = d) \<longleftrightarrow>
     opt_ok E x \<and> d = opt_set w x (settings c) \<and> w' = opt_world E (resolver c) x w"
  by (cases x)
     (auto simp: option_defs limiter_defs config_add_def go_return_def Let_def settings_def split: sum.splits)

primrec opts_set where
  "opts_set E w [] c = c"
| "opts_set E w (x # xs) c = opts_set E (opt_world E (resolver c) x w) xs (opt_set w x c)"

primrec opts_world where
  "opts_world E w [] c = w"
| "opts_world E w (x # xs) c = opts_world E (opt_world E (resolver c) x w) xs (opt_set w x c)"

lemma settings_fields [simp]:
  "resolver (settings c) = resolver c" "l1 (settings c) = l1 c" "l2 (settings c) = l2 c"
  "cache (settings c) = cache c" "funMode (settings c) = funMode c"
  by (simp_all add: settings_def)

lemma settings_zero [simp]: "settings zero_config = zero_config"
  by (simp add: settings_def zero_config_def)

lemma options_effect:
  "(\<exists>c'. apply_options (map (option_of A T E) xs) c w = (Return c', w') \<and> settings c' = d) \<longleftrightarrow>
     list_all (opt_ok E) xs \<and> d = opts_set E w xs (settings c) \<and> w' = opts_world E w xs (settings c)"
proof (induction xs arbitrary: c w)
  case Nil
  then show ?case by (auto simp: go_return_def)
next
  case (Cons x xs)
  have "(\<exists>c'. apply_options (map (option_of A T E) (x # xs)) c w = (Return c', w') \<and> settings c' = d) \<longleftrightarrow>
      (\<exists>c1 w1. option_of A T E x c w = (Return c1, w1) \<and>
        (\<exists>c'. apply_options (map (option_of A T E) xs) c1 w1 = (Return c', w') \<and> settings c' = d))"
    by (auto simp: go_bind_Return)
  also have "\<dots> \<longleftrightarrow> (\<exists>d1 w1. (\<exists>c1. option_of A T E x c w = (Return c1, w1) \<and> settings c1 = d1) \<and>
      list_all (opt_ok E) xs \<and> d = opts_set E w1 xs d1 \<and> w' = opts_world E w1 xs d1)"
    unfolding Cons.IH by blast
  also have "\<dots> \<longleftrightarrow> list_all (opt_ok E) (x # xs) \<and> d = opts_set E w (x # xs) (settings c) \<and>
      w' = opts_world E w (x # xs) (settings c)"
    unfolding option_effect by auto
  finally show ?case .
qed

lemma swap_effect:
  assumes "independent a b"
  shows "opts_set E w [a, b] c = opts_set E w [b, a] c \<and> opts_world E w [a, b] c = opts_world E w [b, a] c"
  using assms by (cases a; cases b) (simp_all add: independent_def Let_def)

lemma opts_append:
  "opts_set E w (xs @ ys) c = opts_set E (opts_world E w xs c) ys (opts_set E w xs c)"
  "opts_world E w (xs @ ys) c = opts_world E (opts_world E w xs c) ys (opts_set E w xs c)"
  by (induction xs arbitrary: w c) simp_all

lemma swap_effects:
  assumes "independent a b"
  shows "opts_set E w (xs @ [a, b] @ ys) c = opts_set E w (xs @ [b, a] @ ys) c"
    "opts_world E w (xs @ [a, b] @ ys) c = opts_world E w (xs @ [b, a] @ ys) c"
  unfolding opts_append using swap_effect [OF assms] by metis+

section \<open>The server as a function of its options\<close>

lemma server_settings:
  assumes "NewServer (map (option_of A T E) opts) w = (Return s, w')"
  shows "list_all (opt_ok E) opts" "w' = opts_world E w opts zero_config"
    and "srv_cache s =
      (case (l1 (opts_set E w opts zero_config), l2 (opts_set E w opts zero_config)) of
         (Some a, Some b) \<Rightarrow> Some (CacheTiered a b)
       | _ \<Rightarrow> cache (opts_set E w opts zero_config))"
    and "funMode (srv_cfg s) = funMode (opts_set E w opts zero_config)"
    and "funRand (srv_cfg s) = funRand (opts_set E w opts zero_config)"
    and "funMessages (srv_cfg s) = funMessages (opts_set E w opts zero_config)"
proof -
  obtain c where c: "apply_options (map (option_of A T E) opts) zero_config w = (Return c, w')"
    and s: "srv_cache s = (case (l1 c, l2 c) of (Some a, Some b) \<Rightarrow> Some (CacheTiered a b) | _ \<Rightarrow> cache c)"
      "funMode (srv_cfg s) = funMode c" "funRand (srv_cfg s) = funRand c" "funMessages (srv_cfg s) = funMessages c"
    by (rule NewServer_Return [OF assms])
  have e: "list_all (opt_ok E) opts \<and> settings c = opts_set E w opts zero_config \<and> w' = opts_world E w opts zero_config"
    using options_effect [of A T E opts zero_config w w' "settings c"] c by auto
  then show "list_all (opt_ok E) opts" "w' = opts_world E w opts zero_config" by simp_all
  show "srv_cache s =
      (case (l1 (opts_set E w opts zero_config), l2 (opts_set E w opts zero_config)) of
         (Some a, Some b) \<Rightarrow> Some (CacheTiered a b)
       | _ \<Rightarrow> cache (opts_set E w opts zero_config))"
    "funMode (srv_cfg s) = funMode (opts_set E w opts zero_config)"
    "funRand (srv_cfg s) = funRand (opts_set E w opts zero_config)"
    "funMessages (srv_cfg s) = funMessages (opts_set E w opts zero_config)"
    using e s unfolding conjunct1 [OF conjunct2 [OF e], symmetric] by (simp_all add: settings_def split: option.split)
qed

lemma server_grpc:
  assumes "NewServer (map (option_of A T E) opts) w = (Return s, w')"
  shows "gs_options (grpcServer s) =
      BuildServerOptions (unary_spec A T E (length (rl_states w)) opts)
        (stream_spec A T E (length (rl_states w)) opts) ChainUnary ChainStream"
    "gs_services (grpcServer s) = []"
  by (rule NewServer_Return [OF assms], assumption)+

lemma server_returns:
  assumes "list_all (opt_ok E) opts"
  obtains s where "NewServer (map (option_of A T E) opts) w = (Return s, opts_world E w opts zero_config)"
proof -
  obtain c where "apply_options (map (option_of A T E) opts) zero_config w =
      (Return c, opts_world E w opts zero_config)"
    using options_effect [of A T E opts zero_config w "opts_world E w opts zero_config"
        "opts_set E w opts zero_config"] assms by auto
  then have "\<exists>s. NewServer (map (option_of A T E) opts) w = (Return s, opts_world E w opts zero_config)"
    by (simp add: NewServer_def go_bind_def go_return_def Let_def split_beta)
  then show thesis using that by blast
qed

lemma opts_caches:
  defines "k1 xs \<equiv> length (filter (\<lambda>x. opt_kind x = 7) xs)" and "k2 xs \<equiv> length (filter (\<lambda>x. opt_kind x = 8) xs)"
  shows "length (l1_objs (opts_world E w xs c)) = length (l1_objs w) + k1 xs"
    "length (l2_objs (opts_world E w xs c)) = length (l2_objs w) + k2 xs"
    "l1 (opts_set E w xs c) = (if k1 xs = 0 then l1 c else Some (length (l1_objs w) + k1 xs - 1))"
    "cache (opts_set E w xs c) = (if k1 xs = 0 then cache c else Some (CacheL1 (length (l1_objs w) + k1 xs - 1)))"
    "l2 (opts_set E w xs c) = (if k2 xs = 0 then l2 c else Some (length (l2_objs w) + k2 xs - 1))"
proof (induction xs arbitrary: w c)
  case (Cons x xs)
  { case 1 show ?case by (cases x) (simp_all add: Cons k1_def Let_def) }
  { case 2 show ?case by (cases x) (simp_all add: Cons k2_def Let_def) }
  { case 3 show ?case by (cases x) (simp_all add: Cons k1_def Let_def) }
  { case 4 show ?case by (cases x) (simp_all add: Cons k1_def Let_def) }
  { case 5 show ?case by (cases x) (simp_all add: Cons k2_def Let_def) }
qed (simp_all add: k1_def k2_def)

section \<open>Limiters of a server\<close>

lemma opt_world_steps:
  assumes "rl_wf w"
  shows "steps (rl_step (api_rate E)) w (opt_world E r x w)"
proof (cases "\<exists>rps burst. x = OptRateLimit rps burst")
  case True
  then obtain rps burst where x: "x = OptRateLimit rps burst" by blast
  let ?w1 = "snd (NewLimiter (api_rate E) rps burst w)" and ?l = "length (limiters w)"
  let ?w2 = "snd (new_rateLimitState ?l r ?w1)"
  have "?l \<notin> group_limiters w" using assms by (auto simp: rl_wf_def)
  moreover have "group_limiters ?w2 = group_limiters w" "group_limiters ?w1 = group_limiters w"
    by (auto simp: group_limiters_def limiter_defs)
  ultimately have l: "?l \<notin> group_limiters ?w1" "?l \<notin> group_limiters ?w2" by simp_all
  have "rl_step (api_rate E) w ?w1" by (rule rl_limiter)
  moreover have "rl_step (api_rate E) ?w1 ?w2"
    by (rule rl_install) (use l in \<open>simp_all add: NewLimiter_def\<close>)
  moreover have "rl_step (api_rate E) ?w2 (snd (new_rateLimitState ?l r ?w2))"
    by (rule rl_install) (use l in \<open>simp_all add: limiter_defs\<close>)
  ultimately have "steps (rl_step (api_rate E)) w (snd (new_rateLimitState ?l r ?w2))"
    by (meson steps_refl steps_step)
  then show ?thesis by (simp add: x limiter_defs Let_def)
next
  case False
  then have "rl_step (api_rate E) w (opt_world E r x w)"
    by (intro rl_other; cases x) auto
  then show ?thesis by (meson steps_refl steps_step)
qed

lemma steps_trans: "steps step t u \<Longrightarrow> steps step s t \<Longrightarrow> steps step s u"
  by (induction rule: steps.induct) (auto intro: steps_step)

lemma opts_world_steps:
  "rl_wf w \<Longrightarrow> steps (rl_step (api_rate E)) w (opts_world E w xs c)"
proof (induction xs arbitrary: w c)
  case (Cons x xs)
  have first: "steps (rl_step (api_rate E)) w (opt_world E (resolver c) x w)"
    by (rule opt_world_steps [OF Cons.prems])
  show ?case
    using Cons.IH [OF rl.inv_steps [OF first Cons.prems]] first by (auto intro: steps_trans)
qed (simp add: steps_refl)

lemma length_limiter_states: "length (limiter_states n xs) = length (filter (\<lambda>x. opt_kind x = 6) xs)"
proof (induction xs arbitrary: n)
  case (Cons x xs)
  then show ?case by (cases x) simp_all
qed simp

lemma opts_world_states:
  "length (rl_states (opts_world E w xs c)) = length (rl_states w) + 2 * length (filter (\<lambda>x. opt_kind x = 6) xs)"
proof (induction xs arbitrary: w c)
  case (Cons x xs)
  then show ?case by (cases x) (simp_all add: Let_def)
qed simp

lemma limiter_states_bound: "j \<in> set (limiter_states n xs) \<Longrightarrow> Suc j < n + 2 * length (limiter_states n xs)"
proof (induction xs arbitrary: n)
  case (Cons x xs)
  then show ?case by (cases x) fastforce+
qed simp

lemma opts_world_kept:
  "j < length (rl_states w) \<Longrightarrow> rl_states (opts_world E w xs c) ! j = rl_states w ! j"
proof (induction xs arbitrary: w c)
  case (Cons x xs)
  have "j < length (rl_states (opt_world E (resolver c) x w)) \<and>
      rl_states (opt_world E (resolver c) x w) ! j = rl_states w ! j"
    using Cons.prems by (cases x) (simp_all add: Let_def nth_append)
  with Cons.IH [of "opt_world E (resolver c) x w"] show ?case by simp
qed simp

lemma opts_world_limiters:
  "length (limiters (opts_world E w xs c)) = length (limiters w) + length (filter (\<lambda>x. opt_kind x = 6) xs)"
  "l < length (limiters w) \<Longrightarrow> limiters (opts_world E w xs c) ! l = limiters w ! l"
proof (induction xs arbitrary: w c)
  case (Cons x xs)
  { case 1 show ?case by (cases x) (simp_all add: Cons.IH(1) Let_def) }
  { case 2 then show ?case by (cases x) (simp_all add: Cons.IH(2) Let_def nth_append) }
qed simp_all

text \<open>The global limiter of the \<open>j\<close>-th state created: one limiter for two states.\<close>

lemma opts_world_globals:
  "j < 2 * length (filter (\<lambda>x. opt_kind x = 6) xs) \<Longrightarrow>
   rl_global (rl_states (opts_world E w xs c) ! (length (rl_states w) + j)) = length (limiters w) + j div 2"
proof (induction xs arbitrary: w c j)
  case (Cons x xs)
  let ?w1 = "opt_world E (resolver c) x w"
  show ?case
  proof (cases "\<exists>rps burst. x = OptRateLimit rps burst")
    case True
    then obtain rps burst where x: "x = OptRateLimit rps burst" by blast
    show ?thesis
    proof (cases "j < 2")
      case True
      then show ?thesis by (auto simp: x Let_def opts_world_kept nth_append less_2_cases_iff)
    next
      case False
      then have "j = 2 + (j - 2)" by simp
      then obtain i where j: "j = 2 + i" by blast
      then have "i < 2 * length (filter (\<lambda>x. opt_kind x = 6) xs)" using Cons.prems by (simp add: x)
      from Cons.IH [OF this, of ?w1 "opt_set w x c"] show ?thesis by (simp add: x j Let_def)
    qed
  next
    case False
    then have "opt_kind x \<noteq> 6" "rl_states ?w1 = rl_states w" "limiters ?w1 = limiters w"
      by (cases x; simp)+
    with Cons.IH [of j ?w1 "opt_set w x c"] Cons.prems show ?thesis by simp
  qed
qed simp

lemma other_globals:
  assumes "rl_wf w" "w' = opts_world E w (xs @ x # ys) c" "j < length (rl_states w')"
    and "st = length (rl_states w) + 2 * length (filter (\<lambda>x. opt_kind x = 6) xs)"
  shows "rl_global (rl_states w' ! j) = length (limiters w) + length (filter (\<lambda>x. opt_kind x = 6) xs) \<longleftrightarrow>
    j \<in> {st, Suc st}"
proof (cases "j < length (rl_states w)")
  case True
  then have "rl_global (rl_states w ! j) < length (limiters w)" using assms(1) nth_mem by (fastforce simp: rl_wf_def)
  with True show ?thesis by (auto simp: assms(2,4) opts_world_kept)
next
  case False
  then obtain i where j: "j = length (rl_states w) + i" using le_Suc_ex not_less by blast
  have "i < 2 * length (filter (\<lambda>x. opt_kind x = 6) (xs @ x # ys))"
    using assms(3) unfolding assms(2) opts_world_states by (simp add: j)
  then have "rl_global (rl_states w' ! j) = length (limiters w) + i div 2"
    unfolding assms(2) j by (rule opts_world_globals)
  then show ?thesis by (auto simp: j assms(4))
qed

definition resolver_of :: "('u, 's, 'a, 'tp, 'pr) opt list \<Rightarrow> Resolver option" where
  "resolver_of xs = foldl (\<lambda>r x. case x of OptResolver r' \<Rightarrow> r' | _ \<Rightarrow> r) None xs"

lemma resolver_opts:
  "resolver (opts_set E w xs c) = foldl (\<lambda>r x. case x of OptResolver r' \<Rightarrow> r' | _ \<Rightarrow> r) (resolver c) xs"
proof (induction xs arbitrary: w c)
  case (Cons x xs)
  then show ?case by (cases x) simp_all
qed simp

section \<open>Properties\<close>

text \<open>
  C1: the server installs exactly one unary and one stream interceptor (none if the options
  ask for none), and each is the onion of the specified list: tracing, recovery, IP blocking,
  rate limiting, authentication, request ids, the caller's own, whatever the order of the
  options; within one of these the order of the options.
\<close>

theorem NewServer_installs:
  assumes "NewServer (map (option_of A T E) opts) w = (Return s, w')"
    and "us = unary_spec A T E (length (rl_states w)) opts" "ss = stream_spec A T E (length (rl_states w)) opts"
  shows "gs_options (Server_GRPC s) =
    (if us = [] then []
     else [UnaryInterceptor (\<lambda>ctx req info h. foldr (\<lambda>ic next c r. ic c r info next) us h ctx req)]) @
    (if ss = [] then []
     else [StreamInterceptor (\<lambda>srv str info h. foldr (\<lambda>ic next c r. ic c r info next) ss h srv str)])"
  unfolding Server_GRPC_def assms(2,3)
  by (rule NewServer_Return [OF assms(1)]) (simp add: BuildServerOptions_onion onion_def)

text \<open>
  C7: a server configured with recovery never lets a panic through: whatever the other options
  are, tracing outside recovery included, and whatever the handler does, the installed
  interceptors return.
\<close>

theorem server_recovers:
  assumes "NewServer (map (option_of A T E) opts) w = (Return s, w')" and "OptRecovery \<in> set opts"
    and "UnaryInterceptor u \<in> set (gs_options (Server_GRPC s))"
    and "StreamInterceptor t \<in> set (gs_options (Server_GRPC s))"
  shows "is_return (fst (u ctx req info h v)) \<and> is_return (fst (t srv ss info k v'))"
proof
  note g = assms(3,4) [unfolded Server_GRPC_def]
  show "is_return (fst (u ctx req info h v))"
    unfolding installed(1) [OF assms(1) g(1)] unary_spec_def onion_append
    by (rule tracing_band_unary) (rule recovery_band_returns(1) [OF assms(2)])
  show "is_return (fst (t srv ss info k v'))"
    unfolding installed(2) [OF assms(1) g(2)] stream_spec_def onion_append
    by (rule tracing_band_stream) (rule recovery_band_returns(2) [OF assms(2)])
qed

text \<open>
  C8: a request from a blocked address costs nothing: without tracing and with blockers that
  are not nil, it is answered with \<open>PermissionDenied\<close> in an unchanged world: no token is
  taken, no random number is drawn, neither the authentication function nor a user
  interceptor nor the handler runs.
\<close>

theorem blocked_request_stops:
  assumes "NewServer (map (option_of A T E) opts) w = (Return s, w')"
    and "\<And>tc. OptTracing tc \<notin> set opts" "OptIPBlocker None \<notin> set opts" "OptIPBlocker (Some b) \<in> set opts"
    and "UnaryInterceptor u \<in> set (gs_options (Server_GRPC s))"
    and "StreamInterceptor t \<in> set (gs_options (Server_GRPC s))"
    and "ctx = ss_ctx ss" "\<not> Evaluate A b ctx (fst (FromIncomingContext A ctx))"
  shows "u ctx req info h v = (Return (None, Some (StatusError PermissionDenied ''blocked'')), v) \<and>
    t srv ss info k v = (Return (Some (StatusError PermissionDenied ''blocked'')), v)"
proof -
  note g = assms(5,6) [unfolded Server_GRPC_def]
  have d: "ip_denied A opts ctx" "ip_denied A opts (ss_ctx ss)" using assms(4,7,8) by (auto simp: ip_denied_def)
  have "u ctx req info h v = (Return (None, Some errBlocked), v)"
    unfolding installed(1) [OF assms(1) g(1)] unary_spec_def no_tracing_band [OF assms(2)] onion_append onion_Nil
    by (rule recovery_band(1)) (simp only: ip_band_unary [OF assms(3)] d if_True)
  moreover have "t srv ss info k v = (Return (Some errBlocked), v)"
    unfolding installed(2) [OF assms(1) g(2)] stream_spec_def no_tracing_band [OF assms(2)] onion_append onion_Nil
    by (rule recovery_band(2)) (simp only: ip_band_stream [OF assms(3)] d if_True)
  ultimately show ?thesis by (simp add: errBlocked_def)
qed

text \<open>
  C28: a throttled request reaches neither authentication nor the handler: without tracing and
  with blockers that are not nil and admit the client, when one of the configured limiters has
  no token for the method, a unary or a stream call is answered with \<open>ResourceExhausted\<close>, and
  the only effect is that of asking the limiters, in the order of the options, up to the one
  that refuses.
\<close>

theorem throttled_request_stops:
  assumes "NewServer (map (option_of A T E) opts) w = (Return s, w')"
    and "\<And>tc. OptTracing tc \<notin> set opts" "OptIPBlocker None \<notin> set opts"
    and "\<And>b. OptIPBlocker (Some b) \<in> set opts \<Longrightarrow> Evaluate A b ctx (fst (FromIncomingContext A ctx))"
    and "UnaryInterceptor u \<in> set (gs_options (Server_GRPC s))"
    and "StreamInterceptor t \<in> set (gs_options (Server_GRPC s))"
    and "ctx = ss_ctx ss" "sts = limiter_states (length (rl_states w)) opts"
  shows "(ask_limiters (api_rate E) info sts v = (False, v1) \<longrightarrow>
      u ctx req info h v = (Return (None, Some (StatusError ResourceExhausted ''rate limit exceeded'')), v1)) \<and>
    (ask_limiters (api_rate E) info (map Suc sts) v = (False, v1) \<longrightarrow>
      t srv ss info k v = (Return (Some (StatusError ResourceExhausted ''rate limit exceeded'')), v1))"
proof (intro conjI impI)
  note g = assms(5,6) [unfolded Server_GRPC_def]
  have ip: "\<not> ip_denied A opts ctx" using assms(4) by (auto simp: ip_denied_def)
  note refused = errRateLimited_def [symmetric]
  show "u ctx req info h v = (Return (None, Some (StatusError ResourceExhausted ''rate limit exceeded'')), v1)"
    if "ask_limiters (api_rate E) info sts v = (False, v1)"
    unfolding installed(1) [OF assms(1) g(1)] unary_spec_def no_tracing_band [OF assms(2)] onion_append onion_Nil refused
    by (intro recovery_band(1)) (simp only: ip_band_unary [OF assms(3)] ip if_False rl_band(1) [OF that [unfolded assms(8)]])
  show "t srv ss info k v = (Return (Some (StatusError ResourceExhausted ''rate limit exceeded'')), v1)"
    if "ask_limiters (api_rate E) info (map Suc sts) v = (False, v1)"
    unfolding installed(2) [OF assms(1) g(2)] stream_spec_def no_tracing_band [OF assms(2)] onion_append onion_Nil refused
    by (intro recovery_band(2))
       (simp only: ip_band_stream [OF assms(3)] ip [unfolded assms(7)] if_False rl_band(2) [OF that [unfolded assms(8)]])
qed

text \<open>
  C14: the order of the options does not matter for calls of different kinds, except that of
  \<open>WithResolver\<close> and \<open>WithRateLimitGlobal\<close>: exchanging two neighbours gives the same
  gRPC options, the same cache, the same ping handler and the same world.
\<close>

theorem option_order_irrelevant:
  fixes h :: "'k ping_handler option"
  assumes "independent a b"
    and "NewServer (map (option_of A T E) (xs @ [a, b] @ ys)) w = (Return s, w')"
  shows "\<exists>s'. NewServer (map (option_of A T E) (xs @ [b, a] @ ys)) w = (Return s', w') \<and>
    Server_GRPC s' = Server_GRPC s \<and> Server_Cache s' = Server_Cache s \<and>
    Server_GRPC (RegisterPing seeded now h s') = Server_GRPC (RegisterPing seeded now h s)"
proof -
  let ?p = "xs @ [a, b] @ ys" and ?q = "xs @ [b, a] @ ys"
  have kind: "opt_kind a \<noteq> opt_kind b" using assms(1) by (simp add: independent_def)
  note old = server_settings [OF assms(2)]
  have "list_all (opt_ok E) ?q" using old(1) by auto
  then obtain s' :: "(_, _, _, _, 'k ping_handler) Server"
    where s': "NewServer (map (option_of A T E) ?q) w = (Return s', opts_world E w ?q zero_config)"
    by (rule server_returns)
  note new = server_settings [OF s']
  have "gs_options (grpcServer s') = gs_options (grpcServer s)" "gs_services (grpcServer s') = gs_services (grpcServer s)"
    unfolding server_grpc [OF assms(2)] server_grpc [OF s'] spec_swap [OF kind] by (rule refl)+
  then have "grpcServer s' = grpcServer s" by simp
  moreover have "srv_cache s' = srv_cache s" "funMode (srv_cfg s') = funMode (srv_cfg s)"
    "funRand (srv_cfg s') = funRand (srv_cfg s)" "funMessages (srv_cfg s') = funMessages (srv_cfg s)"
    unfolding old new swap_effects [OF assms(1)] by (rule refl)+
  moreover have "w' = opts_world E w ?q zero_config"
    unfolding old(2) swap_effects [OF assms(1)] by (rule refl)
  ultimately show ?thesis
    using s' by (intro exI [of _ s'], cases h) (simp_all add: Server_GRPC_def Server_Cache_def RegisterPing_def Let_def)
qed

text \<open>
  C15: a rate limiter uses the resolver configured before it, and only that one: a
  \<open>WithResolver\<close> that comes later has no effect on it.  With none before it, every method
  draws on the global limiter, on unary and on stream calls.
\<close>

theorem limiter_sees_earlier_resolver:
  assumes "NewServer (map (option_of A T E) (xs @ OptRateLimit rps burst # ys)) w = (Return s, w')"
    and "st = length (rl_states w) + 2 * length (filter (\<lambda>x. opt_kind x = 6) xs)"
  shows "\<exists>g. rl_states w' ! st = \<lparr>rl_global = g, rl_resolver = resolver_of xs, rl_groups = Map.empty\<rparr> \<and>
    rl_states w' ! Suc st = \<lparr>rl_global = g, rl_resolver = resolver_of xs, rl_groups = Map.empty\<rparr> \<and>
    (resolver_of xs = None \<longrightarrow>
       limiterFor (api_rate E) st m w' = (g, w') \<and> limiterFor (api_rate E) (Suc st) m w' = (g, w'))"
proof -
  let ?c = "opts_set E w xs zero_config" and ?v = "opts_world E w xs zero_config"
  let ?s = "\<lparr>rl_global = length (limiters ?v), rl_resolver = resolver_of xs, rl_groups = Map.empty\<rparr>"
  let ?u = "?v\<lparr>limiters := limiters ?v @ [rate_NewLimiter (api_rate E) rps burst],
               rl_states := rl_states ?v @ [?s, ?s]\<rparr>"
  have r: "resolver ?c = resolver_of xs" by (simp add: resolver_opts resolver_of_def zero_config_def)
  have st: "st = length (rl_states ?v)" by (simp add: opts_world_states assms(2))
  have eff: "w' = opts_world E ?u ys ?c"
    unfolding server_settings(2) [OF assms(1)] by (simp add: opts_append r Let_def)
  have "rl_states w' ! st = ?s" "rl_states w' ! Suc st = ?s"
    unfolding eff st by (simp_all add: opts_world_kept nth_append)
  then show ?thesis
    by (intro exI [of _ "length (limiters ?v)"]) (simp add: limiterFor_def Let_def)
qed

text \<open>
  C23: the buckets of a new server, for each \<open>WithRateLimitGlobal\<close> among its options.  Its unary
  and its stream interceptor find a full limiter of the option's rate and burst for a method
  without a group limit and one of the group's rule otherwise, by the resolver configured
  before it.  A request shares its bucket with exactly these: without a group limit, the
  unary and stream requests of this option's interceptors that have none either; with one,
  the requests of the same interceptor and the same group.  No other option and no server
  made before shares a bucket with it.  The world is one the limiters can be in.
\<close>

theorem server_budgets:
  assumes "reachable (rl_step (api_rate E)) rl_init w"
    and "NewServer (map (option_of A T E) (xs @ OptRateLimit rps burst # ys)) w = (Return s, w')"
    and "st = limiter_states (length (rl_states w)) (xs @ OptRateLimit rps burst # ys)
           ! length (filter (\<lambda>x. opt_kind x = 6) xs)"
    and "i \<in> {st, Suc st}" "j < length (rl_states w')"
  shows "reachable (rl_step (api_rate E)) rl_init w' \<and> i < length (rl_states w') \<and>
    bucket (api_rate E) w' i m =
      (case limited_group (resolver_of xs) m of
         None \<Rightarrow> rate_NewLimiter (api_rate E) rps burst
       | Some (n, rl) \<Rightarrow> rate_NewLimiter (api_rate E) (group_rate rl) (Rate rl)) \<and>
    (budget_of w' j m' = budget_of w' i m \<longleftrightarrow> j \<in> {st, Suc st} \<and>
      (case (limited_group (resolver_of xs) m, limited_group (resolver_of xs) m') of
         (None, None) \<Rightarrow> True
       | (Some (n, _), Some (n', _)) \<Rightarrow> j = i \<and> n' = n
       | _ \<Rightarrow> False))"
proof -
  let ?k = "length (filter (\<lambda>x. opt_kind x = 6) xs)" and ?o = "xs @ OptRateLimit rps burst # ys"
  let ?v = "opts_world E w xs zero_config" and ?l = "length (limiters w) + length (filter (\<lambda>x. opt_kind x = 6) xs)"
  let ?s = "\<lparr>rl_global = ?l, rl_resolver = resolver_of xs, rl_groups = Map.empty\<rparr>"
  let ?u = "?v\<lparr>limiters := limiters ?v @ [rate_NewLimiter (api_rate E) rps burst], rl_states := rl_states ?v @ [?s, ?s]\<rparr>"
  note eff = server_settings(2) [OF assms(2)]
  have wf: "rl_wf w" by (rule rl.inv_reachable [OF assms(1)])
  have r: "resolver (opts_set E w xs zero_config) = resolver_of xs"
    by (simp add: resolver_opts resolver_of_def zero_config_def)
  have st: "st = length (rl_states w) + 2 * ?k"
    using assms(3) by (simp add: limiter_states_append nth_append length_limiter_states)
  then have st': "st = length (rl_states ?v)" by (simp add: opts_world_states)
  have l: "length (limiters ?v) = ?l" by (rule opts_world_limiters)
  have w': "w' = opts_world E ?u ys (opts_set E w xs zero_config)"
    unfolding eff by (simp add: opts_append r Let_def l)
  have own: "rl_states w' ! i' = ?s" if "i' \<in> {st, Suc st}" for i'
    using that unfolding w' st' by (auto simp: opts_world_kept nth_append)
  have lim: "limiters w' ! ?l = rate_NewLimiter (api_rate E) rps burst"
    unfolding w' by (simp add: opts_world_limiters l nth_append)
  have len: "length (rl_states w') = length (rl_states w) + 2 * length (filter (\<lambda>x. opt_kind x = 6) ?o)"
    unfolding eff by (rule opts_world_states)
  have glob: "rl_global (rl_states w' ! j) = ?l \<longleftrightarrow> j \<in> {st, Suc st}"
    by (rule other_globals [OF wf eff assms(5) st])
  have bucket: "bucket (api_rate E) w' i m =
      (case limited_group (resolver_of xs) m of
         None \<Rightarrow> rate_NewLimiter (api_rate E) rps burst
       | Some (n, rl) \<Rightarrow> rate_NewLimiter (api_rate E) (group_rate rl) (Rate rl))"
    by (simp add: bucket_def own [OF assms(4)] lim split: option.split)
  have share: "budget_of w' j m' = budget_of w' i m \<longleftrightarrow> j \<in> {st, Suc st} \<and>
      (case (limited_group (resolver_of xs) m, limited_group (resolver_of xs) m') of
         (None, None) \<Rightarrow> True
       | (Some (n, _), Some (n', _)) \<Rightarrow> j = i \<and> n' = n
       | _ \<Rightarrow> False)"
    using glob own [of j] own [OF assms(4)] assms(4) by (auto simp: budget_of_def split: option.splits)
  have "reachable (rl_step (api_rate E)) rl_init w'"
    unfolding eff by (rule reachable_steps [OF opts_world_steps [OF wf] assms(1)])
  moreover have "i < length (rl_states w')" using assms(4) by (auto simp: len st)
  ultimately show ?thesis using bucket share by (intro conjI)
qed

text \<open>
  C40: \<open>Server.Cache\<close>: the tiered cache of the last L1 and the last Redis cache when both are
  configured, L1 alone when Redis is not, and nil without L1, even if Redis is configured.
\<close>

theorem server_cache:
  assumes "NewServer (map (option_of A T E) opts) w = (Return s, w')"
    and "k1 = length (filter (\<lambda>x. opt_kind x = 7) opts)" "k2 = length (filter (\<lambda>x. opt_kind x = 8) opts)"
  shows "length (l1_objs w') = length (l1_objs w) + k1 \<and> length (l2_objs w') = length (l2_objs w) + k2 \<and>
    Server_Cache s =
      (if k1 = 0 then None
       else if k2 = 0 then Some (CacheL1 (length (l1_objs w') - 1))
       else Some (CacheTiered (length (l1_objs w') - 1) (length (l2_objs w') - 1)))"
  unfolding Server_Cache_def server_settings(2,3) [OF assms(1)] opts_caches assms(2,3)
  by (simp add: zero_config_def)

text \<open>
  \<open>NewServer\<close> panics exactly when an L1 cache cannot be created, with a message that names
  the error of such an option.
\<close>

theorem NewServer_panics:
  "(case fst (NewServer (map (option_of A T E) opts) w) of
      Return _ \<Rightarrow> {n. OptCacheL1 n \<in> set opts \<and> isl (NewL1 (api_rist E) n)} = {}
    | Panic p \<Rightarrow> \<exists>n e. OptCacheL1 n \<in> set opts \<and> NewL1 (api_rist E) n = Inl e \<and>
        p = ''gorawrsquirrel: failed to create L1 cache: '' @ err_Error E e)"
proof -
  have ok: "list_all (opt_ok E) xs \<Longrightarrow> OptCacheL1 n \<in> set xs \<Longrightarrow> \<not> isl (NewL1 (api_rist E) n)" for xs n
    by (auto simp: list_all_iff split: sum.splits)
  have bad: "\<exists>n e. OptCacheL1 n \<in> set xs \<and> NewL1 (api_rist E) n = Inl e \<and>
      p = ''gorawrsquirrel: failed to create L1 cache: '' @ err_Error E e"
    if "apply_options (map (option_of A T E) xs) c v = (Panic p, v')" for xs c v v' p
    using that
  proof (induction xs arbitrary: c v)
    case (Cons x xs)
    show ?case
    proof (cases "option_of A T E x c v")
      case (Pair out v1)
      with Cons show ?thesis
        by (cases x; cases out) (fastforce simp: go_bind_def option_defs go_return_def Let_def split: sum.splits prod.splits)+
    qed
  qed (simp add: go_return_def)
  have returns: "{n. OptCacheL1 n \<in> set opts \<and> isl (NewL1 (api_rist E) n)} = {}"
    if "fst (NewServer (map (option_of A T E) opts) w) = Return s" for s
  proof -
    from that obtain v where "NewServer (map (option_of A T E) opts) w = (Return s, v)"
      by (metis eq_fst_iff)
    from ok [OF server_settings(1) [OF this]] show ?thesis by auto
  qed
  have panics: "\<exists>n e. OptCacheL1 n \<in> set opts \<and> NewL1 (api_rist E) n = Inl e \<and>
      p = ''gorawrsquirrel: failed to create L1 cache: '' @ err_Error E e"
    if "fst (NewServer (map (option_of A T E) opts) w) = Panic p" for p
  proof -
    from that have "\<exists>v'. apply_options (map (option_of A T E) opts) zero_config w = (Panic p, v')"
      by (auto simp: NewServer_def go_bind_def go_return_def Let_def split: prod.splits outcome.splits)
    with bad show ?thesis by blast
  qed
  show ?thesis by (split outcome.split, intro conjI allI impI) (erule returns, erule panics)
qed

section \<open>Concrete servers\<close>

definition demo_E :: "(int, string \<rightharpoonup> slice \<times> int, string \<rightharpoonup> bytes \<times> int) server_api" where
  "demo_E = \<lparr>api_rate = demo_rate, api_rist = demo_rist, api_redis = demo_redis, err_Error = (\<lambda>_. ''error'')\<rparr>"

definition demo_sw :: "(int, string \<rightharpoonup> slice \<times> int, string \<rightharpoonup> bytes \<times> int) server_world" where
  "demo_sw = \<lparr>entropy = (\<lambda>_. 0), drawn = 0, clock = 0, limiters = [], rl_states = [], l1_objs = [], l2_objs = []\<rparr>"

type_synonym demo_world =
  "(int, string \<rightharpoonup> slice \<times> int, string \<rightharpoonup> bytes \<times> int) server_world"

type_synonym demo_unary = "(demo_world, demo_base, unit, unit) unary_interceptor"

type_synonym demo_stream = "(demo_world, demo_base, unit, unit) stream_interceptor"

type_synonym demo_server = "(demo_unary, demo_stream, unit, unit, unit ping_handler) Server"

type_synonym demo_otel_api = "(demo_world, demo_base, demo_md, unit, unit, nat) otel_api"

definition demo_new ::
    "demo_otel_api \<Rightarrow> (demo_unary, demo_stream, (demo_world, demo_base, demo_md) AuthFunc, unit, unit) opt list
       \<Rightarrow> demo_server outcome \<times> demo_world" where
  "demo_new T opts = NewServer (map (option_of demo_api T demo_E) opts) demo_sw"

lemma demo_new_returns:
  "list_all (opt_ok demo_E) opts \<Longrightarrow> \<exists>s w'. demo_new T opts = (Return s, w')"
  unfolding demo_new_def by (rule server_returns) auto

lemma spec_nonempty:
  "OptRecovery \<in> set opts \<Longrightarrow> unary_spec A T E n opts \<noteq> []"
  "OptRecovery \<in> set opts \<Longrightarrow> stream_spec A T E n opts \<noteq> []"
  by (force simp: unary_spec_def, force simp: stream_spec_def)

lemma demo_new_installed:
  assumes "demo_new T opts = (Return s, w')" "OptRecovery \<in> set opts"
  obtains u t where "UnaryInterceptor u \<in> set (gs_options (Server_GRPC s))"
    "StreamInterceptor t \<in> set (gs_options (Server_GRPC s))"
  using that spec_nonempty [OF assms(2), of demo_api T demo_E "length (rl_states demo_sw)"]
  unfolding Server_GRPC_def server_grpc [OF assms(1) [unfolded demo_new_def]] BuildServerOptions_onion
  by auto

theorem NewServer_installs_witness:
  "\<forall>T fn. \<exists>s w'. demo_new T [OptAuth fn, OptRecovery] = (Return s, w') \<and>
     gs_options (Server_GRPC s) =
       [UnaryInterceptor (\<lambda>ctx req info h. RecoveryUnary ctx req info (\<lambda>c r. AuthUnary demo_api fn c r info
          (\<lambda>c r. RequestIDUnary c r info h))),
        StreamInterceptor (\<lambda>srv ss info h. RecoveryStream srv ss info (\<lambda>c r. AuthStream demo_api fn c r info
          (\<lambda>c r. RequestIDStream c r info h)))]"
proof (intro allI)
  fix T fn
  obtain s w' where s: "demo_new T [OptAuth fn, OptRecovery] = (Return s, w')"
    using demo_new_returns [of "[OptAuth fn, OptRecovery]" T] by auto
  show "\<exists>s w'. demo_new T [OptAuth fn, OptRecovery] = (Return s, w') \<and>
     gs_options (Server_GRPC s) =
       [UnaryInterceptor (\<lambda>ctx req info h. RecoveryUnary ctx req info (\<lambda>c r. AuthUnary demo_api fn c r info
          (\<lambda>c r. RequestIDUnary c r info h))),
        StreamInterceptor (\<lambda>srv ss info h. RecoveryStream srv ss info (\<lambda>c r. AuthStream demo_api fn c r info
          (\<lambda>c r. RequestIDStream c r info h)))]"
    using NewServer_installs [OF s [unfolded demo_new_def] refl refl] s
    by (intro exI conjI) (assumption, simp add: unary_spec_def stream_spec_def)
qed

theorem server_recovers_witness:
  "\<forall>T h v. \<exists>s w' u. demo_new T [OptRecovery] = (Return s, w') \<and>
     UnaryInterceptor u \<in> set (gs_options (Server_GRPC s)) \<and> is_return (fst (u (peer_at ''10.0.0.1:1'') () ''/m'' h v))"
proof (intro allI)
  fix T h v
  obtain s w' where s: "demo_new T [OptRecovery] = (Return s, w')"
    using demo_new_returns [of "[OptRecovery]" T] by auto
  obtain u t where g: "UnaryInterceptor u \<in> set (gs_options (Server_GRPC s))"
    "StreamInterceptor t \<in> set (gs_options (Server_GRPC s))"
    by (rule demo_new_installed [OF s]) auto
  have "is_return (fst (u (peer_at ''10.0.0.1:1'') () ''/m'' h v))"
    using server_recovers [OF s [unfolded demo_new_def] _ g] by simp
  with s g show "\<exists>s w' u. demo_new T [OptRecovery] = (Return s, w') \<and>
     UnaryInterceptor u \<in> set (gs_options (Server_GRPC s)) \<and> is_return (fst (u (peer_at ''10.0.0.1:1'') () ''/m'' h v))"
    by blast
qed

lemma demo_denied: "\<not> Evaluate demo_api example_blocker (peer_at ''203.0.113.7:80'') (fst (FromIncomingContext demo_api (peer_at ''203.0.113.7:80'')))"
  by code_simp

lemma demo_admitted: "Evaluate demo_api example_blocker (peer_at ''10.0.0.1:1'') (fst (FromIncomingContext demo_api (peer_at ''10.0.0.1:1'')))"
  by code_simp

theorem blocked_request_stops_witness:
  "\<forall>T h v. \<exists>s w' u. demo_new T [OptIPBlocker (Some example_blocker), OptRateLimit (Fin 5) 5, OptRecovery] = (Return s, w') \<and>
     UnaryInterceptor u \<in> set (gs_options (Server_GRPC s)) \<and>
     u (peer_at ''203.0.113.7:80'') () ''/m'' h v = (Return (None, Some (StatusError PermissionDenied ''blocked'')), v)"
proof (intro allI)
  fix T h v
  let ?o = "[OptIPBlocker (Some example_blocker), OptRateLimit (Fin 5) 5, OptRecovery]"
  obtain s w' where s: "demo_new T ?o = (Return s, w')"
    using demo_new_returns [of ?o T] by auto
  obtain u t where g: "UnaryInterceptor u \<in> set (gs_options (Server_GRPC s))"
    "StreamInterceptor t \<in> set (gs_options (Server_GRPC s))"
    by (rule demo_new_installed [OF s]) auto
  have "u (peer_at ''203.0.113.7:80'') () ''/m'' h v = (Return (None, Some (StatusError PermissionDenied ''blocked'')), v)"
    using blocked_request_stops [OF s [unfolded demo_new_def] _ _ _ g,
        of example_blocker "peer_at ''203.0.113.7:80''" "\<lparr>ss_ctx = peer_at ''203.0.113.7:80'', ss_base = ()\<rparr>"]
      demo_denied by simp
  with s g show "\<exists>s w' u. demo_new T ?o = (Return s, w') \<and> UnaryInterceptor u \<in> set (gs_options (Server_GRPC s)) \<and>
     u (peer_at ''203.0.113.7:80'') () ''/m'' h v = (Return (None, Some (StatusError PermissionDenied ''blocked'')), v)"
    by blast
qed

theorem throttled_request_stops_witness:
  "\<forall>T h k. \<exists>s w' u t v. demo_new T [OptRateLimit (Fin 1) 0, OptIPBlocker (Some example_blocker), OptRecovery] = (Return s, w') \<and>
     UnaryInterceptor u \<in> set (gs_options (Server_GRPC s)) \<and> StreamInterceptor t \<in> set (gs_options (Server_GRPC s)) \<and>
     u (peer_at ''10.0.0.1:1'') () ''/m'' h w' =
       (Return (None, Some (StatusError ResourceExhausted ''rate limit exceeded'')), v) \<and>
     t () \<lparr>ss_ctx = peer_at ''10.0.0.1:1'', ss_base = ()\<rparr> ''/m'' k w' =
       (Return (Some (StatusError ResourceExhausted ''rate limit exceeded'')), v)"
proof (intro allI)
  fix T h k
  let ?o = "[OptRateLimit (Fin 1) 0, OptIPBlocker (Some example_blocker), OptRecovery]"
    and ?ss = "\<lparr>ss_ctx = peer_at ''10.0.0.1:1'', ss_base = ()\<rparr>"
  obtain s w' where s: "demo_new T ?o = (Return s, w')"
    using demo_new_returns [of ?o T] by auto
  obtain u t where g: "UnaryInterceptor u \<in> set (gs_options (Server_GRPC s))"
    "StreamInterceptor t \<in> set (gs_options (Server_GRPC s))"
    by (rule demo_new_installed [OF s]) auto
  note w' = server_settings(2) [OF s [unfolded demo_new_def]]
  have l: "limiter_states (length (rl_states demo_sw)) ?o = [0]" by (simp add: demo_sw_def)
  obtain v where v: "ask_limiters (api_rate demo_E) ''/m'' [0] w' = (False, v)"
      "ask_limiters (api_rate demo_E) ''/m'' [Suc 0] w' = (False, v)"
    by (simp add: w' bucket_def limited_group_def after_request_def limiterFor_def Limiter_Allow_def
        zero_config_def demo_sw_def demo_E_def demo_rate_def Let_def)
  have "u (peer_at ''10.0.0.1:1'') () ''/m'' h w' =
       (Return (None, Some (StatusError ResourceExhausted ''rate limit exceeded'')), v) \<and>
     t () ?ss ''/m'' k w' = (Return (Some (StatusError ResourceExhausted ''rate limit exceeded'')), v)"
    using throttled_request_stops [OF s [unfolded demo_new_def] _ _ _ g, of "peer_at ''10.0.0.1:1''" ?ss "[0]" "''/m''" w' v]
      v l demo_admitted by simp
  with s g show "\<exists>s w' u t v. demo_new T ?o = (Return s, w') \<and>
     UnaryInterceptor u \<in> set (gs_options (Server_GRPC s)) \<and> StreamInterceptor t \<in> set (gs_options (Server_GRPC s)) \<and>
     u (peer_at ''10.0.0.1:1'') () ''/m'' h w' =
       (Return (None, Some (StatusError ResourceExhausted ''rate limit exceeded'')), v) \<and>
     t () ?ss ''/m'' k w' = (Return (Some (StatusError ResourceExhausted ''rate limit exceeded'')), v)"
    by blast
qed

theorem option_order_irrelevant_witness:
  "\<forall>T fn. \<exists>s s' w'. demo_new T [OptAuth fn, OptRecovery] = (Return s, w') \<and>
     demo_new T [OptRecovery, OptAuth fn] = (Return s', w') \<and> Server_GRPC s' = Server_GRPC s"
proof (intro allI)
  fix T fn
  obtain s w' where s: "demo_new T [OptAuth fn, OptRecovery] = (Return s, w')"
    using demo_new_returns [of "[OptAuth fn, OptRecovery]" T] by auto
  from s have "NewServer (map (option_of demo_api T demo_E) ([] @ [OptAuth fn, OptRecovery] @ [])) demo_sw =
      (Return s, w')"
    by (simp add: demo_new_def)
  from option_order_irrelevant [OF _ this, of "\<lambda>_ _. 0" 0 None] s
  show "\<exists>s s' w'. demo_new T [OptAuth fn, OptRecovery] = (Return s, w') \<and>
     demo_new T [OptRecovery, OptAuth fn] = (Return s', w') \<and> Server_GRPC s' = Server_GRPC s"
    by (auto simp: demo_new_def independent_def)
qed

theorem limiter_sees_earlier_resolver_witness:
  "\<forall>T m. \<exists>s w' g. demo_new T [OptRateLimit (Fin 5) 5, OptResolver (Some demo_limits)] = (Return s, w') \<and>
     limiterFor demo_rate 0 m w' = (g, w')"
proof (intro allI)
  fix T m
  let ?o = "[OptRateLimit (Fin 5) 5, OptResolver (Some demo_limits)]"
  obtain s w' where s: "demo_new T ?o = (Return s, w')"
    using demo_new_returns [of ?o T] by auto
  then have "NewServer (map (option_of demo_api T demo_E) ([] @ OptRateLimit (Fin 5) 5 # [OptResolver (Some demo_limits)])) demo_sw =
      (Return s, w')"
    by (simp add: demo_new_def)
  from limiter_sees_earlier_resolver [OF this, of 0 m]
  obtain g where "limiterFor demo_rate 0 m w' = (g, w')"
    by (auto simp: demo_sw_def resolver_of_def demo_E_def)
  with s show "\<exists>s w' g. demo_new T ?o = (Return s, w') \<and> limiterFor demo_rate 0 m w' = (g, w')"
    by blast
qed

theorem server_budgets_witness:
  "\<forall>T. \<exists>s w'. demo_new T [OptResolver (Some demo_limits), OptRateLimit (Fin 7) 5, OptRateLimit (Fin 9) 8] = (Return s, w') \<and>
     reachable (rl_step demo_rate) rl_init w' \<and> bucket demo_rate w' 1 ''/svc/List'' = 5 \<and>
     bucket demo_rate w' 1 ''/svc/Get'' = 1 \<and> budget_of w' 0 ''/svc/List'' = budget_of w' 1 ''/svc/List'' \<and>
     budget_of w' 0 ''/svc/Get'' \<noteq> budget_of w' 1 ''/svc/Get'' \<and>
     budget_of w' 2 ''/svc/List'' \<noteq> budget_of w' 1 ''/svc/List''"
proof (intro allI)
  fix T
  let ?o = "[OptResolver (Some demo_limits), OptRateLimit (Fin 7) 5, OptRateLimit (Fin 9) 8]"
  obtain s w' where s: "demo_new T ?o = (Return s, w')"
    using demo_new_returns [of ?o T] by auto
  have start: "reachable (rl_step (api_rate demo_E)) rl_init demo_sw"
    by (rule reachable_init) (simp add: rl_init_def demo_sw_def)
  have new: "NewServer (map (option_of demo_api T demo_E)
      ([OptResolver (Some demo_limits)] @ OptRateLimit (Fin 7) 5 # [OptRateLimit (Fin 9) 8])) demo_sw = (Return s, w')"
    using s by (simp add: demo_new_def)
  have len: "length (rl_states w') = 4"
    unfolding server_settings(2) [OF new] opts_world_states by (simp add: demo_sw_def)
  have st: "limiter_states (length (rl_states demo_sw)) ([OptResolver (Some demo_limits)] @ OptRateLimit (Fin 7) 5 #
      [OptRateLimit (Fin 9) 8 :: (demo_unary, demo_stream, (demo_world, demo_base, demo_md) AuthFunc, unit, unit) opt])
      ! length (filter (\<lambda>x. opt_kind x = 6) [OptResolver (Some demo_limits)]) = 0"
    by (simp add: demo_sw_def)
  note b = server_budgets [OF start new st [symmetric], of 1]
  show "\<exists>s w'. demo_new T ?o = (Return s, w') \<and>
     reachable (rl_step demo_rate) rl_init w' \<and> bucket demo_rate w' 1 ''/svc/List'' = 5 \<and>
     bucket demo_rate w' 1 ''/svc/Get'' = 1 \<and> budget_of w' 0 ''/svc/List'' = budget_of w' 1 ''/svc/List'' \<and>
     budget_of w' 0 ''/svc/Get'' \<noteq> budget_of w' 1 ''/svc/Get'' \<and>
     budget_of w' 2 ''/svc/List'' \<noteq> budget_of w' 1 ''/svc/List''"
    using s b [of 0 "''/svc/List''" "''/svc/List''"] b [of 0 "''/svc/Get''" "''/svc/Get''"] b [of 2 "''/svc/List''" "''/svc/List''"] len
    by (intro exI [of _ s] exI [of _ w']) (simp add: resolver_of_def demo_limited demo_E_def demo_rate_def)
qed

theorem server_cache_witness:
  "\<forall>T. (\<exists>s w'. demo_new T [OptCacheRedis ''localhost:6379'' [] 0] = (Return s, w') \<and> Server_Cache s = None) \<and>
     (\<exists>s w'. demo_new T [OptCacheL1 10, OptCacheRedis ''localhost:6379'' [] 0] = (Return s, w') \<and>
        Server_Cache s = Some (CacheTiered 0 0))"
proof (intro allI conjI)
  fix T
  let ?r = "OptCacheRedis ''localhost:6379'' [] 0"
  obtain s w' where s: "demo_new T [?r] = (Return s, w')"
    using demo_new_returns [of "[?r]" T] by auto
  have "Server_Cache s = None" using server_cache [OF s [unfolded demo_new_def] refl refl] by simp
  with s show "\<exists>s w'. demo_new T [?r] = (Return s, w') \<and> Server_Cache s = None" by blast
next
  fix T
  let ?o = "[OptCacheL1 10, OptCacheRedis ''localhost:6379'' [] 0]"
  obtain s w' where s: "demo_new T ?o = (Return s, w')"
    using demo_new_returns [of ?o T] by (auto simp: demo_E_def NewL1_def demo_rist_def)
  have "Server_Cache s = Some (CacheTiered 0 0)"
    using server_cache [OF s [unfolded demo_new_def] refl refl] by (simp add: demo_sw_def)
  with s show "\<exists>s w'. demo_new T ?o = (Return s, w') \<and> Server_Cache s = Some (CacheTiered 0 0)" by blast
qed

end
