(* ===== verification/Demos.thy ===== *)
theory Demos
  imports Wiring
begin

text \<open>
  The servers of the example programs (examples/): what their \<open>main\<close> functions configure, the
  handlers and authentication functions they pass in, and what a request to them meets from
  the options to the answer, with what the handlers print.  The clients are in Clients, and
  the programs around both in Process.
\<close>

section \<open>Output\<close>

record ('lim, 'rc, 'rd) out_world = "('lim, 'rc, 'rd) server_world" +
  stdout :: "string list"

definition Printf :: "string \<Rightarrow> ('lim, 'rc, 'rd, 'x) out_world_scheme \<Rightarrow> ('lim, 'rc, 'rd, 'x) out_world_scheme" where
  "Printf s w = w\<lparr>stdout := stdout w @ [s]\<rparr>"

definition newline :: string where
  "newline = [CHR 0x0A]"

text \<open>The three bytes of U+2192 in UTF-8.\<close>

definition arrow :: string where
  "arrow = [CHR 0xE2, CHR 0x86, CHR 0x92]"

section \<open>Authentication (examples/auth, examples/auth-demo)\<close>

definition fakeAuthFunc :: "('b, 'md) grpc_api \<Rightarrow> ('w, 'b, 'md) AuthFunc" where
  "fakeAuthFunc A ctx info md =
     (let vals = MD_Get A md ''authorization''
      in if length vals = 0 \<or> vals ! 0 \<noteq> ''Bearer my-secret-token''
         then go_return (ctx, Some (PlainError ''missing or invalid token''))
         else go_return
           (WithActor ctx \<lparr>Subject = ''alice'', Tenant = ''acme'', ClientID = ''cli-1'',
              Scopes = [''read'', ''write'']\<rparr>, None))"

definition validToken :: string where
  "validToken = ''Bearer super-secret''"

definition demoAuth :: "('b, 'md) grpc_api \<Rightarrow> ('w, 'b, 'md) AuthFunc" where
  "demoAuth A ctx info md =
     (let vals = MD_Get A md ''authorization''
      in if length vals = 0 \<or> vals ! 0 \<noteq> validToken
         then go_return (ctx, Some (PlainError ''missing or invalid authorization token''))
         else go_return
           (WithActor ctx (zeroActor\<lparr>Subject := ''demo-user'', Tenant := ''demo-tenant''\<rparr>), None))"

text \<open>
  The shape of a method handler in a service description: decode, then call the handler, by
  way of the interceptor if there is one.  The messages are empty: the type \<open>unit\<close>.
\<close>

definition call_method ::
    "string \<Rightarrow> ('w, 'b, 'req, 'resp) unary_handler \<Rightarrow> 'b gctx \<Rightarrow> (gerror + 'req)
       \<Rightarrow> ('w, 'b, 'req, 'resp) unary_interceptor option \<Rightarrow> ('w, 'resp unary_result) go" where
  "call_method fullMethod handler ctx dec interceptor =
     (case dec of
        Inl err \<Rightarrow> go_return (None, Some err)
      | Inr req \<Rightarrow>
          (case interceptor of
             Some ic \<Rightarrow> ic ctx req fullMethod handler
           | None \<Rightarrow> handler ctx req))"

definition Hello_handler :: "(('lim, 'rc, 'rd, 'x) out_world_scheme, 'b, unit, unit) unary_handler" where
  "Hello_handler ctx req w =
     (let (actor, ok) = ActorFromContext ctx
      in if \<not> ok then (Return (Some (), None), w)
         else (Return (Some (), None),
           Printf (''handler: authenticated subject='' @ Subject actor @ newline) w))"

definition Hello where
  "Hello = call_method ''/example.Greeter/Hello'' Hello_handler"

definition demo_Ping_handler :: "(('lim, 'rc, 'rd, 'x) out_world_scheme, 'b, unit, unit) unary_handler" where
  "demo_Ping_handler ctx req w =
     (let (actor, ok) = ActorFromContext ctx
      in (Return (Some (), None),
          if ok
          then Printf (''  '' @ arrow @ '' server: authenticated caller subject='' @ Subject actor @ '' tenant='' @
            Tenant actor @ newline) w
          else w))"

definition demo_Ping where
  "demo_Ping = call_method ''/demo.AuthService/Ping'' demo_Ping_handler"

definition auth_main where
  "auth_main A T E = NewServer (map (option_of A T E) [OptRecovery, OptAuth (fakeAuthFunc A)])"

definition auth_demo_main where
  "auth_demo_main A T E = NewServer (map (option_of A T E) [OptRecovery, OptAuth (demoAuth A)])"

text \<open>
  The documented behaviour of \<open>status.FromError\<close> on an error that is not a status: it returns
  false.
\<close>

definition plain_errors_unrecognised :: "('b, 'md) grpc_api \<Rightarrow> bool" where
  "plain_errors_unrecognised A \<longleftrightarrow> (\<forall>m. \<not> snd (status_FromError A (Some (PlainError m))))"

text \<open>The first value of the authorization header.\<close>

definition bearer :: "('b, 'md) grpc_api \<Rightarrow> 'b gctx \<Rightarrow> string option" where
  "bearer A ctx =
     (case MD_Get A (fst (FromIncomingContext A ctx)) ''authorization'' of [] \<Rightarrow> None | v # _ \<Rightarrow> Some v)"

lemma ensureRequestID_frame:
  "ensureRequestID ctx v = (ctx', v') \<Longrightarrow> ActorFromContext ctx' = ActorFromContext ctx \<and> stdout v' = stdout v"
  for v v' :: "('lim, 'rc, 'rd, 'x) out_world_scheme"
  by (auto simp: ensureRequestID_def newRequestID_def rand_Read_def WithRequestID_def ActorFromContext_def
      split: if_splits prod.splits)

lemma auth_chain:
  assumes "NewServer (map (option_of A T E) [OptRecovery, OptAuth fn]) w = (Return s, w')"
    and "UnaryInterceptor u \<in> set (gs_options (Server_GRPC s))"
  shows "u ctx req info h = RecoveryUnary ctx req info
    (\<lambda>c r. AuthUnary A fn c r info (\<lambda>c r. RequestIDUnary c r info h))"
  using installed(1) [OF assms(1) assms(2) [unfolded Server_GRPC_def], of ctx req info h]
  by (simp add: unary_spec_def onion_def)

text \<open>
  A nil function value is one that panics when it is called.  With recovery a nil
  authentication function lets nobody in: every request is answered with \<open>Internal\<close>.
\<close>

definition nil_AuthFunc :: "('w, 'b, 'md) AuthFunc" where
  "nil_AuthFunc ctx info md = go_panic ''invalid memory address or nil pointer dereference''"

lemma nil_auth_fails_closed:
  assumes "NewServer (map (option_of A T E) [OptRecovery, OptAuth nil_AuthFunc]) w = (Return s, w')"
    and "UnaryInterceptor u \<in> set (gs_options (Server_GRPC s))"
  shows "u ctx req info h v = (Return (None, Some errInternal), v)"
  by (simp add: auth_chain [OF assms] RecoveryUnary_def AuthUnary_def nil_AuthFunc_def go_unfold split_beta)

lemma authError_plain: "plain_errors_unrecognised A \<Longrightarrow> authError A (PlainError m) = errUnauthenticated"
  unfolding authError_def plain_errors_unrecognised_def by (metis (mono_tags, lifting) split_beta)


text \<open>What both servers do with a request, over the parts in which they differ.\<close>

lemma auth_request:
  fixes h :: "(('lim, 'rc, 'rd, 'x) out_world_scheme, 'b, unit, unit) unary_handler"
  assumes "NewServer (map (option_of A T E) [OptRecovery, OptAuth fn]) w = (Return s, w')"
    and "UnaryInterceptor u \<in> set (gs_options (Server_GRPC s))" and "plain_errors_unrecognised A"
    and fn: "\<And>v. fn ctx m (fst (FromIncomingContext A ctx)) v =
      (Return (if bearer A ctx = Some tok then (WithActor ctx a, None) else (ctx, Some (PlainError msg))), v)"
    and h: "\<And>a ctx' v. ActorFromContext ctx' = (a, True) \<Longrightarrow> h ctx' () v = (Return (Some (), None), Printf (line a) v)"
  shows "if bearer A ctx = Some tok
    then \<exists>v'. call_method m h ctx (Inr ()) (Some u) v = (Return (Some (), None), v') \<and> stdout v' = stdout v @ [line a]
    else call_method m h ctx (Inr ()) (Some u) v =
      (Return (None, Some (StatusError Unauthenticated ''unauthenticated'')), v)"
proof (cases "bearer A ctx = Some tok")
  case True
  obtain ctx' v' where e: "ensureRequestID (WithActor ctx a) v = (ctx', v')"
    by (cases "ensureRequestID (WithActor ctx a) v")
  have "ActorFromContext ctx' = (a, True)" "stdout v' = stdout v"
    using ensureRequestID_frame [OF e] by (simp_all add: WithActor_def ActorFromContext_def)
  then show ?thesis
    using True e by (simp add: call_method_def auth_chain [OF assms(1,2)] RecoveryUnary_def AuthUnary_def
        RequestIDUnary_def fn h Printf_def go_unfold split_beta)
next
  case False
  then show ?thesis
    by (simp add: call_method_def auth_chain [OF assms(1,2)] RecoveryUnary_def AuthUnary_def fn go_unfold
        split_beta authError_plain [OF assms(3)] errUnauthenticated_def)
qed

lemma bearer_vals: "(\<exists>vs. MD_Get A (fst (FromIncomingContext A ctx)) ''authorization'' = tok # vs) \<longleftrightarrow> bearer A ctx = Some tok"
  by (auto simp: bearer_def split: list.split)

lemma first_is: "length vals = 0 \<or> vals ! 0 \<noteq> x \<longleftrightarrow> (\<nexists>vs. vals = x # vs)"
  by (cases vals) auto

lemma fakeAuthFunc_eq:
  "fakeAuthFunc A ctx m (fst (FromIncomingContext A ctx)) v =
     (Return (if bearer A ctx = Some ''Bearer my-secret-token''
        then (WithActor ctx \<lparr>Subject = ''alice'', Tenant = ''acme'', ClientID = ''cli-1'', Scopes = [''read'', ''write'']\<rparr>, None)
        else (ctx, Some (PlainError ''missing or invalid token''))), v)"
  unfolding fakeAuthFunc_def Let_def first_is bearer_vals by (simp add: go_return_def)

lemma demoAuth_eq:
  "demoAuth A ctx m (fst (FromIncomingContext A ctx)) v =
     (Return (if bearer A ctx = Some ''Bearer super-secret''
        then (WithActor ctx (zeroActor\<lparr>Subject := ''demo-user'', Tenant := ''demo-tenant''\<rparr>), None)
        else (ctx, Some (PlainError ''missing or invalid authorization token''))), v)"
  unfolding demoAuth_def validToken_def Let_def first_is bearer_vals by (simp add: go_return_def)

lemma Hello_prints:
  "ActorFromContext ctx = (a, True) \<Longrightarrow>
     Hello_handler ctx () v = (Return (Some (), None), Printf (''handler: authenticated subject='' @ Subject a @ newline) v)"
  by (simp add: Hello_handler_def)

lemma demo_Ping_prints:
  "ActorFromContext ctx = (a, True) \<Longrightarrow>
     demo_Ping_handler ctx () v = (Return (Some (), None), Printf (''  '' @ arrow @
       '' server: authenticated caller subject='' @ Subject a @ '' tenant='' @ Tenant a @ newline) v)"
  by (simp add: demo_Ping_handler_def)

section \<open>Rate limiting and IP blocking (examples/ratelimit)\<close>

text \<open>The handler answers with the decoded message, whatever request reaches it.\<close>

definition makeHandler ::
    "string \<Rightarrow> 'b gctx \<Rightarrow> (gerror + 'msg) \<Rightarrow> ('w, 'b, 'msg, 'msg) unary_interceptor option
       \<Rightarrow> ('w, 'msg unary_result) go" where
  "makeHandler fullMethod ctx dec interceptor =
     (case dec of
        Inl err \<Rightarrow> go_return (None, Some err)
      | Inr msg \<Rightarrow>
          (case interceptor of
             Some ic \<Rightarrow> ic ctx msg fullMethod (\<lambda>_ _. go_return (Some msg, None))
           | None \<Rightarrow> go_return (Some msg, None)))"

definition heavy_resolver :: Resolver where
  "heavy_resolver =
     NewResolver
       [GroupBuilder_Policy (GroupBuilder_Exact (Group ''heavy-ops'') ''/example.EchoService/Heavy'')
          \<lparr>RateLimit = Some \<lparr>Rate = 1, Window = 1000000000\<rparr>, Timeout = 0, AuthRequired = False\<rparr>]"

definition loopback_blocker :: "ipblock_error + IPBlocker" where
  "loopback_blocker =
     NewIPBlocker \<lparr>cfg_Mode = AllowList, CIDRs = [''127.0.0.0/8''], TrustedProxies = [], HeaderPriority = []\<rparr>"

text \<open>\<open>None\<close> is the exit when the blocker cannot be built.\<close>

definition ratelimit_main where
  "ratelimit_main A T E w =
     (case loopback_blocker of
        Inl err \<Rightarrow> None
      | Inr blocker \<Rightarrow>
          Some (NewServer (map (option_of A T E)
            [OptRecovery, OptIPBlocker (Some blocker), OptResolver (Some heavy_resolver), OptRateLimit (Fin 10) 5]) w))"

lemma loopback_blocker_built:
  "loopback_blocker = Inr \<lparr>mode = AllowList, cidrs = [\<lparr>p_addr = Addr4 (ipv4 127 0 0 0), p_bits = Some 8\<rparr>],
     trustedProxies = [], headerPriority = defaultHeaderPriority\<rparr>"
  by code_simp

lemma loopback_allows:
  assumes "loopback_blocker = Inr b" and quad: "is_quad a b' c d"
    and "set port \<inter> {CHR '':'', CHR ''['', CHR '']''} = {}"
    and "peer_FromContext A ctx = Some (Some (show_ipv4 a b' c d @ '':'' @ port))"
  shows "Evaluate A b ctx md \<longleftrightarrow> a = 127"
proof -
  have "quad_num a b' c d div 2 ^ 24 = a"
    using quad by (intro int_div_pos_eq [where r = "b' * 65536 + c * 256 + d"]) (auto simp: is_quad_def quad_num_def)
  moreover have "quad_num 127 0 0 0 div 2 ^ 24 = 127" by (simp add: quad_num_def)
  moreover have "is_quad 127 0 0 0" by (simp add: is_quad_def)
  ultimately show ?thesis
    using assms(1) peer_ipv4 [OF quad assms(3,4)] quad
    by (auto simp: loopback_blocker_built Evaluate_def resolveClientAddr_def cidr.scan_single4 uint_ipv4
        simp del: matchesAny.simps)
qed

lemma heavy_group:
  "limited_group (Some heavy_resolver) m =
     (if m = ''/example.EchoService/Heavy'' then Some (''heavy-ops'', \<lparr>Rate = 1, Window = 1000000000\<rparr>) else None)"
  by (simp add: limited_group_def heavy_resolver_def NewResolver_def Group_def GroupBuilder_Exact_def
      GroupBuilder_Policy_def Resolve_def resolve_group_def resolve_rule_def resolve_init_def rule_match_def Let_def)

lemma heavy_rate: "group_rate \<lparr>Rate = 1, Window = 1000000000\<rparr> = Fin 1"
proof -
  have "Duration_Seconds 1000000000 = Fin 1" "f64_of_int 1 = Fin 1"
    using Duration_Seconds_whole [of 1] f64_of_int_exact [of 1] by simp_all
  then show ?thesis using f64_round_double [OF is_double_int [of 1]] by (simp add: group_rate_def f64_max_bound_def)
qed

text \<open>
  The reference: two buckets, one for the heavy method and one for everything else, asked at
  the time of each request.
\<close>

fun two_buckets :: "'lim rate_api \<Rightarrow> 'lim \<Rightarrow> 'lim \<Rightarrow> (int \<times> string) list \<Rightarrow> bool list" where
  "two_buckets R heavy rest [] = []"
| "two_buckets R heavy rest ((now, m) # reqs) =
     (if m = ''/example.EchoService/Heavy''
      then (let (allowed, heavy') = rate_Allow R now heavy in allowed # two_buckets R heavy' rest reqs)
      else (let (allowed, rest') = rate_Allow R now rest in allowed # two_buckets R heavy rest' reqs))"

text \<open>Requests from one peer, at given times, to given methods, through an interceptor.\<close>

fun echo_run where
  "echo_run u ctx [] v = []"
| "echo_run u ctx ((now, m) # reqs) v =
     (let (answer, v') = makeHandler m ctx (Inr ()) (Some u) (v\<lparr>clock := now\<rparr>) in answer # echo_run u ctx reqs v')"

section \<open>Properties of the authentication examples\<close>

text \<open>
  C19: the servers of the two authentication examples, from their options to the answer: a
  call without the example's token as the first value of its authorization header is answered
  with \<open>Unauthenticated\<close>, whatever the error text of the authentication function, and the
  handler does not run; with it the handler runs, sees the identity the function put into the
  context, although the request id was put on top of it, and prints it. This is about requests
  the codec has decoded.
\<close>

theorem auth_examples_decide:
  fixes v :: "('lim, 'rc, 'rd, 'x) out_world_scheme"
  assumes "plain_errors_unrecognised A"
    and "auth_main A T E w = (Return s, w')" "UnaryInterceptor u \<in> set (gs_options (Server_GRPC s))"
    and "auth_demo_main A T E x = (Return t, x')" "UnaryInterceptor i \<in> set (gs_options (Server_GRPC t))"
    and rejected: "rejected = (None, Some (StatusError Unauthenticated ''unauthenticated''))"
  shows "(if bearer A ctx = Some ''Bearer my-secret-token''
     then \<exists>v'. Hello ctx (Inr ()) (Some u) v = (Return (Some (), None), v') \<and>
       stdout v' = stdout v @ [''handler: authenticated subject=alice'' @ newline]
     else Hello ctx (Inr ()) (Some u) v = (Return rejected, v)) \<and>
    (if bearer A ctx = Some ''Bearer super-secret''
     then \<exists>v'. demo_Ping ctx (Inr ()) (Some i) v = (Return (Some (), None), v') \<and>
       stdout v' = stdout v @ [''  '' @ arrow @ '' server: authenticated caller subject=demo-user tenant=demo-tenant'' @ newline]
     else demo_Ping ctx (Inr ()) (Some i) v = (Return rejected, v))"
  using auth_request [where ctx = ctx and v = v and m = "''/example.Greeter/Hello''" and h = Hello_handler
        and line = "\<lambda>a. ''handler: authenticated subject='' @ Subject a @ newline",
        OF assms(2) [unfolded auth_main_def] assms(3,1) fakeAuthFunc_eq Hello_prints]
    auth_request [where ctx = ctx and v = v and m = "''/demo.AuthService/Ping''" and h = demo_Ping_handler
        and line = "\<lambda>a. ''  '' @ arrow @ '' server: authenticated caller subject='' @ Subject a @ '' tenant='' @
          Tenant a @ newline",
        OF assms(4) [unfolded auth_demo_main_def] assms(5,1) demoAuth_eq demo_Ping_prints]
  unfolding Hello_def demo_Ping_def rejected by (auto split: if_splits)

section \<open>Properties of the rate limiting example\<close>

lemma ratelimit_chain:
  assumes "NewServer (map (option_of A T E)
      [OptRecovery, OptIPBlocker b, OptResolver r, OptRateLimit rps burst]) w = (Return s, w')"
    and "UnaryInterceptor u \<in> set (gs_options (Server_GRPC s))"
  shows "u ctx req info h = RecoveryUnary ctx req info (\<lambda>c r. IPBlockUnary A b c r info
    (\<lambda>c r. rate_limit_unary (api_rate E) (length (rl_states w)) c r info (\<lambda>c r. RequestIDUnary c r info h)))"
    and "w' = w\<lparr>limiters := limiters w @ [rate_NewLimiter (api_rate E) rps burst],
      rl_states := rl_states w @ (let s = \<lparr>rl_global = length (limiters w), rl_resolver = r, rl_groups = Map.empty\<rparr> in [s, s])\<rparr>"
  using installed(1) [OF assms(1) assms(2) [unfolded Server_GRPC_def], of ctx req info h] server_settings(2) [OF assms(1)]
  by (simp_all add: unary_spec_def onion_def zero_config_def Let_def)

text \<open>The buckets of the two kinds of method: the group's may not exist yet.\<close>

definition buckets_are ::
    "'lim rate_api \<Rightarrow> nat \<Rightarrow> 'lim \<Rightarrow> 'lim \<Rightarrow> ('lim, 'x) rl_world_scheme \<Rightarrow> bool" where
  "buckets_are R st heavy rest v \<longleftrightarrow> st < length (rl_states v) \<and>
     (let s = rl_states v ! st
      in rl_resolver s = Some heavy_resolver \<and> rl_global s < length (limiters v) \<and> limiters v ! rl_global s = rest \<and>
         (case rl_groups s ''heavy-ops'' of
            None \<Rightarrow> heavy = rate_NewLimiter R (Fin 1) 1
          | Some l \<Rightarrow> l < length (limiters v) \<and> l \<noteq> rl_global s \<and> limiters v ! l = heavy))"

lemma ask_bucket:
  assumes "buckets_are R st heavy rest v"
  shows "\<exists>v'. rl_verdict R st ctx m v =
      (Return (if fst (rate_Allow R (clock v) (if m = ''/example.EchoService/Heavy'' then heavy else rest))
               then Inr ctx else Inl errRateLimited), v') \<and>
    buckets_are R st (if m = ''/example.EchoService/Heavy'' then snd (rate_Allow R (clock v) heavy) else heavy)
      (if m = ''/example.EchoService/Heavy'' then rest else snd (rate_Allow R (clock v) rest)) v'"
proof (cases "m = ''/example.EchoService/Heavy''")
  case True
  then show ?thesis
    using assms by (cases "rl_groups (rl_states v ! st) ''heavy-ops''")
      (auto simp: buckets_are_def rl_verdict_def limiterFor_eq heavy_group Limiter_Allow_def Let_def split_beta
        nth_append nth_list_update heavy_rate)
next
  case False
  then show ?thesis
    using assms by (auto simp: buckets_are_def rl_verdict_def limiterFor_eq heavy_group Limiter_Allow_def Let_def split_beta
        nth_list_update split: option.splits)
qed

lemma buckets_are_frame:
  assumes "limiters v' = limiters v" "rl_states v' = rl_states v"
  shows "buckets_are R st heavy rest v' = buckets_are R st heavy rest v"
  unfolding buckets_are_def assms ..

lemma ensureRequestID_buckets:
  "ensureRequestID ctx v = (ctx', v') \<Longrightarrow> buckets_are R st heavy rest v' = buckets_are R st heavy rest v"
  for v v' :: "('lim, 'x) rl_world_scheme"
  by (rule buckets_are_frame) (auto simp: ensureRequestID_def newRequestID_def rand_Read_def split: if_splits prod.splits)

text \<open>One request to the example server, from an allowed peer.\<close>

lemma echo_request:
  assumes u: "\<And>ctx req info h. u ctx req info h = RecoveryUnary ctx req info (\<lambda>c r. IPBlockUnary A (Some b) c r info
      (\<lambda>c r. rate_limit_unary R st c r info (\<lambda>c r. RequestIDUnary c r info h)))"
    and ev: "Evaluate A b ctx (fst (FromIncomingContext A ctx))" and bk: "buckets_are R st heavy rest v"
    and now: "clock v = now"
  shows "\<exists>v'. makeHandler m ctx (Inr msg) (Some u) v =
      (Return (if fst (rate_Allow R now (if m = ''/example.EchoService/Heavy'' then heavy else rest))
               then (Some msg, None) else (None, Some errRateLimited)), v') \<and>
    buckets_are R st (if m = ''/example.EchoService/Heavy'' then snd (rate_Allow R now heavy) else heavy)
      (if m = ''/example.EchoService/Heavy'' then rest else snd (rate_Allow R now rest)) v'"
proof -
  let ?allowed = "fst (rate_Allow R now (if m = ''/example.EchoService/Heavy'' then heavy else rest))"
  obtain v1 where v1: "rl_verdict R st ctx m v = (Return (if ?allowed then Inr ctx else Inl errRateLimited), v1)"
    and bk1: "buckets_are R st (if m = ''/example.EchoService/Heavy'' then snd (rate_Allow R now heavy) else heavy)
      (if m = ''/example.EchoService/Heavy'' then rest else snd (rate_Allow R now rest)) v1"
    using ask_bucket [OF bk] unfolding now by blast
  obtain ctx' v2 where e: "ensureRequestID ctx v1 = (ctx', v2)" by (cases "ensureRequestID ctx v1")
  have "makeHandler m ctx (Inr msg) (Some u) v =
      (Return (if ?allowed then (Some msg, None) else (None, Some errRateLimited)), if ?allowed then v2 else v1)"
    by (simp add: makeHandler_def u RecoveryUnary_def ip_block_eq ev rl_u.guard v1 go_unfold RequestIDUnary_def e)
  then show ?thesis using bk1 ensureRequestID_buckets [OF e] by auto
qed

lemma echo_run_allowed:
  assumes u: "\<And>ctx req info h. u ctx req info h = RecoveryUnary ctx req info (\<lambda>c r. IPBlockUnary A (Some b) c r info
      (\<lambda>c r. rate_limit_unary R st c r info (\<lambda>c r. RequestIDUnary c r info h)))"
    and ev: "Evaluate A b ctx (fst (FromIncomingContext A ctx))" and "buckets_are R st heavy rest v"
  shows "echo_run u ctx reqs v =
    map (\<lambda>allowed. Return (if allowed then (Some (), None) else (None, Some errRateLimited))) (two_buckets R heavy rest reqs)"
  using assms(3)
proof (induction reqs arbitrary: heavy rest v)
  case (Cons r reqs)
  obtain now m where r: "r = (now, m)" by (cases r)
  have "buckets_are R st heavy rest (v\<lparr>clock := now\<rparr>)"
    using Cons.prems buckets_are_frame [of "v\<lparr>clock := now\<rparr>" v] by simp
  from echo_request [OF u ev this, of now m "()"] obtain v' where
    "makeHandler m ctx (Inr ()) (Some u) (v\<lparr>clock := now\<rparr>) =
      (Return (if fst (rate_Allow R now (if m = ''/example.EchoService/Heavy'' then heavy else rest))
               then (Some (), None) else (None, Some errRateLimited)), v')"
    "buckets_are R st (if m = ''/example.EchoService/Heavy'' then snd (rate_Allow R now heavy) else heavy)
      (if m = ''/example.EchoService/Heavy'' then rest else snd (rate_Allow R now rest)) v'"
    by auto
  then show ?case using Cons.IH by (simp add: r split_beta Let_def split: if_splits)
qed simp

lemma echo_run_denied:
  assumes "\<And>ctx req info h. u ctx req info h = RecoveryUnary ctx req info (\<lambda>c r. IPBlockUnary A (Some b) c r info
      (\<lambda>c r. rate_limit_unary R st c r info (\<lambda>c r. RequestIDUnary c r info h)))"
    and "\<not> Evaluate A b ctx (fst (FromIncomingContext A ctx))"
  shows "echo_run u ctx reqs v = map (\<lambda>_. Return (None, Some errBlocked)) reqs"
  by (induction reqs arbitrary: v)
     (auto simp: makeHandler_def assms RecoveryUnary_def ip_block_eq go_unfold)

text \<open>
  C18: the rate limiting example, from its configuration to the answers: whatever methods a
  peer calls and when, a peer outside 127.0.0.0/8 is answered with \<open>PermissionDenied\<close> every
  time; for a loopback peer the heavy method is answered as a bucket of one token per second
  with a burst of one says, and all other methods together as one bucket of ten per second
  with a burst of five, neither taking from the other. The calls are of decoded requests.
\<close>

theorem ratelimit_example_answers:
  assumes "ratelimit_main A T E w = Some (Return s, w')" and "UnaryInterceptor u \<in> set (gs_options (Server_GRPC s))"
    and "is_quad a b c d" "set port \<inter> {CHR '':'', CHR ''['', CHR '']''} = {}"
    and "peer_FromContext A ctx = Some (Some (show_ipv4 a b c d @ '':'' @ port))"
    and R: "R = api_rate E"
  shows "echo_run u ctx reqs w' =
    (if a = 127
     then map (\<lambda>allowed. Return (if allowed then (Some (), None)
                else (None, Some (StatusError ResourceExhausted ''rate limit exceeded''))))
            (two_buckets R (rate_NewLimiter R (Fin 1) 1) (rate_NewLimiter R (Fin 10) 5) reqs)
     else map (\<lambda>_. Return (None, Some (StatusError PermissionDenied ''blocked''))) reqs)"
proof -
  obtain blk where blk: "loopback_blocker = Inr blk" using loopback_blocker_built by blast
  then have srv: "NewServer (map (option_of A T E)
      [OptRecovery, OptIPBlocker (Some blk), OptResolver (Some heavy_resolver), OptRateLimit (Fin 10) 5]) w = (Return s, w')"
    using assms(1) [unfolded ratelimit_main_def blk sum.case option.inject] by simp
  note u = ratelimit_chain [OF srv assms(2)]
  have ev: "Evaluate A blk ctx (fst (FromIncomingContext A ctx)) \<longleftrightarrow> a = 127"
    by (rule loopback_allows [OF blk assms(3-5)])
  have "buckets_are R (length (rl_states w)) (rate_NewLimiter R (Fin 1) 1) (rate_NewLimiter R (Fin 10) 5) w'"
    unfolding u(2) R by (simp add: buckets_are_def Let_def)
  then show ?thesis
    using echo_run_allowed [OF u(1) [folded R]] echo_run_denied [OF u(1)] ev
    by (simp add: errRateLimited_def errBlocked_def)
qed

section \<open>Concrete requests\<close>

type_synonym demo_out_world = "(int, string \<rightharpoonup> slice \<times> int, string \<rightharpoonup> bytes \<times> int) out_world"

type_synonym demo_out_server =
  "((demo_out_world, demo_base, unit, unit) unary_interceptor, (demo_out_world, demo_base, unit, unit) stream_interceptor,
    unit, unit, unit ping_handler) Server"

type_synonym demo_out_otel = "(demo_out_world, demo_base, demo_md, unit, unit, nat) otel_api"

definition demo_out :: demo_out_world where
  "demo_out = \<lparr>entropy = (\<lambda>_. 0), drawn = 0, clock = 0, limiters = [], rl_states = [], l1_objs = [], l2_objs = [],
     stdout = []\<rparr>"

definition demo_out_new ::
    "demo_out_otel \<Rightarrow> ((demo_out_world, demo_base, unit, unit) unary_interceptor,
       (demo_out_world, demo_base, unit, unit) stream_interceptor, (demo_out_world, demo_base, demo_md) AuthFunc, unit, unit) opt list
       \<Rightarrow> demo_out_server outcome \<times> demo_out_world" where
  "demo_out_new T opts = NewServer (map (option_of demo_api T demo_E) opts) demo_out"

lemma demo_out_server:
  assumes "list_all (opt_ok demo_E) opts" "OptRecovery \<in> set opts"
  obtains s w' u where "demo_out_new T opts = (Return s, w')" "UnaryInterceptor u \<in> set (gs_options (Server_GRPC s))"
proof -
  obtain s where s: "demo_out_new T opts = (Return s, opts_world demo_E demo_out opts zero_config)"
    unfolding demo_out_new_def by (rule server_returns [OF assms(1)])
  have "\<exists>u. UnaryInterceptor u \<in> set (gs_options (Server_GRPC s))"
    using spec_nonempty(1) [OF assms(2), of demo_api T demo_E "length (rl_states demo_out)"]
    unfolding Server_GRPC_def server_grpc(1) [OF s [unfolded demo_out_new_def]] BuildServerOptions_onion by auto
  then show thesis using that s by blast
qed

definition call_from :: "string \<Rightarrow> string \<Rightarrow> demo_base gctx" where
  "call_from peer token = BaseCtx (Some peer, Some [(''authorization'', [token])])"

lemma demo_bearer: "bearer demo_api (call_from peer token) = Some token"
  by (simp add: bearer_def demo_api_def call_from_def)

lemma demo_api_plain: "plain_errors_unrecognised demo_api"
  by (simp add: plain_errors_unrecognised_def demo_api_def)

theorem auth_examples_decide_witness:
  "\<forall>T. \<exists>s w' u v'. auth_main demo_api (T :: demo_out_otel) demo_E demo_out = (Return (s :: demo_out_server), w') \<and>
     UnaryInterceptor u \<in> set (gs_options (Server_GRPC s)) \<and>
     Hello (call_from ''127.0.0.1:5000'' ''Bearer my-secret-token'') (Inr ()) (Some u) demo_out = (Return (Some (), None), v') \<and>
     stdout v' = [''handler: authenticated subject=alice'' @ newline]"
proof
  fix T :: demo_out_otel
  let ?ctx = "call_from ''127.0.0.1:5000'' ''Bearer my-secret-token''"
  obtain s w' u where s: "demo_out_new T [OptRecovery, OptAuth (fakeAuthFunc demo_api)] = (Return s, w')"
    and u: "UnaryInterceptor u \<in> set (gs_options (Server_GRPC s))"
    by (rule demo_out_server [of "[OptRecovery, OptAuth (fakeAuthFunc demo_api)]" T]) auto
  obtain t x' i where t: "demo_out_new T [OptRecovery, OptAuth (demoAuth demo_api)] = (Return t, x')"
    and i: "UnaryInterceptor i \<in> set (gs_options (Server_GRPC t))"
    by (rule demo_out_server [of "[OptRecovery, OptAuth (demoAuth demo_api)]" T]) auto
  note m = s [unfolded demo_out_new_def, folded auth_main_def] t [unfolded demo_out_new_def, folded auth_demo_main_def]
  have "\<exists>v'. Hello ?ctx (Inr ()) (Some u) demo_out = (Return (Some (), None), v') \<and>
      stdout v' = stdout demo_out @ [''handler: authenticated subject=alice'' @ newline]"
    using auth_examples_decide [OF demo_api_plain m(1) u m(2) i refl, of ?ctx demo_out] demo_bearer by simp
  then show "\<exists>s w' u v'. auth_main demo_api T demo_E demo_out = (Return (s :: demo_out_server), w') \<and>
     UnaryInterceptor u \<in> set (gs_options (Server_GRPC s)) \<and>
     Hello ?ctx (Inr ()) (Some u) demo_out = (Return (Some (), None), v') \<and>
     stdout v' = [''handler: authenticated subject=alice'' @ newline]"
    using m(1) u by (auto simp: demo_out_def)
qed

theorem ratelimit_example_answers_witness:
  "\<forall>T. \<exists>s w' u. ratelimit_main demo_api (T :: demo_out_otel) demo_E demo_out = Some (Return (s :: demo_out_server), w') \<and>
     UnaryInterceptor u \<in> set (gs_options (Server_GRPC s)) \<and>
     echo_run u (call_from ''127.0.0.1:80'' []) [(0, ''/example.EchoService/Heavy''),
         (0, ''/example.EchoService/Heavy''), (0, ''/example.EchoService/Light'')] w' =
       [Return (Some (), None), Return (None, Some (StatusError ResourceExhausted ''rate limit exceeded'')),
        Return (Some (), None)]"
proof
  fix T :: demo_out_otel
  let ?ctx = "call_from ''127.0.0.1:80'' []"
  obtain b where b: "loopback_blocker = Inr b" using loopback_blocker_built by blast
  obtain s w' u where s: "demo_out_new T
      [OptRecovery, OptIPBlocker (Some b), OptResolver (Some heavy_resolver), OptRateLimit (Fin 10) 5] = (Return s, w')"
    and u: "UnaryInterceptor u \<in> set (gs_options (Server_GRPC s))"
    by (rule demo_out_server
        [of "[OptRecovery, OptIPBlocker (Some b), OptResolver (Some heavy_resolver), OptRateLimit (Fin 10) 5]" T]) auto
  have m: "ratelimit_main demo_api T demo_E demo_out = Some (Return s, w')"
    unfolding ratelimit_main_def b sum.case using s [unfolded demo_out_new_def] by simp
  have p: "peer_FromContext demo_api ?ctx = Some (Some (show_ipv4 127 0 0 1 @ '':'' @ ''80''))"
    by (simp add: demo_api_def call_from_def) code_simp
  have q: "is_quad 127 0 0 1" by (simp add: is_quad_def)
  show "\<exists>s w' u. ratelimit_main demo_api T demo_E demo_out = Some (Return (s :: demo_out_server), w') \<and>
     UnaryInterceptor u \<in> set (gs_options (Server_GRPC s)) \<and>
     echo_run u ?ctx [(0, ''/example.EchoService/Heavy''),
         (0, ''/example.EchoService/Heavy''), (0, ''/example.EchoService/Light'')] w' =
       [Return (Some (), None), Return (None, Some (StatusError ResourceExhausted ''rate limit exceeded'')),
        Return (Some (), None)]"
    using m u ratelimit_example_answers [OF m u q _ p refl, of "[(0, ''/example.EchoService/Heavy''),
         (0, ''/example.EchoService/Heavy''), (0, ''/example.EchoService/Light'')]"]
    by (intro exI conjI) (simp_all add: demo_E_def demo_rate_def)
qed

end
