(* ===== verification/Json.thy ===== *)
theory Json
  imports Netip
begin

text \<open>
  What the ping codec uses of encoding/json, unicode/utf8 and strconv: how the two ping types
  are written, and how a JSON text is read into one of them.  Texts are strings of bytes.
\<close>

section \<open>UTF-8\<close>

abbreviation byte :: "char \<Rightarrow> nat" where
  "byte c \<equiv> of_char c"

definition between :: "nat \<Rightarrow> nat \<Rightarrow> char \<Rightarrow> bool" where
  "between lo hi c \<longleftrightarrow> lo \<le> byte c \<and> byte c \<le> hi"

text \<open>
  \<open>utf8.DecodeRune\<close>, of which only the size matters here: the number of bytes of the first
  rune, zero where it returns \<open>RuneError\<close> and a size of one for bytes that encode nothing.
\<close>

fun utf8_size :: "string \<Rightarrow> nat" where
  "utf8_size [] = 0"
| "utf8_size (a # s) =
     (if byte a < 0x80 then 1
      else if between 0xC2 0xDF a then
        (case s of b # _ \<Rightarrow> if between 0x80 0xBF b then 2 else 0 | _ \<Rightarrow> 0)
      else if between 0xE0 0xEF a then
        (case s of
           b # c # _ \<Rightarrow>
             if between (if byte a = 0xE0 then 0xA0 else 0x80) (if byte a = 0xED then 0x9F else 0xBF) b
                \<and> between 0x80 0xBF c then 3 else 0
         | _ \<Rightarrow> 0)
      else if between 0xF0 0xF4 a then
        (case s of
           b # c # d # _ \<Rightarrow>
             if between (if byte a = 0xF0 then 0x90 else 0x80) (if byte a = 0xF4 then 0x8F else 0xBF) b
                \<and> between 0x80 0xBF c \<and> between 0x80 0xBF d then 4 else 0
         | _ \<Rightarrow> 0)
      else 0)"

text \<open>\<open>utf8.EncodeRune\<close> of a rune that is no surrogate, and the replacement character.\<close>

definition encode_rune :: "nat \<Rightarrow> string" where
  "encode_rune r =
     (if r < 0x80 then [char_of r]
      else if r < 0x800 then [char_of (0xC0 + r div 64), char_of (0x80 + r mod 64)]
      else if r < 0x10000 then
        [char_of (0xE0 + r div 4096), char_of (0x80 + r div 64 mod 64), char_of (0x80 + r mod 64)]
      else
        [char_of (0xF0 + r div 262144), char_of (0x80 + r div 4096 mod 64),
         char_of (0x80 + r div 64 mod 64), char_of (0x80 + r mod 64)])"

definition replacement :: string where
  "replacement = [CHR 0xEF, CHR 0xBF, CHR 0xBD]"

text \<open>\<open>utf8.ValidString\<close>, and \<open>strings.ToValidUTF8\<close> with one replacement for every bad byte.\<close>

function valid_utf8 :: "string \<Rightarrow> bool" where
  "valid_utf8 [] = True"
| "valid_utf8 (c # s) = (utf8_size (c # s) \<noteq> 0 \<and> valid_utf8 (drop (utf8_size (c # s) - 1) s))"
  by pat_completeness auto
termination
  by (relation "measure length") auto

function to_valid :: "string \<Rightarrow> string" where
  "to_valid [] = []"
| "to_valid (c # s) =
     (if utf8_size (c # s) = 0 then replacement @ to_valid s
      else take (utf8_size (c # s)) (c # s) @ to_valid (drop (utf8_size (c # s) - 1) s))"
  by pat_completeness auto
termination
  by (relation "measure length") auto

section \<open>Writing\<close>

definition bslash :: char where "bslash = CHR 0x5C"

definition quote :: char where "quote = CHR 0x22"

definition json_hex :: "nat \<Rightarrow> char" where
  "json_hex n = ''0123456789abcdef'' ! n"

text \<open>One ASCII character of a string, with HTML escaping on, as \<open>json.Marshal\<close> has it.\<close>

definition escape :: "char \<Rightarrow> string" where
  "escape c =
     (if c = bslash \<or> c = quote then [bslash, c]
      else if byte c = 8 then [bslash, CHR ''b'']
      else if byte c = 12 then [bslash, CHR ''f'']
      else if byte c = 10 then [bslash, CHR ''n'']
      else if byte c = 13 then [bslash, CHR ''r'']
      else if byte c = 9 then [bslash, CHR ''t'']
      else if byte c < 32 \<or> c = CHR ''<'' \<or> c = CHR ''>'' \<or> c = CHR ''&'' then
        [bslash, CHR ''u'', CHR ''0'', CHR ''0'', json_hex (byte c div 16), json_hex (byte c mod 16)]
      else [c])"

text \<open>A rune of several bytes: U+2028 and U+2029 are escaped.\<close>

definition escape_rune :: "string \<Rightarrow> string" where
  "escape_rune u =
     (if u = [CHR 0xE2, CHR 0x80, CHR 0xA8] then bslash # ''u2028''
      else if u = [CHR 0xE2, CHR 0x80, CHR 0xA9] then bslash # ''u2029''
      else u)"

function quote_body :: "string \<Rightarrow> string" where
  "quote_body [] = []"
| "quote_body (c # s) =
     (let n = utf8_size (c # s)
      in if n = 0 then bslash # ''ufffd'' @ quote_body s
         else if n = 1 then escape c @ quote_body s
         else escape_rune (take n (c # s)) @ quote_body (drop (n - 1) s))"
  by pat_completeness auto
termination
  by (relation "measure length") auto

definition quote_json :: "string \<Rightarrow> string" where
  "quote_json s = quote # quote_body s @ [quote]"

text \<open>\<open>strconv.AppendInt\<close> in base ten.\<close>

function itoa_nat :: "nat \<Rightarrow> string" where
  "itoa_nat n = (if n < 10 then [char_of (48 + n)] else itoa_nat (n div 10) @ [char_of (48 + n mod 10)])"
  by pat_completeness auto
termination
  by (relation "measure id") auto

definition itoa :: "int \<Rightarrow> string" where
  "itoa i = (if i < 0 then CHR ''-'' # itoa_nat (nat (- i)) else itoa_nat (nat i))"

text \<open>A struct: its fields, with the texts of their values.\<close>

fun members_text :: "(string \<times> string) list \<Rightarrow> string" where
  "members_text [] = []"
| "members_text [(n, v)] = quote_json n @ '':'' @ v"
| "members_text ((n, v) # m # ms) = quote_json n @ '':'' @ v @ '','' @ members_text (m # ms)"

definition object_text :: "(string \<times> string) list \<Rightarrow> string" where
  "object_text ms = ''{'' @ members_text ms @ ''}''"

section \<open>The scanner\<close>

text \<open>
  The states of encoding/json's scanner, its parse stack (the top first) and what a step
  reports.  \<open>InWord\<close> holds the letters left of a literal, \<open>InEscU\<close> the digits left of an
  escape.
\<close>

datatype jstate =
    BeginValueOrEmpty | BeginValue | BeginStringOrEmpty | BeginString | EndValue | EndTop
  | InString | InStringEsc | InEscU nat | InNeg | InInt | InZero | InDot | InFrac | InE | InESign | InExp
  | InWord string

datatype jctx = ParseObjectKey | ParseObjectValue | ParseArrayValue

datatype jop =
    ScanContinue | ScanBeginLiteral | ScanBeginObject | ScanObjectKey | ScanObjectValue | ScanEndObject
  | ScanBeginArray | ScanArrayValue | ScanEndArray | ScanSkipSpace

type_synonym jstep = "(jstate \<times> jctx list \<times> jop) option"

definition is_space :: "char \<Rightarrow> bool" where
  "is_space c \<longleftrightarrow> byte c \<le> 32 \<and> (byte c = 32 \<or> byte c = 9 \<or> byte c = 13 \<or> byte c = 10)"

definition is_digit :: "char \<Rightarrow> bool" where
  "is_digit c \<longleftrightarrow> between 48 57 c"

text \<open>\<open>pushParseState\<close>, with its limit on nesting, and \<open>popParseState\<close>.\<close>

definition maxNestingDepth :: nat where
  "maxNestingDepth = 10000"

definition push_ctx :: "jstate \<Rightarrow> jctx \<Rightarrow> jctx list \<Rightarrow> jop \<Rightarrow> jstep" where
  "push_ctx st x stk op = (if length stk + 1 \<le> maxNestingDepth then Some (st, x # stk, op) else None)"

definition pop_ctx :: "jctx list \<Rightarrow> jop \<Rightarrow> jstep" where
  "pop_ctx stk op = Some (if tl stk = [] then EndTop else EndValue, tl stk, op)"

fun end_value :: "jctx list \<Rightarrow> char \<Rightarrow> jstep" where
  "end_value [] c = (if is_space c then Some (EndTop, [], ScanSkipSpace) else None)"
| "end_value (x # stk) c =
     (if is_space c then Some (EndValue, x # stk, ScanSkipSpace)
      else case x of
        ParseObjectKey \<Rightarrow>
          if c = CHR '':'' then Some (BeginValue, ParseObjectValue # stk, ScanObjectKey) else None
      | ParseObjectValue \<Rightarrow>
          if c = CHR '','' then Some (BeginString, ParseObjectKey # stk, ScanObjectValue)
          else if c = CHR ''}'' then pop_ctx (x # stk) ScanEndObject else None
      | ParseArrayValue \<Rightarrow>
          if c = CHR '','' then Some (BeginValue, x # stk, ScanArrayValue)
          else if c = CHR '']'' then pop_ctx (x # stk) ScanEndArray else None)"

definition begin_value :: "jctx list \<Rightarrow> char \<Rightarrow> jstep" where
  "begin_value stk c =
     (if is_space c then Some (BeginValue, stk, ScanSkipSpace)
      else if c = CHR ''{'' then push_ctx BeginStringOrEmpty ParseObjectKey stk ScanBeginObject
      else if c = CHR ''['' then push_ctx BeginValueOrEmpty ParseArrayValue stk ScanBeginArray
      else if c = quote then Some (InString, stk, ScanBeginLiteral)
      else if c = CHR ''-'' then Some (InNeg, stk, ScanBeginLiteral)
      else if c = CHR ''0'' then Some (InZero, stk, ScanBeginLiteral)
      else if c = CHR ''t'' then Some (InWord ''rue'', stk, ScanBeginLiteral)
      else if c = CHR ''f'' then Some (InWord ''alse'', stk, ScanBeginLiteral)
      else if c = CHR ''n'' then Some (InWord ''ull'', stk, ScanBeginLiteral)
      else if between 49 57 c then Some (InInt, stk, ScanBeginLiteral)
      else None)"

definition begin_string :: "jctx list \<Rightarrow> char \<Rightarrow> jstep" where
  "begin_string stk c =
     (if is_space c then Some (BeginString, stk, ScanSkipSpace)
      else if c = quote then Some (InString, stk, ScanBeginLiteral)
      else None)"

definition after_zero :: "jctx list \<Rightarrow> char \<Rightarrow> jstep" where
  "after_zero stk c =
     (if c = CHR ''.'' then Some (InDot, stk, ScanContinue)
      else if c = CHR ''e'' \<or> c = CHR ''E'' then Some (InE, stk, ScanContinue)
      else end_value stk c)"

definition expect_digit :: "jstate \<Rightarrow> jctx list \<Rightarrow> char \<Rightarrow> jstep" where
  "expect_digit st stk c = (if is_digit c then Some (st, stk, ScanContinue) else None)"

fun scan_step :: "jstate \<Rightarrow> jctx list \<Rightarrow> char \<Rightarrow> jstep" where
  "scan_step BeginValueOrEmpty stk c =
     (if is_space c then Some (BeginValueOrEmpty, stk, ScanSkipSpace)
      else if c = CHR '']'' then end_value stk c else begin_value stk c)"
| "scan_step BeginValue stk c = begin_value stk c"
| "scan_step BeginStringOrEmpty stk c =
     (if is_space c then Some (BeginStringOrEmpty, stk, ScanSkipSpace)
      else if c = CHR ''}'' then end_value (ParseObjectValue # tl stk) c else begin_string stk c)"
| "scan_step BeginString stk c = begin_string stk c"
| "scan_step EndValue stk c = end_value stk c"
| "scan_step EndTop stk c = (if is_space c then Some (EndTop, stk, ScanSkipSpace) else None)"
| "scan_step InString stk c =
     (if c = quote then Some (EndValue, stk, ScanContinue)
      else if c = bslash then Some (InStringEsc, stk, ScanContinue)
      else if byte c < 32 then None else Some (InString, stk, ScanContinue))"
| "scan_step InStringEsc stk c =
     (if c = CHR ''u'' then Some (InEscU 4, stk, ScanContinue)
      else if c \<in> set ''bfnrt/'' \<or> c = bslash \<or> c = quote then Some (InString, stk, ScanContinue)
      else None)"
| "scan_step (InEscU n) stk c =
     (if hex_digit c = None then None
      else Some (if n \<le> 1 then InString else InEscU (n - 1), stk, ScanContinue))"
| "scan_step InNeg stk c =
     (if c = CHR ''0'' then Some (InZero, stk, ScanContinue) else expect_digit InInt stk c)"
| "scan_step InInt stk c = (if is_digit c then Some (InInt, stk, ScanContinue) else after_zero stk c)"
| "scan_step InZero stk c = after_zero stk c"
| "scan_step InDot stk c = expect_digit InFrac stk c"
| "scan_step InFrac stk c =
     (if is_digit c then Some (InFrac, stk, ScanContinue)
      else if c = CHR ''e'' \<or> c = CHR ''E'' then Some (InE, stk, ScanContinue)
      else end_value stk c)"
| "scan_step InE stk c =
     (if c = CHR ''+'' \<or> c = CHR ''-'' then Some (InESign, stk, ScanContinue) else expect_digit InExp stk c)"
| "scan_step InESign stk c = expect_digit InExp stk c"
| "scan_step InExp stk c = (if is_digit c then Some (InExp, stk, ScanContinue) else end_value stk c)"
| "scan_step (InWord ls) stk c =
     (case ls of
        [] \<Rightarrow> end_value stk c
      | l # ls' \<Rightarrow> if c = l then Some (if ls' = [] then EndValue else InWord ls', stk, ScanContinue) else None)"

text \<open>
  One pass over the text, which keeps what the decoder looks at: the top-level literal or
  the character that opens the top-level value, and the raw keys and values of the members of
  a top-level object, spaces outside strings left out.
\<close>

record collected =
  cur :: string
  mkey :: string
  members :: "(string \<times> string) list"
  top :: string

definition collect_op :: "jop \<Rightarrow> nat \<Rightarrow> nat \<Rightarrow> char \<Rightarrow> collected \<Rightarrow> collected" where
  "collect_op op depth depth' c a =
     (if op = ScanSkipSpace then a
      else if depth = 0 then a\<lparr>top := top a @ [c]\<rparr>
      else if op = ScanObjectKey \<and> depth' = 1 then a\<lparr>mkey := cur a, cur := []\<rparr>
      else if op = ScanObjectValue \<and> depth' = 1 \<or> op = ScanEndObject \<and> depth' = 0 \<and> cur a \<noteq> [] then
        a\<lparr>members := members a @ [(mkey a, cur a)], cur := []\<rparr>
      else a\<lparr>cur := cur a @ [c]\<rparr>)"

fun json_scan :: "jstate \<Rightarrow> jctx list \<Rightarrow> collected \<Rightarrow> string \<Rightarrow> collected option" where
  "json_scan st stk a [] =
     (case scan_step st stk (CHR '' '') of
        Some (EndTop, _, _) \<Rightarrow> Some a
      | _ \<Rightarrow> None)"
| "json_scan st stk a (c # cs) =
     (case scan_step st stk c of
        Some (st', stk', op) \<Rightarrow> json_scan st' stk' (collect_op op (length stk) (length stk') c a) cs
      | None \<Rightarrow> None)"

section \<open>Reading\<close>

text \<open>\<open>getu4\<close>: the number after \<open>\u\<close>.\<close>

fun getu4 :: "string \<Rightarrow> nat option" where
  "getu4 (e # u # a # b # c # d # _) =
     (if e = bslash \<and> u = CHR ''u'' then
        (case (hex_digit a, hex_digit b, hex_digit c, hex_digit d) of
           (Some w, Some x, Some y, Some z) \<Rightarrow> Some (nat (((w * 16 + x) * 16 + y) * 16 + z))
         | _ \<Rightarrow> None)
      else None)"
| "getu4 _ = None"

definition is_surrogate :: "nat \<Rightarrow> bool" where
  "is_surrogate r \<longleftrightarrow> 0xD800 \<le> r \<and> r < 0xE000"

text \<open>\<open>utf16.DecodeRune\<close>, \<open>None\<close> for its replacement character.\<close>

definition surrogate_pair :: "nat \<Rightarrow> nat \<Rightarrow> nat option" where
  "surrogate_pair r s =
     (if 0xD800 \<le> r \<and> r < 0xDC00 \<and> 0xDC00 \<le> s \<and> s < 0xE000
      then Some ((r - 0xD800) * 1024 + (s - 0xDC00) + 0x10000) else None)"

definition unescape :: "char \<Rightarrow> char" where
  "unescape c =
     (if c = CHR ''b'' then CHR 0x08 else if c = CHR ''f'' then CHR 0x0C else if c = CHR ''n'' then CHR 0x0A
      else if c = CHR ''r'' then CHR 0x0D else if c = CHR ''t'' then CHR 0x09 else c)"

text \<open>
  \<open>unquoteBytes\<close> without the quotes, on what the scanner has accepted; a lone backslash and a
  broken \<open>\u\<close> do not occur there.
\<close>

function unquote_body :: "string \<Rightarrow> string" where
  "unquote_body [] = []"
| "unquote_body (c # s) =
     (if c = bslash then
        (case s of
           [] \<Rightarrow> []
         | e # s' \<Rightarrow>
             if e \<noteq> CHR ''u'' then unescape e # unquote_body s'
             else (case getu4 (c # s) of
                     None \<Rightarrow> []
                   | Some r \<Rightarrow>
                       if \<not> is_surrogate r then encode_rune r @ unquote_body (drop 5 s)
                       else (case Option.bind (getu4 (drop 5 s)) (surrogate_pair r) of
                               Some r' \<Rightarrow> encode_rune r' @ unquote_body (drop 11 s)
                             | None \<Rightarrow> replacement @ unquote_body (drop 5 s))))
      else if utf8_size (c # s) = 0 then replacement @ unquote_body s
      else take (utf8_size (c # s)) (c # s) @ unquote_body (drop (utf8_size (c # s) - 1) s))"
  by pat_completeness auto
termination
  by (relation "measure length") auto

definition unquote :: "string \<Rightarrow> string" where
  "unquote raw = unquote_body (butlast (tl raw))"

text \<open>\<open>strconv.ParseInt(s, 10, 64)\<close> on a JSON number.\<close>

definition digits_value :: "string \<Rightarrow> nat" where
  "digits_value ds = foldl (\<lambda>n c. n * 10 + (byte c - 48)) 0 ds"

definition ParseInt :: "string \<Rightarrow> int option" where
  "ParseInt s =
     (let neg = (s \<noteq> [] \<and> hd s = CHR ''-'');
          ds = (if neg then tl s else s);
          i = (if neg then - int (digits_value ds) else int (digits_value ds))
      in if ds \<noteq> [] \<and> list_all is_digit ds \<and> in_i64 i then Some i else None)"

text \<open>
  A raw value stored into a field: \<open>None\<close> is an \<open>UnmarshalTypeError\<close>, which leaves the field
  and is reported in the end; \<open>null\<close> leaves it too, without an error.
\<close>

definition set_string :: "(string \<Rightarrow> 't \<Rightarrow> 't) \<Rightarrow> string \<Rightarrow> 't \<Rightarrow> 't option" where
  "set_string upd raw t =
     (if raw = ''null'' then Some t
      else if raw \<noteq> [] \<and> hd raw = quote then Some (upd (unquote raw) t) else None)"

definition set_int64 :: "(int \<Rightarrow> 't \<Rightarrow> 't) \<Rightarrow> string \<Rightarrow> 't \<Rightarrow> 't option" where
  "set_int64 upd raw t =
     (if raw = ''null'' then Some t
      else if raw \<noteq> [] \<and> (hd raw = CHR ''-'' \<or> is_digit (hd raw))
      then map_option (\<lambda>i. upd i t) (ParseInt raw) else None)"

text \<open>
  \<open>foldName\<close> on ASCII names: lower case to upper case, and the two runes outside ASCII that
  fold to a letter of ASCII, U+017F and U+212A.
\<close>

fun fold_name :: "string \<Rightarrow> string" where
  "fold_name (a # b # c # s) =
     (if [a, b] = [CHR 0xC5, CHR 0xBF] then CHR ''S'' # fold_name (c # s)
      else if [a, b, c] = [CHR 0xE2, CHR 0x84, CHR 0xAA] then CHR ''K'' # fold_name s
      else (if between 97 122 a then char_of (byte a - 32) else a) # fold_name (b # c # s))"
| "fold_name [a, b] =
     (if [a, b] = [CHR 0xC5, CHR 0xBF] then ''S''
      else (if between 97 122 a then char_of (byte a - 32) else a) # fold_name [b])"
| "fold_name [a] = [if between 97 122 a then char_of (byte a - 32) else a]"
| "fold_name [] = []"

type_synonym 't fields = "(string \<times> (string \<Rightarrow> 't \<Rightarrow> 't option)) list"

text \<open>The field a key names: by its exact name, else by its folded name.\<close>

definition field_of :: "'t fields \<Rightarrow> string \<Rightarrow> (string \<Rightarrow> 't \<Rightarrow> 't option) option" where
  "field_of fs key =
     (case map_of fs key of
        Some f \<Rightarrow> Some f
      | None \<Rightarrow> map_of (map (\<lambda>(n, f). (fold_name n, f)) fs) (fold_name key))"

primrec set_members :: "'t fields \<Rightarrow> (string \<times> string) list \<Rightarrow> bool \<Rightarrow> 't \<Rightarrow> bool \<times> 't" where
  "set_members fs [] ok t = (ok, t)"
| "set_members fs (m # ms) ok t =
     (case field_of fs (unquote (fst m)) of
        None \<Rightarrow> set_members fs ms ok t
      | Some f \<Rightarrow>
          (case f (snd m) t of
             Some t' \<Rightarrow> set_members fs ms ok t'
           | None \<Rightarrow> set_members fs ms False t))"

text \<open>
  \<open>json.Unmarshal\<close> into a struct: whether the error is nil, and the struct afterwards.  A text
  that is not JSON leaves it as it was.
\<close>

definition Unmarshal_struct :: "'t fields \<Rightarrow> string \<Rightarrow> 't \<Rightarrow> bool \<times> 't" where
  "Unmarshal_struct fs data t =
     (case json_scan BeginValue [] \<lparr>cur = [], mkey = [], members = [], top = []\<rparr> data of
        None \<Rightarrow> (False, t)
      | Some a \<Rightarrow>
          if top a = ''{'' then set_members fs (members a) True t
          else (top a = ''null'', t))"

end
