(* ===== verification/Json_Roundtrip.thy ===== *)
theory Json_Roundtrip
  imports Json
begin

text \<open>
  What is written is read back: strings, up to the replacement of bytes that are not UTF-8,
  and 64-bit integers.
\<close>

section \<open>Runes\<close>

lemma utf8_size_le: "utf8_size s \<le> length s"
  by (cases s) (auto split: list.splits)

lemma utf8_size_ascii [simp]: "byte c < 128 \<Longrightarrow> utf8_size (c # s) = Suc 0"
  by simp

lemma utf8_size_one: "utf8_size (c # s) = Suc 0 \<Longrightarrow> byte c < 128"
  by (auto split: if_splits list.splits)

declare utf8_size.simps(2) [simp del]

text \<open>A rune of several bytes has no ASCII byte, and is the same whatever follows it.\<close>

lemma utf8_size_many:
  assumes "utf8_size (a # s) = n" "2 \<le> n"
  shows "\<forall>x \<in> set (take n (a # s)). 128 \<le> byte x" and "utf8_size (take n (a # s) @ t) = n"
proof -
  consider (two) b s' where "s = b # s'" "n = 2" "between 0xC2 0xDF a" "between 0x80 0xBF b"
    | (three) b c s' where "s = b # c # s'" "n = 3" "between 0xE0 0xEF a"
        "between (if byte a = 0xE0 then 0xA0 else 0x80) (if byte a = 0xED then 0x9F else 0xBF) b" "between 0x80 0xBF c"
    | (four) b c d s' where "s = b # c # d # s'" "n = 4" "between 0xF0 0xF4 a"
        "between (if byte a = 0xF0 then 0x90 else 0x80) (if byte a = 0xF4 then 0x8F else 0xBF) b"
        "between 0x80 0xBF c" "between 0x80 0xBF d"
    using assms by (auto simp: utf8_size.simps(2) split: if_splits list.splits)
  then have "(\<forall>x \<in> set (take n (a # s)). 128 \<le> byte x) \<and> utf8_size (take n (a # s) @ t) = n"
  proof cases
    case two
    then show ?thesis by (auto simp: utf8_size.simps(2) between_def)
  next
    case three
    then show ?thesis by (auto simp: utf8_size.simps(2) between_def split: if_splits)
  next
    case four
    then show ?thesis by (auto simp: utf8_size.simps(2) between_def split: if_splits)
  qed
  then show "\<forall>x \<in> set (take n (a # s)). 128 \<le> byte x" "utf8_size (take n (a # s) @ t) = n" by auto
qed

lemma to_valid_id: "valid_utf8 s \<Longrightarrow> to_valid s = s"
proof (induction s rule: to_valid.induct)
  case (2 c s)
  then have "utf8_size (c # s) \<noteq> 0" "to_valid (drop (utf8_size (c # s) - 1) s) = drop (utf8_size (c # s) - 1) s"
    by simp_all
  then show ?case by (cases "utf8_size (c # s)") simp_all
qed simp

lemma valid_to_valid: "valid_utf8 (to_valid s)"
proof (induction s rule: to_valid.induct)
  case (2 c s)
  let ?n = "utf8_size (c # s)"
  consider "?n = 0" | "?n = 1" | "2 \<le> ?n" by linarith
  then show ?case
  proof cases
    case 1
    then show ?thesis using "2.IH"(1) by (simp add: replacement_def utf8_size.simps(2) between_def)
  next
    case 2
    then show ?thesis using "2.IH"(2) utf8_size_one [of c s] by simp
  next
    case 3
    have le: "?n \<le> length (c # s)" by (rule utf8_size_le)
    obtain t where t: "take ?n (c # s) = c # t" "length t = ?n - 1" using 3 le by (cases ?n) auto
    have "utf8_size (c # t @ to_valid (drop (?n - 1) s)) = ?n"
      using utf8_size_many(2) [OF refl 3] t(1) by (metis append_Cons)
    then show ?thesis using "2.IH"(2) 3 t by (simp add: Let_def)
  qed
qed simp

lemma to_valid_idem [simp]: "to_valid (to_valid s) = to_valid s"
  by (rule to_valid_id) (rule valid_to_valid)

section \<open>Strings\<close>

lemma hex_digit_json_hex: "n < 16 \<Longrightarrow> hex_digit (json_hex n) = Some (int n)"
proof -
  have "\<forall>n \<in> set [0..<16]. hex_digit (json_hex n) = Some (int n)" by code_simp
  then show "n < 16 \<Longrightarrow> ?thesis" by auto
qed

text \<open>What the encoder writes for one rune, and that it is read as that rune.\<close>

definition quoted_unit :: "string \<Rightarrow> string \<Rightarrow> bool" where
  "quoted_unit q u \<longleftrightarrow>
     (\<forall>stk a t. stk \<noteq> [] \<longrightarrow> json_scan InString stk a (q @ t) = json_scan InString stk (a\<lparr>cur := cur a @ q\<rparr>) t) \<and>
     (\<forall>t. unquote_body (q @ t) = u @ unquote_body t)"

declare unquote_body.simps(2) [simp del]

lemma bit_one_0: "bit (Suc 0) 0"
  by (simp add: bit_0)

lemmas char_simps = char_of_def bit_one_0

lemma collect_string: "stk \<noteq> [] \<Longrightarrow> collect_op ScanContinue (length stk) (length stk) c a = a\<lparr>cur := cur a @ [c]\<rparr>"
  by (simp add: collect_op_def)

lemma scan_string_char:
  "c \<noteq> quote \<Longrightarrow> c \<noteq> bslash \<Longrightarrow> 32 \<le> byte c \<Longrightarrow> stk \<noteq> [] \<Longrightarrow>
     json_scan InString stk a (c # t) = json_scan InString stk (a\<lparr>cur := cur a @ [c]\<rparr>) t"
  by (simp add: collect_string)

lemma scan_string_escape:
  "c \<in> set ''bfnrt/'' \<or> c = bslash \<or> c = quote \<Longrightarrow> stk \<noteq> [] \<Longrightarrow>
     json_scan InString stk a (bslash # c # t) = json_scan InString stk (a\<lparr>cur := cur a @ [bslash, c]\<rparr>) t"
proof -
  assume c: "c \<in> set ''bfnrt/'' \<or> c = bslash \<or> c = quote" and stk: "stk \<noteq> []"
  have "scan_step InString stk bslash = Some (InStringEsc, stk, ScanContinue)" by (simp add: bslash_def quote_def)
  moreover have "scan_step InStringEsc stk c = Some (InString, stk, ScanContinue)"
    using c by (auto simp: bslash_def quote_def)
  ultimately show ?thesis using stk by (simp add: collect_string del: scan_step.simps)
qed

lemma scan_string_u:
  assumes "hex_digit h1 \<noteq> None" "hex_digit h2 \<noteq> None" "hex_digit h3 \<noteq> None" "hex_digit h4 \<noteq> None" "stk \<noteq> []"
  shows "json_scan InString stk a ([bslash, CHR ''u'', h1, h2, h3, h4] @ t) =
    json_scan InString stk (a\<lparr>cur := cur a @ [bslash, CHR ''u'', h1, h2, h3, h4]\<rparr>) t"
proof -
  have "scan_step InString stk bslash = Some (InStringEsc, stk, ScanContinue)"
    "scan_step InStringEsc stk (CHR ''u'') = Some (InEscU 4, stk, ScanContinue)"
    by (simp_all add: bslash_def quote_def)
  moreover have "scan_step (InEscU n) stk h = Some (if n \<le> 1 then InString else InEscU (n - 1), stk, ScanContinue)"
    if "hex_digit h \<noteq> None" for n h using that by simp
  ultimately show ?thesis using assms by (simp add: collect_string del: scan_step.simps)
qed

lemma unquote_plain:
  "utf8_size (c # s) = 1 \<Longrightarrow> c \<noteq> bslash \<Longrightarrow> unquote_body (c # s) = c # unquote_body s"
  by (simp add: unquote_body.simps(2))

lemma unquote_escape: "c \<noteq> CHR ''u'' \<Longrightarrow> unquote_body (bslash # c # t) = unescape c # unquote_body t"
  by (simp add: unquote_body.simps(2))

lemma unquote_u:
  assumes "hex_digit h1 = Some w" "hex_digit h2 = Some x" "hex_digit h3 = Some y" "hex_digit h4 = Some z"
    and "r = nat (((w * 16 + x) * 16 + y) * 16 + z)" "\<not> is_surrogate r"
  shows "unquote_body ([bslash, CHR ''u'', h1, h2, h3, h4] @ t) = encode_rune r @ unquote_body t"
  using assms by (simp add: unquote_body.simps(2))

lemma quoted_u:
  assumes "hex_digit h1 = Some w" "hex_digit h2 = Some x" "hex_digit h3 = Some y" "hex_digit h4 = Some z"
    and "r = nat (((w * 16 + x) * 16 + y) * 16 + z)" "\<not> is_surrogate r" "u = encode_rune r"
  shows "quoted_unit [bslash, CHR ''u'', h1, h2, h3, h4] u"
  unfolding quoted_unit_def using scan_string_u unquote_u [OF assms(1-6)] assms by simp

lemma quoted_replacement: "quoted_unit (bslash # ''ufffd'') replacement"
  by (rule quoted_u [of _ 15 _ 15 _ 15 _ 13 65533])
     (simp_all add: hex_digit_def is_surrogate_def encode_rune_def replacement_def char_simps)

lemma quoted_short:
  assumes "e \<in> set ''bfnrt/'' \<or> e = bslash \<or> e = quote" "unescape e = c"
  shows "quoted_unit [bslash, e] [c]"
proof -
  have "e \<noteq> CHR ''u''" using assms(1) by (auto simp: bslash_def quote_def)
  then show ?thesis
    unfolding quoted_unit_def using scan_string_escape [OF assms(1)] unquote_escape assms(2) by simp
qed

lemma quoted_char: "c \<noteq> quote \<Longrightarrow> c \<noteq> bslash \<Longrightarrow> 32 \<le> byte c \<Longrightarrow> byte c < 128 \<Longrightarrow> quoted_unit [c] [c]"
  unfolding quoted_unit_def using scan_string_char unquote_plain by simp

lemma quoted_hex: "byte c < 128 \<Longrightarrow>
  quoted_unit [bslash, CHR ''u'', CHR ''0'', CHR ''0'', json_hex (byte c div 16), json_hex (byte c mod 16)] [c]"
proof (rule quoted_u)
  assume c: "byte c < 128"
  show "hex_digit (CHR ''0'') = Some 0" "hex_digit (CHR ''0'') = Some 0" by (simp_all add: hex_digit_def)
  show "hex_digit (json_hex (byte c div 16)) = Some (int (byte c div 16))"
    "hex_digit (json_hex (byte c mod 16)) = Some (int (byte c mod 16))"
    using c by (intro hex_digit_json_hex; simp)+
  have "nat (((0 * 16 + 0) * 16 + int (byte c div 16)) * 16 + int (byte c mod 16)) = byte c"
    by (simp add: nat_add_distrib nat_mult_distrib del: of_nat_of_char)
  then show "byte c = nat (((0 * 16 + 0) * 16 + int (byte c div 16)) * 16 + int (byte c mod 16))" by (rule sym)
  show "\<not> is_surrogate (byte c)" "[c] = encode_rune (byte c)" using c by (simp_all add: is_surrogate_def encode_rune_def)
qed

lemma char_byte: "byte c = n \<Longrightarrow> c = char_of n"
  by auto

lemma quoted_escape: "byte c < 128 \<Longrightarrow> quoted_unit (escape c) [c]"
proof -
  assume c: "byte c < 128"
  have short: "c = bslash \<or> c = quote \<Longrightarrow> quoted_unit [bslash, c] [c]"
    "byte c = 8 \<Longrightarrow> quoted_unit [bslash, CHR ''b''] [c]" "byte c = 12 \<Longrightarrow> quoted_unit [bslash, CHR ''f''] [c]"
    "byte c = 10 \<Longrightarrow> quoted_unit [bslash, CHR ''n''] [c]" "byte c = 13 \<Longrightarrow> quoted_unit [bslash, CHR ''r''] [c]"
    "byte c = 9 \<Longrightarrow> quoted_unit [bslash, CHR ''t''] [c]"
    by (rule quoted_short; force simp: unescape_def bslash_def quote_def char_simps dest: char_byte)+
  show ?thesis
    using short quoted_hex [OF c] quoted_char [OF _ _ _ c] unfolding escape_def by auto
qed

lemma quoted_rune:
  assumes "utf8_size (c # s) = n" "2 \<le> n"
  shows "quoted_unit (take n (c # s)) (take n (c # s))"
  unfolding quoted_unit_def
proof (intro conjI allI impI)
  note many = utf8_size_many [OF assms]
  fix stk :: "jctx list" and a t assume stk: "stk \<noteq> []"
  have "json_scan InString stk a (q @ t) = json_scan InString stk (a\<lparr>cur := cur a @ q\<rparr>) t"
    if "\<forall>x \<in> set q. 128 \<le> byte x" for q
    using that
  proof (induction q arbitrary: a)
    case (Cons x q)
    then have "x \<noteq> quote" "x \<noteq> bslash" "32 \<le> byte x" by (auto simp: quote_def bslash_def)
    with Cons stk show ?case by (simp add: scan_string_char del: json_scan.simps)
  qed simp
  with many(1) show "json_scan InString stk a (take n (c # s) @ t) =
      json_scan InString stk (a\<lparr>cur := cur a @ take n (c # s)\<rparr>) t" by blast
next
  fix t
  obtain m where m: "n = Suc m" using assms(2) by (cases n) auto
  have size: "utf8_size (c # take m s @ t) = n" using utf8_size_many(2) [OF assms, of t] by (simp add: m)
  have len: "length (take m s) = m" using utf8_size_le [of "c # s"] assms by (simp add: m)
  have "c \<noteq> bslash" using utf8_size_many(1) [OF assms] by (auto simp: m bslash_def)
  then show "unquote_body (take n (c # s) @ t) = take n (c # s) @ unquote_body t"
    using size len by (simp add: m unquote_body.simps(2))
qed

lemma quoted_escape_rune:
  assumes "utf8_size (c # s) = n" "2 \<le> n"
  shows "quoted_unit (escape_rune (take n (c # s))) (take n (c # s))"
proof -
  have "quoted_unit (bslash # ''u2028'') [CHR 0xE2, CHR 0x80, CHR 0xA8]"
    by (rule quoted_u [of _ 2 _ 0 _ 2 _ 8 8232]) (simp_all add: hex_digit_def is_surrogate_def encode_rune_def char_simps)
  moreover have "quoted_unit (bslash # ''u2029'') [CHR 0xE2, CHR 0x80, CHR 0xA9]"
    by (rule quoted_u [of _ 2 _ 0 _ 2 _ 9 8233]) (simp_all add: hex_digit_def is_surrogate_def encode_rune_def char_simps)
  ultimately show ?thesis using quoted_rune [OF assms] by (simp add: escape_rune_def)
qed

lemma quoted_Nil: "quoted_unit [] []"
  by (simp add: quoted_unit_def)

lemma quoted_append: "quoted_unit q u \<Longrightarrow> quoted_unit q' u' \<Longrightarrow> quoted_unit (q @ q') (u @ u')"
  by (simp add: quoted_unit_def del: json_scan.simps)

lemma quoted_body: "quoted_unit (quote_body s) (to_valid s)"
proof (induction s rule: quote_body.induct)
  case (2 c s)
  let ?n = "utf8_size (c # s)"
  consider "?n = 0" | "?n = 1" | "2 \<le> ?n" by linarith
  then show ?case
  proof cases
    case 1
    then show ?thesis using 2(1) quoted_append [OF quoted_replacement] by simp
  next
    case 2
    have "quoted_unit (escape c @ quote_body s) ([c] @ to_valid s)"
      by (rule quoted_append [OF quoted_escape [OF utf8_size_one]]) (use 2 \<open>?n = 1\<close> "2.IH" in auto)
    then show ?thesis using \<open>?n = 1\<close> by simp
  next
    case 3
    have "quoted_unit (escape_rune (take ?n (c # s)) @ quote_body (drop (?n - 1) s))
        (take ?n (c # s) @ to_valid (drop (?n - 1) s))"
      by (rule quoted_append [OF quoted_escape_rune [OF refl 3]]) (use 3 "2.IH" in auto)
    then show ?thesis using 3 by (simp add: Let_def)
  qed
qed (simp add: quoted_Nil)

lemma unquote_quote: "unquote (quote_json s) = to_valid s"
  using quoted_body [of s] by (simp add: unquote_def quote_json_def quoted_unit_def butlast_append) (metis append_Nil2 unquote_body.simps(1))

section \<open>Integers\<close>

declare itoa_nat.simps [simp del]

lemma digits_value_snoc: "digits_value (ds @ [d]) = digits_value ds * 10 + (byte d - 48)"
  by (simp add: digits_value_def)

lemma itoa_nat_digits: "itoa_nat n \<noteq> [] \<and> list_all is_digit (itoa_nat n) \<and> digits_value (itoa_nat n) = n"
proof (induction n rule: itoa_nat.induct)
  case (1 n)
  have d: "is_digit (char_of (48 + k))" "byte (char_of (48 + k)) = 48 + k" if "k < 10" for k
    using that by (simp_all add: is_digit_def between_def)
  show ?case
  proof (cases "n < 10")
    case True
    then show ?thesis using d by (simp add: itoa_nat.simps digits_value_def)
  next
    case False
    moreover from False have "itoa_nat n = itoa_nat (n div 10) @ [char_of (48 + n mod 10)]" by (subst itoa_nat.simps) simp
    ultimately show ?thesis using 1 d [of "n mod 10"] by (simp add: digits_value_snoc)
  qed
qed

lemma itoa_nat_hd: "0 < n \<Longrightarrow> hd (itoa_nat n) \<noteq> CHR ''0''"
proof (induction n rule: itoa_nat.induct)
  case (1 n)
  show ?case
  proof (cases "n < 10")
    case True
    have "byte (char_of (48 + n)) \<noteq> byte (CHR ''0'')" using True 1(2) by simp
    with True show ?thesis by (metis itoa_nat.simps list.sel(1))
  next
    case False
    then show ?thesis using 1 itoa_nat_digits [of "n div 10"] by (subst itoa_nat.simps) simp
  qed
qed

lemma digit_not_minus: "is_digit c \<Longrightarrow> c \<noteq> CHR ''-''"
  by (auto simp: is_digit_def between_def)

lemma ParseInt_itoa: "in_i64 i \<Longrightarrow> ParseInt (itoa i) = Some i"
  using itoa_nat_digits [of "nat i"] itoa_nat_digits [of "nat (- i)"]
  by (cases "itoa_nat (nat i)") (auto simp: itoa_def ParseInt_def Let_def dest: digit_not_minus)

text \<open>Values that the scanner takes whole, up to the comma or brace after them.\<close>

definition scans :: "string \<Rightarrow> bool" where
  "scans v \<longleftrightarrow> v \<noteq> [] \<and>
     (\<forall>a t c. c = CHR '','' \<or> c = CHR ''}'' \<longrightarrow>
        json_scan BeginValue [ParseObjectValue] a (v @ c # t) =
        json_scan EndValue [ParseObjectValue] (a\<lparr>cur := cur a @ v\<rparr>) (c # t))"

lemma scan_string_end:
  "stk \<noteq> [] \<Longrightarrow> json_scan InString stk a (quote_body s @ quote # t) =
     json_scan EndValue stk (a\<lparr>cur := cur a @ quote_body s @ [quote]\<rparr>) t"
  using quoted_body [of s] by (simp add: quoted_unit_def collect_string)

lemma json_scan_step:
  "scan_step st stk c = Some (st', stk', op) \<Longrightarrow>
     json_scan st stk a (c # t) = json_scan st' stk' (collect_op op (length stk) (length stk') c a) t"
  by simp

lemma scans_quote: "scans (quote_json s)"
proof -
  have "scan_step BeginValue [ParseObjectValue] quote = Some (InString, [ParseObjectValue], ScanBeginLiteral)"
    by (simp add: begin_value_def is_space_def quote_def)
  then show ?thesis
    using scan_string_end [of "[ParseObjectValue]" _ s]
    by (simp add: scans_def quote_json_def json_scan_step collect_op_def del: json_scan.simps)
qed

lemma scan_digits:
  "list_all is_digit ds \<Longrightarrow> json_scan InInt [ParseObjectValue] a (ds @ t) = json_scan InInt [ParseObjectValue] (a\<lparr>cur := cur a @ ds\<rparr>) t"
proof (induction ds arbitrary: a)
  case (Cons d ds)
  then show ?case by (simp add: collect_op_def)
qed simp

lemma scan_number_end:
  assumes "c = CHR '','' \<or> c = CHR ''}''" "st = InInt \<or> st = InZero"
  shows "json_scan st [ParseObjectValue] a (c # t) = json_scan EndValue [ParseObjectValue] a (c # t)"
  using assms by (auto simp: after_zero_def is_digit_def between_def)

lemma scan_digit_begin:
  assumes "between 49 57 d"
  shows "scan_step BeginValue stk d = Some (InInt, stk, ScanBeginLiteral)"
    and "scan_step InNeg stk d = Some (InInt, stk, ScanContinue)"
proof -
  have "\<not> is_space d" using assms by (simp add: is_space_def between_def)
  moreover have "x \<in> {quote} \<union> set ''{[-0tfn'' \<Longrightarrow> d \<noteq> x" for x
    using assms by (auto simp: between_def quote_def)
  then have "d \<noteq> CHR ''{''" "d \<noteq> CHR ''[''" "d \<noteq> CHR ''-''" "d \<noteq> CHR ''0''" "d \<noteq> CHR ''t''" "d \<noteq> CHR ''f''"
    "d \<noteq> CHR ''n''" "d \<noteq> quote"
    by simp_all
  moreover have "is_digit d" using assms by (simp add: is_digit_def between_def)
  ultimately show "scan_step BeginValue stk d = Some (InInt, stk, ScanBeginLiteral)"
    and "scan_step InNeg stk d = Some (InInt, stk, ScanContinue)"
    using assms by (simp_all add: begin_value_def expect_digit_def)
qed

lemma scan_nat:
  assumes "begin = BeginValue \<or> begin = InNeg" and "c = CHR '','' \<or> c = CHR ''}''"
  shows "json_scan begin [ParseObjectValue] a (itoa_nat n @ c # t) =
    json_scan EndValue [ParseObjectValue] (a\<lparr>cur := cur a @ itoa_nat n\<rparr>) (c # t)"
proof (cases "n = 0")
  case True
  then have n: "itoa_nat n = ''0''" by (simp add: itoa_nat.simps char_simps)
  have "scan_step begin [ParseObjectValue] (CHR ''0'') =
      Some (InZero, [ParseObjectValue], if begin = InNeg then ScanContinue else ScanBeginLiteral)"
    using assms(1) by (auto simp: begin_value_def is_space_def quote_def)
  from json_scan_step [OF this, of a "c # t"] scan_number_end [OF assms(2), of InZero]
  show ?thesis by (simp add: n collect_op_def del: json_scan.simps)
next
  case False
  obtain d ds where d: "itoa_nat n = d # ds" using itoa_nat_digits [of n] by (cases "itoa_nat n") auto
  then have dd: "is_digit d" "list_all is_digit ds" "d \<noteq> CHR ''0''"
    using itoa_nat_digits [of n] itoa_nat_hd [of n] False by auto
  have "byte d \<noteq> byte (CHR ''0'')" using dd(3) by (simp only: of_char_eq_iff) simp
  then have "between 49 57 d" using dd(1) by (auto simp: is_digit_def between_def)
  then have "scan_step begin [ParseObjectValue] d =
      Some (InInt, [ParseObjectValue], if begin = InNeg then ScanContinue else ScanBeginLiteral)"
    using assms(1) scan_digit_begin by auto
  from json_scan_step [OF this, of a "ds @ c # t"] scan_digits [OF dd(2), of _ "c # t"]
    scan_number_end [OF assms(2), of InInt]
  show ?thesis by (simp add: d collect_op_def del: json_scan.simps)
qed

lemma scans_itoa: "scans (itoa i)"
proof -
  have "json_scan BeginValue [ParseObjectValue] a (CHR ''-'' # s) =
      json_scan InNeg [ParseObjectValue] (a\<lparr>cur := cur a @ ''-''\<rparr>) s" for a s
    by (simp add: begin_value_def is_space_def quote_def collect_op_def)
  then show ?thesis
    using itoa_nat_digits [of "nat i"] scan_nat by (simp add: scans_def itoa_def del: json_scan.simps)
qed

section \<open>Structs\<close>

lemma scan_key:
  assumes "st = BeginStringOrEmpty \<or> st = BeginString" "cur a = []"
  shows "json_scan st [ParseObjectKey] a (quote_json n @ CHR '':'' # t) =
    json_scan BeginValue [ParseObjectValue] (a\<lparr>mkey := quote_json n, cur := []\<rparr>) t"
proof -
  have "scan_step st [ParseObjectKey] quote = Some (InString, [ParseObjectKey], ScanBeginLiteral)"
    using assms(1) by (auto simp: begin_string_def is_space_def quote_def)
  then have "json_scan st [ParseObjectKey] a (quote_json n @ CHR '':'' # t) =
      json_scan InString [ParseObjectKey] (a\<lparr>cur := [quote]\<rparr>) (quote_body n @ quote # CHR '':'' # t)"
    using assms(2) by (simp add: quote_json_def collect_op_def)
  then show ?thesis
    by (simp add: scan_string_end quote_json_def is_space_def collect_op_def)
qed

lemma scan_members:
  "ms \<noteq> [] \<Longrightarrow> list_all (scans \<circ> snd) ms \<Longrightarrow> st = BeginStringOrEmpty \<or> st = BeginString \<Longrightarrow> cur a = [] \<Longrightarrow>
   \<exists>a'. json_scan st [ParseObjectKey] a (members_text ms @ ''}'') = Some a' \<and> top a' = top a \<and>
     members a' = members a @ map (\<lambda>(n, v). (quote_json n, v)) ms"
proof (induction ms arbitrary: st a rule: members_text.induct)
  case (2 n v)
  then show ?case
    using scan_key [OF 2(3,4), of n] by (auto simp: scans_def is_space_def pop_ctx_def collect_op_def)
next
  case (3 n v m ms)
  let ?a = "a\<lparr>mkey := quote_json n, members := members a @ [(quote_json n, v)], cur := []\<rparr>"
  have v: "scans v" using 3(3) by simp
  have "json_scan EndValue [ParseObjectValue] b (CHR '','' # t) =
      json_scan BeginString [ParseObjectKey] (b\<lparr>members := members b @ [(mkey b, cur b)], cur := []\<rparr>) t" for b t
    by (simp add: is_space_def collect_op_def)
  then have "json_scan st [ParseObjectKey] a (members_text ((n, v) # m # ms) @ ''}'') =
      json_scan BeginString [ParseObjectKey] ?a (members_text (m # ms) @ ''}'')"
    using v scan_key [OF 3(4,5), of n] by (simp add: scans_def del: json_scan.simps)
  moreover obtain a' where "json_scan BeginString [ParseObjectKey] ?a (members_text (m # ms) @ ''}'') = Some a'"
    "top a' = top ?a" "members a' = members ?a @ map (\<lambda>(n, v). (quote_json n, v)) (m # ms)"
    using 3(1) [of BeginString ?a] 3(3) by (auto simp del: json_scan.simps)
  ultimately show ?case by (simp del: json_scan.simps)
qed simp

theorem Unmarshal_object:
  assumes "ms \<noteq> []" "list_all (scans \<circ> snd) ms"
  shows "Unmarshal_struct fs (object_text ms) t = set_members fs (map (\<lambda>(n, v). (quote_json n, v)) ms) True t"
proof -
  let ?a = "\<lparr>cur = [], mkey = [], members = [], top = ''{''\<rparr>"
  have "json_scan BeginValue [] \<lparr>cur = [], mkey = [], members = [], top = []\<rparr> (object_text ms) =
      json_scan BeginStringOrEmpty [ParseObjectKey] ?a (members_text ms @ ''}'')"
    by (simp add: object_text_def begin_value_def is_space_def push_ctx_def maxNestingDepth_def collect_op_def)
  then show ?thesis
    using scan_members [OF assms, of BeginStringOrEmpty ?a] by (auto simp: Unmarshal_struct_def)
qed

end
