(* ===== verification/Ping_Codec.thy ===== *)
theory Ping_Codec
  imports Ping Json_Roundtrip
begin

text \<open>
  The codec of package ping (ping/ping.go): ping messages travel as JSON, protobuf messages
  as protobuf, and nothing else travels.
\<close>

section \<open>The JSON form of the two messages\<close>

text \<open>
  What \<open>encoding/json\<close> makes of a pointer to one of the two structs, after their field tags;
  a nil pointer is \<open>null\<close>.
\<close>

definition json_PingRequest :: "PingRequest option \<Rightarrow> string" where
  "json_PingRequest p =
     (case p of None \<Rightarrow> ''null'' | Some q \<Rightarrow> object_text [(''message'', quote_json (req_Message q))])"

definition json_PingResponse :: "PingResponse option \<Rightarrow> string" where
  "json_PingResponse p =
     (case p of
        None \<Rightarrow> ''null''
      | Some r \<Rightarrow> object_text [(''message'', quote_json (resp_Message r)), (''server_time_unix'', itoa (ServerTimeUnix r))])"

definition request_fields :: "PingRequest fields" where
  "request_fields = [(''message'', set_string (\<lambda>s q. q\<lparr>req_Message := s\<rparr>))]"

definition response_fields :: "PingResponse fields" where
  "response_fields =
     [(''message'', set_string (\<lambda>s r. r\<lparr>resp_Message := s\<rparr>)),
      (''server_time_unix'', set_int64 (\<lambda>i r. r\<lparr>ServerTimeUnix := i\<rparr>))]"

section \<open>The codec\<close>

text \<open>
  What the codec is given: a pointer to one of the ping types, a protobuf message, or a value
  of any other type, by the name \<open>%T\<close> prints.  A value to decode into is changed.  The
  functions of the protobuf package are not part of the repository; \<open>json_error\<close> is the error
  \<open>encoding/json\<close> makes of a text it rejects.
\<close>

datatype 'm wire_msg =
  WirePingRequest "PingRequest option" | WirePingResponse "PingResponse option" | WireProto 'm | WireOther string

record 'm codec_api =
  proto_Marshal :: "'m \<Rightarrow> gerror + string"
  proto_Unmarshal :: "string \<Rightarrow> 'm \<Rightarrow> gerror option \<times> 'm"
  json_error :: "string \<Rightarrow> gerror"

definition pingCodec_Name :: string where
  "pingCodec_Name = ''proto''"

definition unsupported :: "string \<Rightarrow> gerror" where
  "unsupported ty = PlainError (''ping codec: unsupported message type '' @ ty)"

definition pingCodec_Marshal :: "'m codec_api \<Rightarrow> 'm wire_msg \<Rightarrow> gerror + string" where
  "pingCodec_Marshal K v =
     (case v of
        WirePingRequest p \<Rightarrow> Inr (json_PingRequest p)
      | WirePingResponse p \<Rightarrow> Inr (json_PingResponse p)
      | WireProto m \<Rightarrow> proto_Marshal K m
      | WireOther ty \<Rightarrow> Inl (unsupported ty))"

text \<open>\<open>json.Unmarshal\<close> through a pointer: a nil pointer is an error of its own.\<close>

definition json_Unmarshal :: "'m codec_api \<Rightarrow> 't fields \<Rightarrow> string \<Rightarrow> 't option \<Rightarrow> gerror option \<times> 't option" where
  "json_Unmarshal K fs data p =
     (case p of
        None \<Rightarrow> (Some (json_error K data), None)
      | Some t \<Rightarrow>
          (let (ok, t') = Unmarshal_struct fs data t
           in (if ok then None else Some (json_error K data), Some t')))"

definition pingCodec_Unmarshal :: "'m codec_api \<Rightarrow> string \<Rightarrow> 'm wire_msg \<Rightarrow> gerror option \<times> 'm wire_msg" where
  "pingCodec_Unmarshal K data v =
     (case v of
        WirePingRequest p \<Rightarrow> map_prod id WirePingRequest (json_Unmarshal K request_fields data p)
      | WirePingResponse p \<Rightarrow> map_prod id WirePingResponse (json_Unmarshal K response_fields data p)
      | WireProto m \<Rightarrow> map_prod id WireProto (proto_Unmarshal K data m)
      | WireOther ty \<Rightarrow> (Some (unsupported ty), v))"

text \<open>
  The request gRPC decodes for the method handler, with the codec; \<open>status\<close> is what gRPC makes
  of an error of the codec.
\<close>

definition codec_decoder :: "'m codec_api \<Rightarrow> (gerror \<Rightarrow> gerror) \<Rightarrow> string \<Rightarrow> decoder" where
  "codec_decoder K status data q =
     (case pingCodec_Unmarshal K data (WirePingRequest (Some q)) of
        (err, WirePingRequest (Some q')) \<Rightarrow> (map_option status err, q')
      | (err, _) \<Rightarrow> (map_option status err, q))"

section \<open>The registry of codecs\<close>

text \<open>
  A codec as gRPC holds it, and the \<open>init\<close> of the package, which hands its codec to
  \<open>RegisterCodec\<close>.  The registry is gRPC's: registering and looking up are parameters.
\<close>

record 'm Codec =
  codec_Name :: string
  codec_Marshal :: "'m wire_msg \<Rightarrow> gerror + string"
  codec_Unmarshal :: "string \<Rightarrow> 'm wire_msg \<Rightarrow> gerror option \<times> 'm wire_msg"

definition pingCodec :: "'m codec_api \<Rightarrow> 'm Codec" where
  "pingCodec K = \<lparr>codec_Name = pingCodec_Name, codec_Marshal = pingCodec_Marshal K, codec_Unmarshal = pingCodec_Unmarshal K\<rparr>"

definition ping_init :: "('m Codec \<Rightarrow> 'g \<Rightarrow> 'g) \<Rightarrow> 'm codec_api \<Rightarrow> 'g \<Rightarrow> 'g" where
  "ping_init RegisterCodec K reg = RegisterCodec (pingCodec K) reg"

text \<open>The documented behaviour: a codec is found under its name, in place of an earlier one.\<close>

definition finds_codecs :: "('m Codec \<Rightarrow> 'g \<Rightarrow> 'g) \<Rightarrow> ('g \<Rightarrow> string \<Rightarrow> 'm Codec option) \<Rightarrow> bool" where
  "finds_codecs RegisterCodec GetCodec \<longleftrightarrow>
     (\<forall>c reg. codec_Name c = ''proto'' \<longrightarrow> GetCodec (RegisterCodec c reg) ''proto'' = Some c)"

text \<open>Whatever codec was registered as \<open>proto\<close> before, importing the package replaces it.\<close>

lemma init_replaces_proto:
  "finds_codecs RegisterCodec GetCodec \<Longrightarrow> GetCodec (ping_init RegisterCodec K reg) ''proto'' = Some (pingCodec K)"
  by (simp add: finds_codecs_def ping_init_def pingCodec_def pingCodec_Name_def)

section \<open>What is encoded is decoded\<close>

lemma quote_json_hd: "quote_json s \<noteq> [] \<and> hd (quote_json s) = quote"
  by (simp add: quote_json_def)

lemma quote_json_not_null: "quote_json s \<noteq> ''null''"
  using quote_json_hd [of s] by (auto simp: quote_def)

lemma field_keys:
  "unquote (quote_json ''message'') = ''message''"
  "unquote (quote_json ''server_time_unix'') = ''server_time_unix''"
  by (simp_all add: unquote_quote to_valid_id)

lemma set_string_quoted: "set_string upd (quote_json s) t = Some (upd (to_valid s) t)"
  using quote_json_hd [of s] quote_json_not_null [of s] by (simp add: set_string_def unquote_quote)

lemma set_int64_itoa: "in_i64 i \<Longrightarrow> set_int64 upd (itoa i) t = Some (upd i t)"
proof -
  assume i: "in_i64 i"
  have "itoa i \<noteq> [] \<and> (hd (itoa i) = CHR ''-'' \<or> is_digit (hd (itoa i)))"
    using itoa_nat_digits [of "nat i"] by (cases "itoa_nat (nat i)") (auto simp: itoa_def)
  moreover from this have "itoa i \<noteq> ''null''" by (auto simp: is_digit_def between_def)
  ultimately show ?thesis using ParseInt_itoa [OF i] by (simp add: set_int64_def)
qed

lemma decode_PingRequest:
  "Unmarshal_struct request_fields (json_PingRequest (Some q)) q0 = (True, \<lparr>req_Message = to_valid (req_Message q)\<rparr>)"
proof -
  have "Unmarshal_struct request_fields (json_PingRequest (Some q)) q0 =
      set_members request_fields (map (\<lambda>(n, v). (quote_json n, v)) [(''message'', quote_json (req_Message q))]) True q0"
    unfolding json_PingRequest_def option.case by (rule Unmarshal_object) (simp_all add: scans_quote)
  then show ?thesis by (simp add: request_fields_def field_of_def field_keys set_string_quoted)
qed

lemma decode_PingResponse:
  assumes "in_i64 (ServerTimeUnix r)"
  shows "Unmarshal_struct response_fields (json_PingResponse (Some r)) r0 =
    (True, \<lparr>resp_Message = to_valid (resp_Message r), ServerTimeUnix = ServerTimeUnix r\<rparr>)"
proof -
  let ?ms = "[(''message'', quote_json (resp_Message r)), (''server_time_unix'', itoa (ServerTimeUnix r))]"
  have "Unmarshal_struct response_fields (json_PingResponse (Some r)) r0 =
      set_members response_fields (map (\<lambda>(n, v). (quote_json n, v)) ?ms) True r0"
    unfolding json_PingResponse_def option.case
    by (rule Unmarshal_object) (simp_all add: scans_quote scans_itoa)
  then show ?thesis
    by (simp add: response_fields_def field_of_def field_keys set_string_quoted set_int64_itoa [OF assms])
qed

section \<open>Properties\<close>

text \<open>
  C35: the codec round-trips: a ping request or response encoded and decoded into a message of its
  type comes back whatever that message held, with every byte of its text that is not UTF-8
  replaced by U+FFFD (a text in UTF-8 unchanged) and the time unchanged; protobuf messages go
  to the protobuf package both ways, and any other type is an error both ways.
\<close>

theorem codec_roundtrip:
  assumes "in_i64 (ServerTimeUnix r)"
  shows "(\<exists>b. pingCodec_Marshal K (WirePingRequest (Some q)) = Inr b \<and>
      pingCodec_Unmarshal K b (WirePingRequest (Some q0)) =
        (None, WirePingRequest (Some \<lparr>req_Message = to_valid (req_Message q)\<rparr>))) \<and>
    (\<exists>b. pingCodec_Marshal K (WirePingResponse (Some r)) = Inr b \<and>
      pingCodec_Unmarshal K b (WirePingResponse (Some r0)) =
        (None, WirePingResponse (Some \<lparr>resp_Message = to_valid (resp_Message r), ServerTimeUnix = ServerTimeUnix r\<rparr>))) \<and>
    (valid_utf8 (req_Message q) \<longrightarrow> to_valid (req_Message q) = req_Message q) \<and>
    pingCodec_Marshal K (WireProto m) = proto_Marshal K m \<and>
    pingCodec_Unmarshal K b (WireProto m) = map_prod id WireProto (proto_Unmarshal K b m) \<and>
    pingCodec_Marshal K (WireOther ty) = Inl (PlainError (''ping codec: unsupported message type '' @ ty)) \<and>
    pingCodec_Unmarshal K b (WireOther ty) =
      (Some (PlainError (''ping codec: unsupported message type '' @ ty)), WireOther ty)"
  using decode_PingRequest decode_PingResponse [OF assms] to_valid_id
  by (simp add: pingCodec_Marshal_def pingCodec_Unmarshal_def json_Unmarshal_def unsupported_def)

text \<open>A protobuf package with one message, for concrete runs.\<close>

definition demo_codec :: "nat codec_api" where
  "demo_codec = \<lparr>proto_Marshal = (\<lambda>_. Inr []), proto_Unmarshal = (\<lambda>_ m. (None, m)), json_error = PlainError\<rparr>"

theorem codec_roundtrip_witness:
  "\<exists>b. pingCodec_Marshal demo_codec (WirePingResponse (Some \<lparr>resp_Message = ''a'' @ [CHR 0xFF], ServerTimeUnix = - 5\<rparr>)) = Inr b \<and>
    pingCodec_Unmarshal demo_codec b (WirePingResponse (Some \<lparr>resp_Message = [], ServerTimeUnix = 0\<rparr>)) =
      (None, WirePingResponse (Some \<lparr>resp_Message = ''a'' @ [CHR 0xEF, CHR 0xBF, CHR 0xBD], ServerTimeUnix = - 5\<rparr>))"
proof -
  have "to_valid (''a'' @ [CHR 0xFF]) = ''a'' @ [CHR 0xEF, CHR 0xBF, CHR 0xBD]"
    by (simp add: replacement_def between_def utf8_size.simps(2))
  moreover have "in_i64 (ServerTimeUnix \<lparr>resp_Message = ''a'' @ [CHR 0xFF], ServerTimeUnix = - 5\<rparr>)"
    by (simp add: in_i64_def)
  note codec_roundtrip [OF this, of demo_codec "\<lparr>req_Message = []\<rparr>" "\<lparr>req_Message = []\<rparr>" "\<lparr>resp_Message = [], ServerTimeUnix = 0\<rparr>"]
  ultimately show ?thesis by simp
qed

end
