(* ===== verification/Ping_Service.thy ===== *)
theory Ping_Service
  imports Wiring Ping_Codec
begin

text \<open>
  The ping service end to end: a server as \<open>NewServer\<close> configures it and \<open>RegisterPing\<close>
  completes it, from the bytes of a request to the bytes of its answer.
\<close>

section \<open>The handler that is registered\<close>

text \<open>The world of a server whose ping handlers read the clock and draw numbers.\<close>

record ('lim, 'rc, 'rd) ping_server_world = "('lim, 'rc, 'rd) server_world" +
  ping :: ping_world

definition in_server ::
    "(ping_world, 'b) ping_method \<Rightarrow> (('lim, 'rc, 'rd, 'x) ping_server_world_scheme, 'b) ping_method" where
  "in_server m ctx req w = map_option (\<lambda>(out, p). (out, w\<lparr>ping := p\<rparr>)) (m ctx req (ping w))"

fun method_of ::
    "(('lim, 'rc, 'rd, 'x) ping_server_world_scheme, 'b) ping_method ping_handler
       \<Rightarrow> (('lim, 'rc, 'rd, 'x) ping_server_world_scheme, 'b) ping_method" where
  "method_of DefaultHandler = in_server defaultHandler_Ping"
| "method_of (FunPing h) = in_server (funHandler_Ping h)"
| "method_of (UserPing m) = m"

text \<open>A method that returns, as the service the method handler calls.\<close>

definition implements :: "('w, 'b) ping_impl \<Rightarrow> ('w, 'b) ping_method \<Rightarrow> bool" where
  "implements srv m \<longleftrightarrow> (\<forall>ctx req w r. m ctx req w = Some r \<longrightarrow> srv ctx req w = r)"

section \<open>A request on its way\<close>

text \<open>
  Options that leave a request to the blockers and the handler: no authentication, rate
  limit, tracing or interceptor of the caller's.
\<close>

fun plain_opt :: "('u, 's, 'a, 'tp, 'pr) opt \<Rightarrow> bool" where
  "plain_opt (OptUnary i) \<longleftrightarrow> i = None"
| "plain_opt (OptIPBlocker b) \<longleftrightarrow> b \<noteq> None"
| "plain_opt (OptAuth fn) \<longleftrightarrow> False"
| "plain_opt (OptRateLimit rps burst) \<longleftrightarrow> False"
| "plain_opt (OptTracing tc) \<longleftrightarrow> False"
| "plain_opt _ \<longleftrightarrow> True"

lemma plain_Nil: "list_all plain_opt opts \<Longrightarrow> (\<And>x. plain_opt x \<Longrightarrow> f x = []) \<Longrightarrow> concat (map f opts) = []"
  by (auto simp: list_all_iff)

lemma plain_limiters: "list_all plain_opt opts \<Longrightarrow> map f (limiter_states n opts) = []"
proof (induction opts)
  case (Cons x xs)
  then show ?case by (cases x) auto
qed simp

lemma plain_blockers: "list_all plain_opt opts \<Longrightarrow> OptIPBlocker None \<notin> set opts"
  by (auto simp: list_all_iff)

lemma plain_spec:
  assumes "list_all plain_opt opts"
  shows "unary_spec A T E n opts =
      [] @ [RecoveryUnary. OptRecovery \<leftarrow> opts] @ [IPBlockUnary A b. OptIPBlocker b \<leftarrow> opts] @
      [] @ [] @ [RequestIDUnary. OptRecovery \<leftarrow> opts] @ []"
  unfolding unary_spec_def
  by (intro arg_cong2 [where f = append] refl plain_Nil [OF assms] plain_limiters [OF assms])
     (auto split: opt.splits option.splits)

lemma ensureRequestID_ping: "ping (snd (ensureRequestID ctx v)) = ping v"
  by (simp add: ensureRequestID_def newRequestID_def rand_Read_def Let_def split: prod.split)

lemma RequestIDUnary_eq:
  "RequestIDUnary ctx req info h v = h (fst (ensureRequestID ctx v)) req (snd (ensureRequestID ctx v))"
  by (simp add: RequestIDUnary_def split_beta)

text \<open>Request ids change the context and draw random numbers, and no more.\<close>

lemma request_id_band:
  "\<exists>ctx' v'. onion [RequestIDUnary. OptRecovery \<leftarrow> opts] info h ctx req v = h ctx' req v' \<and> ping v' = ping v"
proof (induction opts arbitrary: ctx v)
  case (Cons x xs)
  show ?case
  proof (cases "x = OptRecovery")
    case True
    have "onion [RequestIDUnary. OptRecovery \<leftarrow> x # xs] info h ctx req v =
        onion [RequestIDUnary. OptRecovery \<leftarrow> xs] info h (fst (ensureRequestID ctx v)) req (snd (ensureRequestID ctx v))"
      by (simp add: True RequestIDUnary_eq)
    with Cons show ?thesis by (metis ensureRequestID_ping)
  next
    case False
    with Cons show ?thesis by (cases x) auto
  qed
qed auto

text \<open>What a registered handler answers, when it returns.\<close>

definition ping_messages :: "string list \<Rightarrow> string list" where
  "ping_messages ms = (if ms = [] then DefaultFunMessages else ms)"

definition answers :: "bool \<Rightarrow> string list \<Rightarrow> string \<Rightarrow> string set" where
  "answers fun_mode ms m = insert m (if fun_mode then set (ping_messages ms) else {})"

lemma registered:
  assumes "gs_services (grpcServer s) = []" "length (funMessages (srv_cfg s)) < 2 ^ 31"
    and "(''rawr.Ping'', h) \<in> set (gs_services (Server_GRPC (RegisterPing seeded now None s)))"
    and "method_of h ctx req v = Some (out, v')"
  shows "\<exists>r. out = Return (Some r, None) \<and> ServerTimeUnix r = unix_now (ping v) \<and>
    resp_Message r \<in> answers (funMode (srv_cfg s)) (funMessages (srv_cfg s)) (req_Message req)"
proof (cases "funMode (srv_cfg s)")
  case True
  let ?h = "FunHandler seeded now (funRand (srv_cfg s)) (funMessages (srv_cfg s))"
  have "h = FunPing ?h"
    using assms(1,3) True by (simp add: Server_GRPC_def RegisterPing_def Register_def)
  then obtain p where "funHandler_Ping ?h ctx req (ping v) = Some (out, p)"
    using assms(4) by (auto simp: in_server_def)
  from funHandler_result [OF refl assms(2) this] True show ?thesis
    by (auto simp: answers_def ping_messages_def split: if_splits)
next
  case False
  then have "h = DefaultHandler"
    using assms(1,3) by (simp add: Server_GRPC_def RegisterPing_def Register_def)
  with assms(4) False show ?thesis by (auto simp: in_server_def defaultHandler_Ping_def answers_def)
qed

lemma codec_decoder_request:
  "pingCodec_Marshal K (WirePingRequest (Some q)) = Inr data \<Longrightarrow>
     codec_decoder K status data q0 = (None, \<lparr>req_Message = to_valid (req_Message q)\<rparr>)"
  by (auto simp: codec_decoder_def pingCodec_Marshal_def pingCodec_Unmarshal_def json_Unmarshal_def decode_PingRequest)

section \<open>Properties\<close>

text \<open>
  C16: ping from the bytes a client sends to the bytes it gets, on a server with recovery, blockers,
  a resolver, caches and fun mode in any number and order: a blocked address gets
  \<open>PermissionDenied\<close> and nothing runs; any other request is answered with the server's time
  and the request's own text, or in fun mode possibly one of the messages, and the client
  decodes exactly that.
\<close>

theorem ping_end_to_end:
  fixes w :: "('lim, 'rc, 'rd, 'x) ping_server_world_scheme"
  assumes "NewServer (map (option_of A T E) opts) w = (Return s, w')" and "list_all plain_opt opts"
    and "UnaryInterceptor u \<in> set (gs_options (Server_GRPC (RegisterPing seeded now None s)))"
    and "(''rawr.Ping'', h) \<in> set (gs_services (Server_GRPC (RegisterPing seeded now None s)))"
    and "implements srv (method_of h)" and "\<And>ctx' v'. ping v' = ping v \<Longrightarrow> method_of h ctx' q' v' \<noteq> None"
    and "pingCodec_Marshal K (WirePingRequest (Some q)) = Inr data" and "q' = \<lparr>req_Message = to_valid (req_Message q)\<rparr>"
    and "in_i64 (unix_now (ping v))" "length (funMessages (srv_cfg s)) < 2 ^ 31"
  shows "if ip_denied A opts ctx
    then pingHandler srv ctx (codec_decoder K status data) (Some u) v =
      (Return (None, Some (StatusError PermissionDenied ''blocked'')), v)
    else \<exists>r v' reply. pingHandler srv ctx (codec_decoder K status data) (Some u) v = (Return (Some r, None), v') \<and>
      resp_Message r \<in> answers (funMode (srv_cfg s)) (funMessages (srv_cfg s)) (to_valid (req_Message q)) \<and>
      ServerTimeUnix r = unix_now (ping v) \<and> pingCodec_Marshal K (WirePingResponse (Some r)) = Inr reply \<and>
      pingCodec_Unmarshal K reply (WirePingResponse (Some r0)) =
        (None, WirePingResponse (Some \<lparr>resp_Message = to_valid (resp_Message r), ServerTimeUnix = unix_now (ping v)\<rparr>))"
proof -
  have g: "UnaryInterceptor u \<in> set (gs_options (grpcServer s))"
    using assms(3) by (simp add: Server_GRPC_def RegisterPing_def Register_def Let_def)
  define k where "k = (\<lambda>ctx r. case r of AnyPing req \<Rightarrow> srv ctx req | AnyOther _ \<Rightarrow> go_panic ''interface conversion'')"
  have run: "pingHandler srv ctx (codec_decoder K status data) (Some u) v =
      onion [RecoveryUnary. OptRecovery \<leftarrow> opts] ping_full_method
        (onion [IPBlockUnary A b. OptIPBlocker b \<leftarrow> opts] ping_full_method
          (onion [RequestIDUnary. OptRecovery \<leftarrow> opts] ping_full_method k)) ctx (AnyPing q') v"
    unfolding pingHandler_def codec_decoder_request [OF assms(7)] prod.case option.case assms(8) [symmetric] k_def [symmetric]
      installed(1) [OF assms(1) g] plain_spec [OF assms(2)] append_Nil append_Nil2 onion_append by (rule refl)
  show ?thesis
  proof (cases "ip_denied A opts ctx")
    case True
    then show ?thesis
      unfolding run by (simp add: recovery_band(1) ip_band_unary [OF plain_blockers [OF assms(2)]] errBlocked_def)
  next
    case False
    obtain ctx' v' where v': "ping v' = ping v"
      "onion [RequestIDUnary. OptRecovery \<leftarrow> opts] ping_full_method k ctx (AnyPing q') v = k ctx' (AnyPing q') v'"
      using request_id_band [of opts ping_full_method k ctx "AnyPing q'" v] by blast
    obtain out v'' where m: "method_of h ctx' q' v' = Some (out, v'')" using assms(6) [OF v'(1), of ctx'] by auto
    obtain r where r: "out = Return (Some r, None)" "ServerTimeUnix r = unix_now (ping v)"
      "resp_Message r \<in> answers (funMode (srv_cfg s)) (funMessages (srv_cfg s)) (to_valid (req_Message q))"
      using registered [OF server_grpc(2) [OF assms(1)] assms(10,4) m] v'(1) assms(8) by auto
    have "k ctx' (AnyPing q') v' = (Return (Some r, None), v'')"
      using assms(5) m r(1) by (simp add: k_def implements_def)
    then have "pingHandler srv ctx (codec_decoder K status data) (Some u) v = (Return (Some r, None), v'')"
      unfolding run by (intro recovery_band(1)) (simp add: ip_band_unary [OF plain_blockers [OF assms(2)]] False v'(2))
    with r False decode_PingResponse [of r r0] assms(9) show ?thesis
      by (simp add: pingCodec_Marshal_def pingCodec_Unmarshal_def json_Unmarshal_def)
  qed
qed

section \<open>A concrete server\<close>

type_synonym demo_ping_world = "(int, string \<rightharpoonup> slice \<times> int, string \<rightharpoonup> bytes \<times> int) ping_server_world"

type_synonym demo_ping_unary = "(demo_ping_world, demo_base, ping_any, PingResponse) unary_interceptor"

type_synonym demo_ping_stream = "(demo_ping_world, demo_base, unit, unit) stream_interceptor"

type_synonym demo_ping_server =
  "(demo_ping_unary, demo_ping_stream, unit, unit, (demo_ping_world, demo_base) ping_method ping_handler) Server"

definition demo_ping_start :: demo_ping_world where
  "demo_ping_start = \<lparr>entropy = (\<lambda>_. 0), drawn = 0, clock = 0, limiters = [], rl_states = [], l1_objs = [], l2_objs = [],
     ping = \<lparr>unix_now = 7, src_drawn = 0\<rparr>\<rparr>"

definition demo_ping_new ::
    "(demo_ping_world, demo_base, demo_md, unit, unit, nat) otel_api
       \<Rightarrow> (demo_ping_unary, demo_ping_stream, (demo_ping_world, demo_base, demo_md) AuthFunc, unit, unit) opt list
       \<Rightarrow> demo_ping_server outcome \<times> demo_ping_world" where
  "demo_ping_new T opts = NewServer (map (option_of demo_api T demo_E) opts) demo_ping_start"

theorem ping_end_to_end_witness:
  "\<forall>T. \<exists>s w' u. demo_ping_new T [OptRecovery] = (Return s, w') \<and>
     UnaryInterceptor u \<in> set (gs_options (Server_GRPC (RegisterPing (\<lambda>_ _. 0) 0 None s))) \<and>
     (\<exists>v'. pingHandler (\<lambda>ctx req w. the (method_of DefaultHandler ctx req w)) (BaseCtx (None, None))
         (codec_decoder demo_codec id (json_PingRequest (Some \<lparr>req_Message = ''hi''\<rparr>))) (Some u) demo_ping_start =
       (Return (Some \<lparr>resp_Message = ''hi'', ServerTimeUnix = 7\<rparr>, None), v'))"
proof
  fix T :: "(demo_ping_world, demo_base, demo_md, unit, unit, nat) otel_api"
  let ?srv = "\<lambda>ctx req w. the (method_of DefaultHandler ctx req w)"
  let ?opts = "[OptRecovery] :: (demo_ping_unary, demo_ping_stream, (demo_ping_world, demo_base, demo_md) AuthFunc, unit, unit) opt list"
  obtain s where s: "demo_ping_new T ?opts = (Return s, opts_world demo_E demo_ping_start ?opts zero_config)"
    unfolding demo_ping_new_def by (rule server_returns [of demo_E ?opts]) auto
  note srv = s [unfolded demo_ping_new_def]
  obtain u where u: "UnaryInterceptor u \<in> set (gs_options (Server_GRPC (RegisterPing (\<lambda>_ _. 0) 0 None s)))"
    using spec_nonempty(1) [of ?opts demo_api T demo_E "length (rl_states demo_ping_start)"]
    unfolding Server_GRPC_def RegisterPing_def Register_def Let_def
    by (simp add: server_grpc(1) [OF srv] BuildServerOptions_onion)
  have cfg: "funMode (srv_cfg s) = False" "funMessages (srv_cfg s) = []"
    using server_settings(4,6) [OF srv] by (simp_all add: zero_config_def)
  have h: "(''rawr.Ping'', DefaultHandler) \<in> set (gs_services (Server_GRPC (RegisterPing (\<lambda>_ _. 0) 0 None s)))"
    by (simp add: Server_GRPC_def RegisterPing_def Register_def cfg Let_def)
  have "\<not> ip_denied demo_api ?opts (BaseCtx (None, None))" by (simp add: ip_denied_def)
  moreover note ping_end_to_end [OF srv _ u h, of ?srv demo_ping_start "\<lparr>req_Message = ''hi''\<rparr>" demo_codec
      "\<lparr>req_Message = ''hi''\<rparr>" "json_PingRequest (Some \<lparr>req_Message = ''hi''\<rparr>)" "BaseCtx (None, None)" id
      "\<lparr>resp_Message = [], ServerTimeUnix = 0\<rparr>"]
  moreover have "to_valid ''hi'' = ''hi''" by simp
  ultimately have "\<exists>r v'. pingHandler ?srv (BaseCtx (None, None))
      (codec_decoder demo_codec id (json_PingRequest (Some \<lparr>req_Message = ''hi''\<rparr>))) (Some u) demo_ping_start =
       (Return (Some r, None), v') \<and> r = \<lparr>resp_Message = ''hi'', ServerTimeUnix = 7\<rparr>"
    by (auto simp: implements_def in_server_def defaultHandler_Ping_def pingCodec_Marshal_def demo_ping_start_def
        in_i64_def cfg answers_def)
  with s u show "\<exists>s w' u. demo_ping_new T ?opts = (Return s, w') \<and>
     UnaryInterceptor u \<in> set (gs_options (Server_GRPC (RegisterPing (\<lambda>_ _. 0) 0 None s))) \<and>
     (\<exists>v'. pingHandler ?srv (BaseCtx (None, None))
         (codec_decoder demo_codec id (json_PingRequest (Some \<lparr>req_Message = ''hi''\<rparr>))) (Some u) demo_ping_start =
       (Return (Some \<lparr>resp_Message = ''hi'', ServerTimeUnix = 7\<rparr>, None), v'))"
    by blast
qed

end
