(* ===== verification/Clients.thy ===== *)
theory Clients
  imports Demos Ping_Service
begin

text \<open>
  The example programs from the side of the client (examples/): the calls their \<open>main\<close>
  functions make once the server listens and the connection is made, what they print, and the
  status they exit with.  The connection is gRPC's and not part of the repository; what is
  relied on of it is stated where it is used.  Listening, dialling and the end of the process
  are in Process.
\<close>

section \<open>The world of a client\<close>

text \<open>An outgoing context: the metadata appended to it, and the peer put into it.\<close>

record client_ctx =
  out_md :: "(string \<times> string) list"
  out_peer :: "string option"

definition Background :: client_ctx where
  "Background = \<lparr>out_md = [], out_peer = None\<rparr>"

definition AppendToOutgoingContext :: "client_ctx \<Rightarrow> string \<Rightarrow> string \<Rightarrow> client_ctx" where
  "AppendToOutgoingContext ctx k v = ctx\<lparr>out_md := out_md ctx @ [(k, v)]\<rparr>"

text \<open>
  The functions of the gRPC client, and of the standard library for printing, that the
  programs call: \<open>Invoke\<close> with the request and the reply to fill, \<open>status.FromError\<close>,
  \<open>Code.String\<close>, \<open>Error\<close> and \<open>strconv.Quote\<close>.
\<close>

type_synonym ('sv, 'm) invoke =
  "client_ctx \<Rightarrow> string \<Rightarrow> 'm wire_msg \<Rightarrow> 'm wire_msg \<Rightarrow> 'sv \<Rightarrow> (gerror option \<times> 'm wire_msg) \<times> 'sv"

record client_api =
  err_FromError :: "gerror option \<Rightarrow> gstatus \<times> bool"
  code_name :: "code \<Rightarrow> string"
  err_text :: "gerror \<Rightarrow> string"
  strconv_Quote :: "string \<Rightarrow> string"

text \<open>The other end of the connection, and what has been printed.\<close>

record 'sv cli =
  server_side :: 'sv
  cli_out :: "string list"
  cli_err :: "string list"

definition say :: "string \<Rightarrow> 'sv cli \<Rightarrow> 'sv cli" where
  "say s c = c\<lparr>cli_out := cli_out c @ [s @ newline]\<rparr>"

definition complain :: "string \<Rightarrow> 'sv cli \<Rightarrow> 'sv cli" where
  "complain s c = c\<lparr>cli_err := cli_err c @ [s @ newline]\<rparr>"

definition conn_Invoke ::
    "('sv, 'm) invoke \<Rightarrow> client_ctx \<Rightarrow> string \<Rightarrow> 'm wire_msg \<Rightarrow> 'm wire_msg \<Rightarrow> 'sv cli
       \<Rightarrow> (gerror option \<times> 'm wire_msg) \<times> 'sv cli" where
  "conn_Invoke I ctx method args reply c =
     (let (r, sv) = I ctx method args reply (server_side c) in (r, c\<lparr>server_side := sv\<rparr>))"

text \<open>The run of a program: its exit status, zero when \<open>main\<close> returns.\<close>

type_synonym 'sv run = "int \<times> 'sv cli"

text \<open>U+2500, U+2713 and U+2014 in UTF-8.\<close>

definition bar :: string where
  "bar = [CHR 0xE2, CHR 0x94, CHR 0x80, CHR 0xE2, CHR 0x94, CHR 0x80]"

definition tick :: string where
  "tick = [CHR 0xE2, CHR 0x9C, CHR 0x93]"

definition dash :: string where
  "dash = [CHR 0xE2, CHR 0x80, CHR 0x94]"

section \<open>Messages\<close>

text \<open>
  The messages of the examples that are not ping messages: pointers to an empty struct with
  the methods \<open>ProtoMessage\<close>, \<open>Reset\<close>, \<open>String\<close>, \<open>Marshal\<close> and \<open>Unmarshal\<close>, and in the basic
  example a pointer to a nil interface.  None has \<open>isPingMsg\<close> or \<open>ProtoReflect\<close>, the methods the
  codec asks for.
\<close>

definition main_msg :: "'m wire_msg" where
  "main_msg = WireOther ''*main.msg''"

definition main_echoMsg :: "'m wire_msg" where
  "main_echoMsg = WireOther ''*main.echoMsg''"

definition any_pointer :: "'m wire_msg" where
  "any_pointer = WireOther ''*interface {}''"

section \<open>The clients\<close>

text \<open>examples/basic: the method handler panics itself, and the client asks for the status.\<close>

definition Boom ::
    "'b gctx \<Rightarrow> (gerror + 'req) \<Rightarrow> ('w, 'b, 'req, 'resp) unary_interceptor option \<Rightarrow> ('w, 'resp unary_result) go" where
  "Boom ctx dec interceptor = go_panic ''intentional panic for demo''"

definition basic_main where
  "basic_main A T E = NewServer (map (option_of A T E) [OptRecovery])"

definition basic_client :: "client_api \<Rightarrow> ('sv, 'm) invoke \<Rightarrow> 'sv cli \<Rightarrow> 'sv run" where
  "basic_client C I c =
     (let ((err, _), c) = conn_Invoke I Background ''/example.PanicService/Boom'' any_pointer any_pointer c;
          st = fst (err_FromError C err);
          c = say (code_name C (st_code st)) c
      in if st_code st \<noteq> Internal
         then (1, complain (''expected codes.Internal, got '' @ code_name C (st_code st)) c)
         else (0, c))"

text \<open>examples/auth\<close>

definition auth_client :: "client_api \<Rightarrow> ('sv, 'm) invoke \<Rightarrow> 'sv cli \<Rightarrow> 'sv run" where
  "auth_client C I c =
     (let c = say ''--- call without token ---'' c;
          ((err, reply), c) = conn_Invoke I Background ''/example.Greeter/Hello'' main_msg main_msg c;
          st = fst (err_FromError C err);
          c = say (''code='' @ code_name C (st_code st) @ '' message='' @ strconv_Quote C (st_msg st)) c
      in if st_code st \<noteq> Unauthenticated
         then (1, complain (''expected Unauthenticated, got '' @ code_name C (st_code st)) c)
         else
           (let c = say ''--- call with valid token ---'' c;
                ctx = AppendToOutgoingContext Background ''authorization'' ''Bearer my-secret-token'';
                ((err, _), c) = conn_Invoke I ctx ''/example.Greeter/Hello'' main_msg reply c
            in case err of
                 Some e \<Rightarrow> (1, complain (''unexpected error: '' @ err_text C e) c)
               | None \<Rightarrow> (0, say ''code=OK'' c)))"

text \<open>examples/auth-demo\<close>

definition auth_demo_client :: "client_api \<Rightarrow> ('sv, 'm) invoke \<Rightarrow> 'sv cli \<Rightarrow> 'sv run" where
  "auth_demo_client C I c =
     (let c = say (bar @ '' call without token '' @ bar) c;
          ((err, reply), c) = conn_Invoke I Background ''/demo.AuthService/Ping'' main_msg main_msg c;
          st = fst (err_FromError C err);
          c = say (''  result: code='' @ code_name C (st_code st) @ '' message='' @ strconv_Quote C (st_msg st)) c
      in if st_code st \<noteq> Unauthenticated
         then (1, complain (''expected Unauthenticated, got '' @ code_name C (st_code st)) c)
         else
           (let c = say (bar @ '' call with valid token '' @ bar) (say [] c);
                ctx = AppendToOutgoingContext Background ''authorization'' validToken;
                ((err, _), c) = conn_Invoke I ctx ''/demo.AuthService/Ping'' main_msg reply c
            in case err of
                 Some e \<Rightarrow> (1, complain (''unexpected error: '' @ err_text C e) c)
               | None \<Rightarrow>
                   (0, say (tick @ '' auth-demo complete '' @ dash @
                          '' unauthenticated requests are rejected, valid tokens pass through'')
                         (say [] (say ''  result: code=OK'' c)))))"

text \<open>examples/ratelimit-demo: six requests in a row, counted.\<close>

definition ratelimit_demo_main where
  "ratelimit_demo_main A T E = NewServer (map (option_of A T E) [OptRecovery, OptRateLimit (Fin 2) 2])"

definition rapid_Ping where
  "rapid_Ping = call_method ''/demo.PingService/Ping'' (\<lambda>_ _. go_return (Some (), None))"

fun rapid_calls ::
    "client_api \<Rightarrow> ('sv, 'm) invoke \<Rightarrow> int list \<Rightarrow> int \<Rightarrow> int \<Rightarrow> 'sv cli \<Rightarrow> int \<times> int \<times> 'sv cli" where
  "rapid_calls C I [] accepted rejected c = (accepted, rejected, c)"
| "rapid_calls C I (i # is) accepted rejected c =
     (let ((err, _), c) = conn_Invoke I Background ''/demo.PingService/Ping'' main_msg main_msg c;
          st = fst (err_FromError C err);
          request = ''  request '' @ itoa (i + 1) @ '': ''
      in if st_code st = OK then rapid_calls C I is (accepted + 1) rejected (say (request @ ''OK'') c)
         else if st_code st = ResourceExhausted
         then rapid_calls C I is accepted (rejected + 1) (say (request @ ''rate limited ('' @ st_msg st @ '')'') c)
         else rapid_calls C I is accepted rejected
                (say (request @ ''unexpected code '' @ code_name C (st_code st)) c))"

definition ratelimit_demo_client :: "client_api \<Rightarrow> ('sv, 'm) invoke \<Rightarrow> 'sv cli \<Rightarrow> 'sv run" where
  "ratelimit_demo_client C I c =
     (let c = say (bar @ '' sending 6 rapid requests (limit: 2 req/s, burst 2) '' @ bar) c;
          (accepted, rejected, c) = rapid_calls C I [0..5] 0 0 c;
          c = say (''summary: '' @ itoa accepted @ '' accepted, '' @ itoa rejected @ '' rejected'') (say [] c)
      in if rejected = 0 then (1, complain ''expected at least one request to be rate-limited'' c)
         else (0, say (tick @ '' ratelimit-demo complete '' @ dash @
                '' excess requests correctly rejected with ResourceExhausted'') (say [] c)))"

text \<open>
  examples/ratelimit: one request over a connection whose interceptor puts a peer into the
  context, then four to each method.
\<close>

definition fakePeerInterceptor :: "string \<Rightarrow> ('sv, 'm) invoke \<Rightarrow> ('sv, 'm) invoke" where
  "fakePeerInterceptor addr invoker ctx method req reply = invoker (ctx\<lparr>out_peer := Some addr\<rparr>) method req reply"

fun echo_calls :: "client_api \<Rightarrow> ('sv, 'm) invoke \<Rightarrow> string \<Rightarrow> int list \<Rightarrow> 'sv cli \<Rightarrow> 'sv cli" where
  "echo_calls C I method [] c = c"
| "echo_calls C I method (i # is) c =
     (let ((err, _), c) = conn_Invoke I Background method main_echoMsg main_echoMsg c;
          st = fst (err_FromError C err);
          request = ''  request '' @ itoa (i + 1) @ '': ''
      in echo_calls C I method is
           (if st_code st = ResourceExhausted then say (request @ ''rate limited ('' @ st_msg st @ '')'') c
            else if st_code st = OK then say (request @ ''OK'') c
            else say (request @ ''unexpected code '' @ code_name C (st_code st)) c))"

definition blocked_call :: "client_api \<Rightarrow> ('sv, 'm) invoke \<Rightarrow> 'sv cli \<Rightarrow> 'sv cli" where
  "blocked_call C I c =
     (let ((err, _), c) = conn_Invoke (fakePeerInterceptor ''10.0.0.50:9999'' I) Background
            ''/example.EchoService/Light'' main_echoMsg main_echoMsg c;
          st = fst (err_FromError C err)
      in say (''  result: '' @ code_name C (st_code st) @ '' ('' @ st_msg st @ '')'') c)"

definition echo_methods :: "client_api \<Rightarrow> ('sv, 'm) invoke \<Rightarrow> 'sv cli \<Rightarrow> 'sv cli" where
  "echo_methods C I c =
     (let c = say ''=== Heavy method (per-group limit: 1 rps, burst 1) ==='' c;
          c = echo_calls C I ''/example.EchoService/Heavy'' [0..3] c;
          c = say ''=== Light method (global limit: 10 rps, burst 5) ==='' c
      in echo_calls C I ''/example.EchoService/Light'' [0..3] c)"

definition blocked_header :: string where
  "blocked_header = ''=== Blocked IP simulation (10.0.0.50 '' @ arrow @ '' should be PermissionDenied) ===''"

definition ratelimit_client :: "client_api \<Rightarrow> ('sv, 'm) invoke \<Rightarrow> 'sv cli \<Rightarrow> 'sv run" where
  "ratelimit_client C I c = (0, echo_methods C I (blocked_call C I (say blocked_header c)))"

text \<open>
  examples/ping-basic and examples/otel-demo: one ping with a greeting.  \<open>Invoke\<close> fills the
  reply it is given, which stays a ping response.
\<close>

definition ping_basic_main where
  "ping_basic_main A T E seeded now =
     go_bind (NewServer (map (option_of A T E) [OptRecovery]))
       (\<lambda>srv. go_return (RegisterPing seeded now (Some DefaultHandler) srv))"

definition otel_main where
  "otel_main A T E tp seeded now =
     go_bind (NewServer (map (option_of A T E) [OptRecovery, OptTracing \<lparr>TracerProvider = Some tp, Propagators = None\<rparr>]))
       (\<lambda>srv. go_return (RegisterPing seeded now (Some DefaultHandler) srv))"

definition new_PingResponse :: PingResponse where
  "new_PingResponse = \<lparr>resp_Message = [], ServerTimeUnix = 0\<rparr>"

definition filled :: "'m wire_msg \<Rightarrow> PingResponse" where
  "filled reply = (case reply of WirePingResponse (Some resp) \<Rightarrow> resp | _ \<Rightarrow> new_PingResponse)"

definition ping_client :: "client_api \<Rightarrow> ('sv, 'm) invoke \<Rightarrow> string \<Rightarrow> 'sv cli \<Rightarrow> 'sv run" where
  "ping_client C I greeting c =
     (let req = \<lparr>req_Message = greeting\<rparr>;
          ((err, reply), c) = conn_Invoke I Background ''/rawr.Ping/Ping'' (WirePingRequest (Some req))
            (WirePingResponse (Some new_PingResponse)) c
      in case err of
           Some e \<Rightarrow> (1, complain (''Ping failed: '' @ err_text C e) c)
         | None \<Rightarrow>
             (0, say (''ServerTimeUnix: '' @ itoa (ServerTimeUnix (filled reply)))
                   (say (''Message:        '' @ resp_Message (filled reply)) c)))"

definition ping_basic_client :: "client_api \<Rightarrow> ('sv, 'm) invoke \<Rightarrow> 'sv cli \<Rightarrow> 'sv run" where
  "ping_basic_client C I c = ping_client C I ''hello'' c"

definition otel_client :: "client_api \<Rightarrow> ('sv, 'm) invoke \<Rightarrow> 'sv cli \<Rightarrow> 'sv run" where
  "otel_client C I c =
     (let (status, c) = ping_client C I ''hello from otel-demo'' c
      in if status = 0 then (0, say ''(trace output appears above via stdout exporter)'' (say [] c)) else (status, c))"

section \<open>Calls that are never made\<close>

text \<open>
  What gRPC's client does with a request its codec refuses: the call fails with \<open>Internal\<close>,
  no message follows, and nothing of the server's runs.  What \<open>status.FromError\<close> makes of a status error.
\<close>

definition marshals_first :: "'m codec_api \<Rightarrow> ('sv, 'm) invoke \<Rightarrow> bool" where
  "marshals_first K I \<longleftrightarrow>
     (\<forall>ctx method args reply sv. isl (pingCodec_Marshal K args) \<longrightarrow>
        (\<exists>t. I ctx method args reply sv = ((Some (StatusError Internal t), reply), sv)))"

definition reads_statuses :: "client_api \<Rightarrow> bool" where
  "reads_statuses C \<longleftrightarrow>
     err_FromError C None = (\<lparr>st_code = OK, st_msg = []\<rparr>, True) \<and>
     (\<forall>c m. c \<noteq> OK \<longrightarrow> err_FromError C (Some (StatusError c m)) = (\<lparr>st_code = c, st_msg = m\<rparr>, True))"

lemma refused:
  assumes "marshals_first K I" "isl (pingCodec_Marshal K args)"
  obtains t where "conn_Invoke I ctx method args reply c = ((Some (StatusError Internal t), reply), c)"
proof -
  obtain t where "I ctx method args reply (server_side c) = ((Some (StatusError Internal t), reply), server_side c)"
    using assms unfolding marshals_first_def by metis
  then show thesis by (intro that [of t]) (simp add: conn_Invoke_def)
qed

lemma example_messages_refused:
  "isl (pingCodec_Marshal K main_msg)" "isl (pingCodec_Marshal K main_echoMsg)" "isl (pingCodec_Marshal K any_pointer)"
  by (simp_all add: pingCodec_Marshal_def main_msg_def main_echoMsg_def any_pointer_def)

lemma say_frame [simp]:
  "server_side (say s c) = server_side c" "cli_err (say s c) = cli_err c" "cli_out (say s c) = cli_out c @ [s @ newline]"
  "server_side (complain s c) = server_side c" "cli_err (complain s c) = cli_err c @ [s @ newline]"
  "cli_out (complain s c) = cli_out c"
  by (simp_all add: say_def complain_def)

lemma rapid_calls_refused:
  assumes "marshals_first K I" "reads_statuses C"
  shows "\<exists>c'. rapid_calls C I is a r c = (a, r, c') \<and> server_side c' = server_side c \<and> cli_err c' = cli_err c \<and>
    cli_out c' = cli_out c @
      map (\<lambda>i. ''  request '' @ itoa (i + 1) @ '': unexpected code '' @ code_name C Internal @ newline) is"
proof (induction "is" arbitrary: c)
  case (Cons i "is")
  obtain t where t: "conn_Invoke I Background ''/demo.PingService/Ping'' main_msg main_msg c =
      ((Some (StatusError Internal t), main_msg), c)"
    by (rule refused [OF assms(1) example_messages_refused(1)])
  from Cons [of "say (''  request '' @ itoa (i + 1) @ '': unexpected code '' @ code_name C Internal) c"] assms(2)
  show ?case by (auto simp: t reads_statuses_def)
qed simp

lemma echo_calls_refused:
  assumes "marshals_first K I" "reads_statuses C"
  shows "\<exists>c'. echo_calls C I m is c = c' \<and> server_side c' = server_side c \<and> cli_err c' = cli_err c \<and>
    cli_out c' = cli_out c @
      map (\<lambda>i. ''  request '' @ itoa (i + 1) @ '': unexpected code '' @ code_name C Internal @ newline) is"
proof (induction "is" arbitrary: c)
  case (Cons i "is")
  obtain t where t: "conn_Invoke I Background m main_echoMsg main_echoMsg c = ((Some (StatusError Internal t), main_echoMsg), c)"
    by (rule refused [OF assms(1) example_messages_refused(2)])
  from Cons [of "say (''  request '' @ itoa (i + 1) @ '': unexpected code '' @ code_name C Internal) c"] assms(2)
  show ?case by (auto simp: t reads_statuses_def)
qed simp

lemma fake_peer_refused: "marshals_first K I \<Longrightarrow> marshals_first K (fakePeerInterceptor addr I)"
  by (simp add: marshals_first_def fakePeerInterceptor_def)

lemma auth_clients_refused:
  assumes "marshals_first K I" "reads_statuses C"
  shows "\<exists>d. auth_client C I c = (1, d) \<and> server_side d = server_side c \<and>
      cli_err d = cli_err c @ [''expected Unauthenticated, got '' @ code_name C Internal @ newline]"
    and "\<exists>d. auth_demo_client C I c = (1, d) \<and> server_side d = server_side c \<and>
      cli_err d = cli_err c @ [''expected Unauthenticated, got '' @ code_name C Internal @ newline]"
proof -
  have inv: "\<exists>t. conn_Invoke I Background m main_msg main_msg d = ((Some (StatusError Internal t), main_msg), d)" for m d
    using refused [OF assms(1) example_messages_refused(1)] by metis
  obtain t1 where "conn_Invoke I Background ''/example.Greeter/Hello'' main_msg main_msg (say ''--- call without token ---'' c) =
      ((Some (StatusError Internal t1), main_msg), say ''--- call without token ---'' c)"
    using inv by blast
  then show "\<exists>d. auth_client C I c = (1, d) \<and> server_side d = server_side c \<and>
      cli_err d = cli_err c @ [''expected Unauthenticated, got '' @ code_name C Internal @ newline]"
    using assms(2) by (simp add: auth_client_def reads_statuses_def)
  obtain t2 where "conn_Invoke I Background ''/demo.AuthService/Ping'' main_msg main_msg (say (bar @ '' call without token '' @ bar) c) =
      ((Some (StatusError Internal t2), main_msg), say (bar @ '' call without token '' @ bar) c)"
    using inv by blast
  then show "\<exists>d. auth_demo_client C I c = (1, d) \<and> server_side d = server_side c \<and>
      cli_err d = cli_err c @ [''expected Unauthenticated, got '' @ code_name C Internal @ newline]"
    using assms(2) by (simp add: auth_demo_client_def reads_statuses_def)
qed

lemma ratelimit_demo_refused:
  assumes "marshals_first K I" "reads_statuses C"
  shows "\<exists>d. ratelimit_demo_client C I c = (1, d) \<and> server_side d = server_side c \<and>
      cli_err d = cli_err c @ [''expected at least one request to be rate-limited'' @ newline]"
  using rapid_calls_refused [OF assms, of "[0..5]" 0 0 "say (bar @ '' sending 6 rapid requests (limit: 2 req/s, burst 2) '' @ bar) c"]
  by (auto simp: ratelimit_demo_client_def simp del: rapid_calls.simps)

lemma blocked_call_refused:
  assumes "marshals_first K I" "reads_statuses C"
  shows "server_side (blocked_call C I c) = server_side c \<and> cli_err (blocked_call C I c) = cli_err c"
proof -
  obtain t where t: "conn_Invoke (fakePeerInterceptor ''10.0.0.50:9999'' I) Background ''/example.EchoService/Light''
      main_echoMsg main_echoMsg c = ((Some (StatusError Internal t), main_echoMsg), c)"
    by (rule refused [OF fake_peer_refused [OF assms(1)] example_messages_refused(2)])
  then show ?thesis by (simp add: blocked_call_def Let_def)
qed

lemma echo_methods_refused:
  assumes "marshals_first K I" "reads_statuses C"
  shows "server_side (echo_methods C I c) = server_side c \<and> cli_err (echo_methods C I c) = cli_err c \<and>
    (\<forall>i \<in> {0..3}. ''  request '' @ itoa (i + 1) @ '': unexpected code '' @ code_name C Internal @ newline
       \<in> set (cli_out (echo_methods C I c)))"
  using echo_calls_refused [OF assms] unfolding echo_methods_def Let_def by (auto simp del: echo_calls.simps)

lemma ratelimit_refused:
  assumes "marshals_first K I" "reads_statuses C"
  shows "\<exists>d. ratelimit_client C I c = (0, d) \<and> server_side d = server_side c \<and>
      (\<forall>i \<in> {0..3}. ''  request '' @ itoa (i + 1) @ '': unexpected code '' @ code_name C Internal @ newline \<in> set (cli_out d))"
  using blocked_call_refused [OF assms] echo_methods_refused [OF assms]
  by (simp add: ratelimit_client_def)

lemma basic_refused:
  assumes "marshals_first K I" "reads_statuses C"
  shows "basic_client C I c = (0, say (code_name C Internal) c)"
proof -
  obtain t where "conn_Invoke I Background ''/example.PanicService/Boom'' any_pointer any_pointer c =
      ((Some (StatusError Internal t), any_pointer), c)"
    by (rule refused [OF assms(1) example_messages_refused(3)])
  then show ?thesis using assms(2) by (simp add: basic_client_def reads_statuses_def)
qed

text \<open>
  no call of the examples that use messages of their own is ever made: their messages are
  neither ping messages nor messages of the protobuf module, the codec refuses them, and the
  call fails with \<open>Internal\<close> before the server is asked.  So the two authentication examples
  and the rate limit demo exit with a failure, the larger rate limit example prints nothing
  but unexpected codes, and the basic example prints the \<open>Internal\<close> it waits for although
  nothing has panicked and nothing was recovered.
\<close>

theorem examples_never_call:
  assumes "marshals_first K I" "reads_statuses C" and "c = \<lparr>server_side = sv, cli_out = [], cli_err = []\<rparr>"
  shows "(\<exists>d. auth_client C I c = (1, d) \<and> server_side d = sv \<and>
      cli_err d = [''expected Unauthenticated, got '' @ code_name C Internal @ newline]) \<and>
    (\<exists>d. auth_demo_client C I c = (1, d) \<and> server_side d = sv \<and>
      cli_err d = [''expected Unauthenticated, got '' @ code_name C Internal @ newline]) \<and>
    (\<exists>d. ratelimit_demo_client C I c = (1, d) \<and> server_side d = sv \<and>
      cli_err d = [''expected at least one request to be rate-limited'' @ newline]) \<and>
    (\<exists>d. ratelimit_client C I c = (0, d) \<and> server_side d = sv \<and>
      (\<forall>i \<in> {0..3}. ''  request '' @ itoa (i + 1) @ '': unexpected code '' @ code_name C Internal @ newline \<in> set (cli_out d))) \<and>
    basic_client C I c = (0, \<lparr>server_side = sv, cli_out = [code_name C Internal @ newline], cli_err = []\<rparr>)"
  using auth_clients_refused [OF assms(1,2), of c] ratelimit_demo_refused [OF assms(1,2), of c]
    ratelimit_refused [OF assms(1,2), of c] basic_refused [OF assms(1,2), of c]
  unfolding assms(3) by (simp add: say_def)

section \<open>The servers of the examples\<close>

lemma recovery_chain:
  assumes "NewServer (map (option_of A T E) [OptRecovery]) w = (Return s, w')"
    and "UnaryInterceptor u \<in> set (gs_options (grpcServer s))"
  shows "u ctx req info h = RecoveryUnary ctx req info (\<lambda>c r. RequestIDUnary c r info h)"
  using installed(1) [OF assms, of ctx req info h] by (simp add: unary_spec_def onion_def)

text \<open>
  recovery covers what runs behind the interceptors and nothing else: a handler that panics
  is answered with \<open>Internal\<close>, but the method handler of the basic example panics itself,
  before it calls the interceptor, and that panic leaves it whatever is installed.
\<close>

theorem recovery_covers_handlers_only:
  assumes "basic_main A T E w = (Return s, w')" "UnaryInterceptor u \<in> set (gs_options (Server_GRPC s))"
  shows "fst (call_method m (\<lambda>_ _. go_panic p) ctx (Inr ()) (Some u) v) =
      Return (None, Some (StatusError Internal ''internal server error'')) \<and>
    Boom ctx dec (Some u) v = (Panic ''intentional panic for demo'', v)"
  by (simp add: call_method_def recovery_chain [OF assms(1) [unfolded basic_main_def] assms(2) [unfolded Server_GRPC_def]]
      RecoveryUnary_def RequestIDUnary_eq errInternal_def go_unfold Boom_def)

text \<open>The reference of the rate limit demo: one bucket, asked at the time of each request.\<close>

primrec one_bucket :: "'lim rate_api \<Rightarrow> 'lim \<Rightarrow> int list \<Rightarrow> bool list" where
  "one_bucket R b [] = []"
| "one_bucket R b (now # ts) = (let (allowed, b') = rate_Allow R now b in allowed # one_bucket R b' ts)"

primrec rapid_run where
  "rapid_run u ctx [] v = []"
| "rapid_run u ctx (now # ts) v =
     (let (answer, v') = rapid_Ping ctx (Inr ()) (Some u) (v\<lparr>clock := now\<rparr>) in answer # rapid_run u ctx ts v')"

lemma rapid_chain:
  assumes "ratelimit_demo_main A T E w = (Return s, w')" "UnaryInterceptor u \<in> set (gs_options (Server_GRPC s))"
  shows "u ctx req info h = RecoveryUnary ctx req info
      (\<lambda>c r. rate_limit_unary (api_rate E) (length (rl_states w)) c r info (\<lambda>c r. RequestIDUnary c r info h))"
    and "w' = w\<lparr>limiters := limiters w @ [rate_NewLimiter (api_rate E) (Fin 2) 2],
      rl_states := rl_states w @ (let s = \<lparr>rl_global = length (limiters w), rl_resolver = None, rl_groups = Map.empty\<rparr> in [s, s])\<rparr>"
  using installed(1) [OF assms(1) [unfolded ratelimit_demo_main_def] assms(2) [unfolded Server_GRPC_def], of ctx req info h]
    server_settings(2) [OF assms(1) [unfolded ratelimit_demo_main_def]]
  by (simp_all add: unary_spec_def onion_def zero_config_def Let_def)

definition bucket_is :: "nat \<Rightarrow> 'lim \<Rightarrow> ('lim, 'x) rl_world_scheme \<Rightarrow> bool" where
  "bucket_is st b v \<longleftrightarrow> st < length (rl_states v) \<and> rl_resolver (rl_states v ! st) = None \<and>
     rl_global (rl_states v ! st) < length (limiters v) \<and> limiters v ! rl_global (rl_states v ! st) = b"

lemma ensureRequestID_limiters:
  "limiters (snd (ensureRequestID ctx v)) = limiters v" "rl_states (snd (ensureRequestID ctx v)) = rl_states v"
  for v :: "('lim, 'x) rl_world_scheme"
  by (simp_all add: ensureRequestID_def newRequestID_def rand_Read_def split_beta)

lemma rapid_request:
  assumes u: "\<And>ctx req info h. u ctx req info h = RecoveryUnary ctx req info
      (\<lambda>c r. rate_limit_unary R st c r info (\<lambda>c r. RequestIDUnary c r info h))" and "bucket_is st b v" "clock v = now"
  shows "\<exists>v'. rapid_Ping ctx (Inr ()) (Some u) v =
      (Return (if fst (rate_Allow R now b) then (Some (), None) else (None, Some errRateLimited)), v') \<and>
    bucket_is st (snd (rate_Allow R now b)) v'"
  using assms(2,3)
  by (auto simp: rapid_Ping_def call_method_def u RecoveryUnary_def rate_limit_unary_def limiterFor_def Limiter_Allow_def
      RequestIDUnary_eq bucket_is_def ensureRequestID_limiters go_unfold split_beta)

text \<open>
  the rate limit demo's server: its requests are answered, in order, as one bucket of two
  tokens per second with a burst of two says at their times, once they are decoded.
\<close>

theorem ratelimit_demo_answers:
  assumes "ratelimit_demo_main A T E w = (Return s, w')" "UnaryInterceptor u \<in> set (gs_options (Server_GRPC s))"
  shows "rapid_run u ctx ts w' =
    map (\<lambda>allowed. Return (if allowed then (Some (), None)
                           else (None, Some (StatusError ResourceExhausted ''rate limit exceeded''))))
      (one_bucket (api_rate E) (rate_NewLimiter (api_rate E) (Fin 2) 2) ts)"
proof -
  note u = rapid_chain(1) [OF assms]
  have "rapid_run u ctx ts v = map (\<lambda>allowed. Return (if allowed then (Some (), None) else (None, Some errRateLimited)))
      (one_bucket (api_rate E) b ts)" if "bucket_is (length (rl_states w)) b v" for b v
    using that
  proof (induction ts arbitrary: b v)
    case (Cons now ts)
    have "bucket_is (length (rl_states w)) b (v\<lparr>clock := now\<rparr>)" using Cons.prems by (simp add: bucket_is_def)
    from rapid_request [OF u this, of now ctx] Cons.IH show ?case by (auto simp: split_beta Let_def)
  qed simp
  moreover have "bucket_is (length (rl_states w)) (rate_NewLimiter (api_rate E) (Fin 2) 2) w'"
    unfolding rapid_chain(2) [OF assms] by (simp add: bucket_is_def Let_def)
  ultimately show ?thesis by (simp add: errRateLimited_def)
qed

section \<open>Pings\<close>

text \<open>
  What the server makes of a call to the ping method, when it returns: the method handler
  with the installed interceptor, between the codec's two directions.  \<open>sctx\<close> is the context
  the server gets, \<open>status\<close> what gRPC makes of a decoding error.  A connection carries pings
  when \<open>Invoke\<close> gives what the server made of the call.
\<close>

definition served ::
    "'m codec_api \<Rightarrow> (gerror \<Rightarrow> gerror) \<Rightarrow> ('w, 'b) ping_impl \<Rightarrow> ('w, 'b, ping_any, PingResponse) unary_interceptor
       \<Rightarrow> 'b gctx \<Rightarrow> 'm wire_msg \<Rightarrow> 'm wire_msg \<Rightarrow> 'w \<Rightarrow> ((gerror option \<times> 'm wire_msg) \<times> 'w) option" where
  "served K status srv u sctx args reply v =
     (case pingCodec_Marshal K args of
        Inl _ \<Rightarrow> None
      | Inr data \<Rightarrow>
          (case pingHandler srv sctx (codec_decoder K status data) (Some u) v of
             (Return (r, None), v') \<Rightarrow>
               (case pingCodec_Marshal K (WirePingResponse r) of
                  Inl _ \<Rightarrow> None
                | Inr b \<Rightarrow> Some (pingCodec_Unmarshal K b reply, v'))
           | (Return (_, Some e), v') \<Rightarrow> Some ((Some e, reply), v')
           | (Panic _, _) \<Rightarrow> None))"

definition carries_pings where
  "carries_pings K status srv u sctx I \<longleftrightarrow>
     (\<forall>ctx args reply v r. served K status srv u (sctx ctx) args reply v = Some r \<longrightarrow>
        I ctx ''/rawr.Ping/Ping'' args reply v = r)"

lemma echo_served:
  assumes run: "\<And>req h r v''. h ctx' req v' = (Return (r, None), v'') \<Longrightarrow>
      \<exists>x. u (sctx Background) req ping_full_method h v = (Return (r, None), x)"
    and "carries_pings K status srv u sctx I" "implements srv (method_of DefaultHandler)"
    and "ping v' = ping v" "in_i64 (unix_now (ping v))" "valid_utf8 greeting" "server_side c = v"
  shows "\<exists>d. ping_client C I greeting c = (0, d) \<and> cli_err d = cli_err c \<and>
    cli_out d = cli_out c @ [''Message:        '' @ greeting @ newline, ''ServerTimeUnix: '' @ itoa (unix_now (ping v)) @ newline]"
proof -
  let ?req = "\<lparr>req_Message = greeting\<rparr>" and ?r = "\<lparr>resp_Message = greeting, ServerTimeUnix = unix_now (ping v)\<rparr>"
  have "srv ctx' ?req v' = (Return (Some ?r, None), v')"
    using assms(3,4) by (simp add: implements_def in_server_def defaultHandler_Ping_def)
  then obtain x where "pingHandler srv (sctx Background) (codec_decoder K status (json_PingRequest (Some ?req))) (Some u) v =
      (Return (Some ?r, None), x)"
    using run [of "\<lambda>ctx r. case r of AnyPing req \<Rightarrow> srv ctx req | AnyOther _ \<Rightarrow> go_panic ''interface conversion''" "AnyPing ?req"]
      codec_decoder_request [of K ?req "json_PingRequest (Some ?req)" status] to_valid_id [OF assms(6)]
    by (auto simp: pingHandler_def pingCodec_Marshal_def)
  then have "served K status srv u (sctx Background) (WirePingRequest (Some ?req)) (WirePingResponse (Some new_PingResponse)) v =
      Some ((None, WirePingResponse (Some ?r)), x)"
    using decode_PingResponse [of ?r new_PingResponse] assms(5) to_valid_id [OF assms(6)]
    by (simp add: served_def pingCodec_Marshal_def pingCodec_Unmarshal_def json_Unmarshal_def)
  then have "I Background ''/rawr.Ping/Ping'' (WirePingRequest (Some ?req)) (WirePingResponse (Some new_PingResponse)) v =
      ((None, WirePingResponse (Some ?r)), x)"
    using assms(2) unfolding carries_pings_def by blast
  then show ?thesis using assms(7) by (simp add: ping_client_def conn_Invoke_def filled_def say_def)
qed

lemma tracing_recovery_chain:
  assumes "NewServer (map (option_of A T E) [OptRecovery, OptTracing tc]) w = (Return s, w')"
    and "UnaryInterceptor u \<in> set (gs_options (grpcServer s))"
  shows "u ctx req info h =
    TracingUnary A T (Some tc) ctx req info (\<lambda>c r. RecoveryUnary c r info (\<lambda>c r. RequestIDUnary c r info h))"
  using installed(1) [OF assms, of ctx req info h] by (simp add: unary_spec_def onion_def)

lemma go_bind_register:
  assumes "go_bind m (\<lambda>srv. go_return (RegisterPing seeded now (Some h) srv)) w = (Return s, w')"
  obtains s0 where "m w = (Return s0, w')" "gs_options (Server_GRPC s) = gs_options (grpcServer s0)"
    "gs_services (Server_GRPC s) = gs_services (grpcServer s0) @ [(''rawr.Ping'', h)]"
  using assms by (auto simp: go_bind_Return go_return_def RegisterPing_def Register_def Server_GRPC_def Let_def)

lemma ping_basic_prints:
  assumes "ping_basic_main A T E seeded now w = (Return s, w')" "UnaryInterceptor u \<in> set (gs_options (Server_GRPC s))"
    and "carries_pings K status srv u sctx I" "implements srv (method_of DefaultHandler)"
    and "c = \<lparr>server_side = v, cli_out = [], cli_err = []\<rparr>" "in_i64 (unix_now (ping v))"
  shows "gs_services (Server_GRPC s) = [(''rawr.Ping'', DefaultHandler)]"
    and "\<exists>d. ping_basic_client C I c = (0, d) \<and> cli_err d = [] \<and> cli_out d =
      [''Message:        hello'' @ newline, ''ServerTimeUnix: '' @ itoa (unix_now (ping v)) @ newline]"
proof -
  obtain s0 where s0: "NewServer (map (option_of A T E) [OptRecovery]) w = (Return s0, w')"
    "gs_options (Server_GRPC s) = gs_options (grpcServer s0)"
    "gs_services (Server_GRPC s) = gs_services (grpcServer s0) @ [(''rawr.Ping'', DefaultHandler)]"
    by (rule go_bind_register [OF assms(1) [unfolded ping_basic_main_def]])
  show "gs_services (Server_GRPC s) = [(''rawr.Ping'', DefaultHandler)]" by (simp add: s0(3) server_grpc(2) [OF s0(1)])
  note u = recovery_chain [OF s0(1) assms(2) [unfolded s0(2)]]
  let ?i = "ensureRequestID (sctx Background) v"
  have "\<exists>d. ping_client C I ''hello'' c = (0, d) \<and> cli_err d = cli_err c \<and>
      cli_out d = cli_out c @ [''Message:        '' @ ''hello'' @ newline, ''ServerTimeUnix: '' @ itoa (unix_now (ping v)) @ newline]"
    by (rule echo_served [OF _ assms(3,4) _ assms(6) _ , of "fst ?i" "snd ?i"])
       (simp_all add: u RecoveryUnary_def RequestIDUnary_eq go_unfold ensureRequestID_ping assms(5))
  then show "\<exists>d. ping_basic_client C I c = (0, d) \<and> cli_err d = [] \<and> cli_out d =
      [''Message:        hello'' @ newline, ''ServerTimeUnix: '' @ itoa (unix_now (ping v)) @ newline]"
    by (auto simp: ping_basic_client_def assms(5))
qed

lemma otel_prints:
  assumes "otel_main A T E tp seeded now w = (Return s, w')" "UnaryInterceptor u \<in> set (gs_options (Server_GRPC s))"
    and tracer: "\<And>tp n ctx m v. ping (snd (Tracer_Start T tp n ctx m v)) = ping v"
      "\<And>sp a v. ping (SetAttributes T sp a v) = ping v"
    and "carries_pings K status srv u sctx I" "implements srv (method_of DefaultHandler)"
    and "c = \<lparr>server_side = v, cli_out = [], cli_err = []\<rparr>" "in_i64 (unix_now (ping v))"
  shows "gs_services (Server_GRPC s) = [(''rawr.Ping'', DefaultHandler)]"
    and "\<exists>d. otel_client C I c = (0, d) \<and> cli_err d = [] \<and> cli_out d =
      [''Message:        hello from otel-demo'' @ newline, ''ServerTimeUnix: '' @ itoa (unix_now (ping v)) @ newline,
       newline, ''(trace output appears above via stdout exporter)'' @ newline]"
proof -
  obtain s0 where s0: "NewServer (map (option_of A T E) [OptRecovery, OptTracing \<lparr>TracerProvider = Some tp, Propagators = None\<rparr>]) w =
      (Return s0, w')"
    "gs_options (Server_GRPC s) = gs_options (grpcServer s0)"
    "gs_services (Server_GRPC s) = gs_services (grpcServer s0) @ [(''rawr.Ping'', DefaultHandler)]"
    by (rule go_bind_register [OF assms(1) [unfolded otel_main_def]])
  show "gs_services (Server_GRPC s) = [(''rawr.Ping'', DefaultHandler)]" by (simp add: s0(3) server_grpc(2) [OF s0(1)])
  note i = tracing_recovery_chain [OF s0(1) assms(2) [unfolded s0(2)]]
  let ?c1 = "extract_ctx A T (sctx Background) \<lparr>TracerProvider = Some tp, Propagators = None\<rparr> v"
  obtain ctx2 sp v1 where st: "tracer_Start T \<lparr>TracerProvider = Some tp, Propagators = None\<rparr> ?c1 ping_full_method v = ((ctx2, sp), v1)"
    by (metis prod.exhaust)
  let ?j = "ensureRequestID ctx2 (SetAttributes T sp (rpc_attributes ping_full_method) v1)"
  have "ping v1 = ping v" using st tracer(1) by (metis snd_conv tracer_Start_def)
  then have "\<exists>d. ping_client C I ''hello from otel-demo'' c = (0, d) \<and> cli_err d = cli_err c \<and>
      cli_out d = cli_out c @ [''Message:        '' @ ''hello from otel-demo'' @ newline,
        ''ServerTimeUnix: '' @ itoa (unix_now (ping v)) @ newline]"
    by (intro echo_served [OF _ assms(5,6) _ assms(8), of "fst ?j" "snd ?j"])
       (auto simp: i TracingUnary_eq st RecoveryUnary_def RequestIDUnary_eq go_unfold ensureRequestID_ping tracer(2) assms(7))
  then show "\<exists>d. otel_client C I c = (0, d) \<and> cli_err d = [] \<and> cli_out d =
      [''Message:        hello from otel-demo'' @ newline, ''ServerTimeUnix: '' @ itoa (unix_now (ping v)) @ newline,
       newline, ''(trace output appears above via stdout exporter)'' @ newline]"
    by (auto simp: otel_client_def assms(7))
qed

text \<open>
  the two programs that ping, from the options to the printed text: both servers register the
  echo handler, and over a connection that carries pings both clients print their own
  greeting and the server's time and exit with zero, whether the call is traced or not.
\<close>

theorem ping_examples_print:
  assumes "ping_basic_main A T E seeded now w = (Return s, w')" "UnaryInterceptor u \<in> set (gs_options (Server_GRPC s))"
    and "otel_main A T E tp seeded now x = (Return t, x')" "UnaryInterceptor i \<in> set (gs_options (Server_GRPC t))"
    and tracer: "\<And>tp n ctx m v. ping (snd (Tracer_Start T tp n ctx m v)) = ping v"
      "\<And>sp a v. ping (SetAttributes T sp a v) = ping v"
    and "carries_pings K status srv u sctx I" "carries_pings K status srv i sctx J"
    and "implements srv (method_of DefaultHandler)"
    and "c = \<lparr>server_side = v, cli_out = [], cli_err = []\<rparr>" "in_i64 (unix_now (ping v))"
  shows "gs_services (Server_GRPC s) = [(''rawr.Ping'', DefaultHandler)] \<and>
    gs_services (Server_GRPC t) = [(''rawr.Ping'', DefaultHandler)] \<and>
    (\<exists>d. ping_basic_client C I c = (0, d) \<and> cli_err d = [] \<and> cli_out d =
      [''Message:        hello'' @ newline, ''ServerTimeUnix: '' @ itoa (unix_now (ping v)) @ newline]) \<and>
    (\<exists>d. otel_client C J c = (0, d) \<and> cli_err d = [] \<and> cli_out d =
      [''Message:        hello from otel-demo'' @ newline, ''ServerTimeUnix: '' @ itoa (unix_now (ping v)) @ newline,
       newline, ''(trace output appears above via stdout exporter)'' @ newline])"
  using ping_basic_prints(1) [OF assms(1,2,7,9-11)] ping_basic_prints(2) [OF assms(1,2,7,9-11), of C]
    otel_prints(1) [OF assms(3,4) tracer assms(8-11)] otel_prints(2) [OF assms(3,4) tracer assms(8-11), of C]
  by simp

section \<open>Concrete programs\<close>

definition printing_client :: client_api where
  "printing_client = \<lparr>err_FromError = demo_from_error, code_name = (\<lambda>c. if c = Internal then ''Internal'' else ''other''),
     err_text = (\<lambda>_. ''error''), strconv_Quote = id\<rparr>"

text \<open>A connection to nothing, which encodes before it fails.\<close>

definition demo_dead :: "(nat, nat) invoke" where
  "demo_dead ctx m args reply sv =
     (case pingCodec_Marshal demo_codec args of
        Inl _ \<Rightarrow> ((Some (StatusError Internal ''encode''), reply), sv)
      | Inr _ \<Rightarrow> ((Some (StatusError Unavailable ''dial''), reply), sv))"

theorem examples_never_call_witness:
  "basic_client printing_client demo_dead \<lparr>server_side = 0, cli_out = [], cli_err = []\<rparr> =
     (0, \<lparr>server_side = 0, cli_out = [''Internal'' @ newline], cli_err = []\<rparr>) \<and>
   fst (ratelimit_demo_client printing_client demo_dead \<lparr>server_side = 0, cli_out = [], cli_err = []\<rparr>) = 1"
proof -
  have "marshals_first demo_codec demo_dead"
    by (auto simp: marshals_first_def demo_dead_def split: sum.splits)
  moreover have "reads_statuses printing_client"
    by (simp add: reads_statuses_def printing_client_def)
  moreover have n: "code_name printing_client Internal = ''Internal''" by (simp add: printing_client_def)
  ultimately show ?thesis
    using examples_never_call [of demo_codec demo_dead printing_client, OF _ _ refl, where sv = 0, unfolded n]
    by (metis fst_conv)
qed

theorem recovery_covers_handlers_only_witness:
  "\<forall>T. \<exists>s w' u. basic_main demo_api (T :: demo_out_otel) demo_E demo_out = (Return (s :: demo_out_server), w') \<and>
     UnaryInterceptor u \<in> set (gs_options (Server_GRPC s)) \<and>
     fst (call_method ''/m'' (\<lambda>_ _. go_panic ''p'') (BaseCtx (None, None)) (Inr ()) (Some u) demo_out) =
       Return (None, Some (StatusError Internal ''internal server error''))"
proof
  fix T :: demo_out_otel
  obtain s w' u where s: "demo_out_new T [OptRecovery] = (Return s, w')"
    and u: "UnaryInterceptor u \<in> set (gs_options (Server_GRPC s))"
    by (rule demo_out_server [of "[OptRecovery]" T]) auto
  note m = s [unfolded demo_out_new_def, folded basic_main_def]
  from recovery_covers_handlers_only [OF m u] m u
  show "\<exists>s w' u. basic_main demo_api T demo_E demo_out = (Return (s :: demo_out_server), w') \<and>
     UnaryInterceptor u \<in> set (gs_options (Server_GRPC s)) \<and>
     fst (call_method ''/m'' (\<lambda>_ _. go_panic ''p'') (BaseCtx (None, None)) (Inr ()) (Some u) demo_out) =
       Return (None, Some (StatusError Internal ''internal server error''))"
    by blast
qed

theorem ratelimit_demo_answers_witness:
  "\<forall>T. \<exists>s w' u. ratelimit_demo_main demo_api (T :: demo_out_otel) demo_E demo_out = (Return (s :: demo_out_server), w') \<and>
     UnaryInterceptor u \<in> set (gs_options (Server_GRPC s)) \<and>
     rapid_run u (BaseCtx (None, None)) [0, 0, 0] w' =
       [Return (Some (), None), Return (Some (), None),
        Return (None, Some (StatusError ResourceExhausted ''rate limit exceeded''))]"
proof
  fix T :: demo_out_otel
  obtain s w' u where s: "demo_out_new T [OptRecovery, OptRateLimit (Fin 2) 2] = (Return s, w')"
    and u: "UnaryInterceptor u \<in> set (gs_options (Server_GRPC s))"
    by (rule demo_out_server [of "[OptRecovery, OptRateLimit (Fin 2) 2]" T]) auto
  note m = s [unfolded demo_out_new_def, folded ratelimit_demo_main_def]
  have "one_bucket (api_rate demo_E) (rate_NewLimiter (api_rate demo_E) (Fin 2) 2) [0, 0, 0] = [True, True, False]"
    by (simp add: demo_E_def demo_rate_def)
  with ratelimit_demo_answers [OF m u, of "BaseCtx (None, None)" "[0, 0, 0]"] m u
  show "\<exists>s w' u. ratelimit_demo_main demo_api T demo_E demo_out = (Return (s :: demo_out_server), w') \<and>
     UnaryInterceptor u \<in> set (gs_options (Server_GRPC s)) \<and>
     rapid_run u (BaseCtx (None, None)) [0, 0, 0] w' =
       [Return (Some (), None), Return (Some (), None),
        Return (None, Some (StatusError ResourceExhausted ''rate limit exceeded''))]"
    by auto
qed

definition silent_otel :: "(demo_ping_world, demo_base, demo_md, unit, unit, nat) otel_api" where
  "silent_otel = \<lparr>GetTracerProvider = (\<lambda>_. ()), GetTextMapPropagator = (\<lambda>_. ()),
     Tracer_Start = (\<lambda>_ _ ctx _ w. ((ctx, 0), w)), Extract = (\<lambda>_ ctx _. ctx), SetAttributes = (\<lambda>_ _ w. w),
     RecordError = (\<lambda>_ _ w. w), SetStatus = (\<lambda>_ _ _ w. w), span_End = (\<lambda>_ w. w), code_String = (\<lambda>_. []),
     MD_Keys = map fst, MD_Set = (\<lambda>md k v. (k, [v]) # md), MD_empty = []\<rparr>"

definition demo_carrier where
  "demo_carrier srv u ctx m args reply v =
     (case served demo_codec id srv u (BaseCtx (None, None)) args reply v of
        Some r \<Rightarrow> r | None \<Rightarrow> ((Some (StatusError Unavailable []), reply), v))"

lemma demo_carrier_carries: "carries_pings demo_codec id srv u (\<lambda>_. BaseCtx (None, None)) (demo_carrier srv u)"
  by (simp add: carries_pings_def demo_carrier_def)

lemma demo_ping_server:
  assumes "list_all (opt_ok demo_E) opts" "OptRecovery \<in> set opts"
  obtains s w' u where "demo_ping_new T opts = (Return s, w')" "UnaryInterceptor u \<in> set (gs_options (grpcServer s))"
proof -
  obtain s where s: "demo_ping_new T opts = (Return s, opts_world demo_E demo_ping_start opts zero_config)"
    unfolding demo_ping_new_def by (rule server_returns [OF assms(1)])
  have "\<exists>u. UnaryInterceptor u \<in> set (gs_options (grpcServer s))"
    using spec_nonempty(1) [OF assms(2), of demo_api T demo_E "length (rl_states demo_ping_start)"]
    unfolding server_grpc(1) [OF s [unfolded demo_ping_new_def]] BuildServerOptions_onion by auto
  then show thesis using that s by blast
qed

lemma register_new:
  assumes "m w = (Return s, w')" "UnaryInterceptor u \<in> set (gs_options (grpcServer s))"
  shows "\<exists>s'. go_bind m (\<lambda>srv. go_return (RegisterPing seeded now (Some h) srv)) w = (Return s', w') \<and>
    UnaryInterceptor u \<in> set (gs_options (Server_GRPC s'))"
  using assms by (simp add: go_bind_def go_return_def RegisterPing_def Register_def Server_GRPC_def Let_def)

theorem ping_examples_print_witness:
  "\<exists>s w' u. ping_basic_main demo_api silent_otel demo_E (\<lambda>_ _. 0) 0 demo_ping_start = (Return (s :: demo_ping_server), w') \<and>
     UnaryInterceptor u \<in> set (gs_options (Server_GRPC s)) \<and>
     (\<exists>d. ping_basic_client printing_client (demo_carrier (\<lambda>ctx req w. the (method_of DefaultHandler ctx req w)) u)
        \<lparr>server_side = demo_ping_start, cli_out = [], cli_err = []\<rparr> = (0, d) \<and>
      cli_out d = [''Message:        hello'' @ newline, ''ServerTimeUnix: '' @ itoa 7 @ newline])"
proof -
  let ?srv = "\<lambda>ctx req w. the (method_of DefaultHandler ctx req w)"
  let ?tc = "\<lparr>TracerProvider = Some (), Propagators = None\<rparr>"
  obtain s0 w' u where s0: "demo_ping_new silent_otel [OptRecovery] = (Return s0, w')"
    "UnaryInterceptor u \<in> set (gs_options (grpcServer s0))"
    by (rule demo_ping_server [of "[OptRecovery]" silent_otel]) auto
  obtain t0 x' i where t0: "demo_ping_new silent_otel [OptRecovery, OptTracing ?tc] = (Return t0, x')"
    "UnaryInterceptor i \<in> set (gs_options (grpcServer t0))"
    by (rule demo_ping_server [of "[OptRecovery, OptTracing ?tc]" silent_otel]) auto
  obtain s :: demo_ping_server where s: "ping_basic_main demo_api silent_otel demo_E (\<lambda>_ _. 0) 0 demo_ping_start = (Return s, w')"
    "UnaryInterceptor u \<in> set (gs_options (Server_GRPC s))"
    using register_new [where m = "NewServer (map (option_of demo_api silent_otel demo_E) [OptRecovery])", OF s0 [unfolded demo_ping_new_def]]
    unfolding ping_basic_main_def by blast
  obtain t :: demo_ping_server where t: "otel_main demo_api silent_otel demo_E () (\<lambda>_ _. 0) 0 demo_ping_start = (Return t, x')"
    "UnaryInterceptor i \<in> set (gs_options (Server_GRPC t))"
    using register_new [where m = "NewServer (map (option_of demo_api silent_otel demo_E) [OptRecovery, OptTracing ?tc])",
        OF t0 [unfolded demo_ping_new_def]]
    unfolding otel_main_def by blast
  have impl: "implements ?srv (method_of DefaultHandler)" by (simp add: implements_def)
  have now: "unix_now (ping demo_ping_start) = 7" by (simp add: demo_ping_start_def)
  note printed = ping_examples_print [OF s t _ _ demo_carrier_carries demo_carrier_carries impl refl, where v = demo_ping_start,
      unfolded now]
  have "\<exists>d. ping_basic_client printing_client (demo_carrier ?srv u) \<lparr>server_side = demo_ping_start, cli_out = [], cli_err = []\<rparr> = (0, d) \<and>
      cli_err d = [] \<and> cli_out d = [''Message:        hello'' @ newline, ''ServerTimeUnix: '' @ itoa 7 @ newline]"
    by (rule printed [THEN conjunct2, THEN conjunct2, THEN conjunct1]) (simp_all add: silent_otel_def in_i64_def)
  with s show ?thesis by blast
qed

end
