(* ===== verification/Cache_Demo.thy ===== *)
theory Cache_Demo
  imports Clients
begin

text \<open>
  The cache examples (examples/cache, examples/cache-demo): a server with an L1 cache, or with
  L1 and Redis, whose cache is asked twice for the same key with a slow loader.
\<close>

section \<open>The cache of a server\<close>

text \<open>
  The world of the two programs: the cache the server was given, what has been printed, and
  how often the loader has run.
\<close>

record ('rc, 'rd) cache_demo_world = "('rc, 'rd) tiered_world" +
  shown :: "string list"
  complaints :: "string list"
  loader_runs :: nat

text \<open>
  A cache just made, over the objects the server's options created.  An L1 cache alone has no
  second layer to speak of.
\<close>

definition open_cache ::
    "('lim, 'rc, 'rd, 'x) server_world_scheme \<Rightarrow> cache_ref \<Rightarrow> int \<Rightarrow> ('rc, 'rd) cache_demo_world" where
  "open_cache w ref now =
     \<lparr>heap = (\<lambda>_. []), next_addr = 0, cnow = now,
      rc = (case ref of CacheL1 i \<Rightarrow> l1_objs w ! i | CacheTiered i _ \<Rightarrow> l1_objs w ! i),
      loads = Map.empty, calls = [],
      rd = (case ref of CacheL1 _ \<Rightarrow> undefined | CacheTiered _ j \<Rightarrow> l2_objs w ! j),
      shown = [], complaints = [], loader_runs = 0\<rparr>"

text \<open>The calls through the interface \<open>cache.Cache\<close>.\<close>

definition Cache_Get where
  "Cache_Get E ref key w =
     (case ref of
        CacheL1 _ \<Rightarrow> L1_Get (api_rist E) key w
      | CacheTiered _ _ \<Rightarrow> Tiered_Get (api_rist E) (api_redis E) key w)"

definition Cache_Set where
  "Cache_Set E ref key val ttl w =
     (case ref of
        CacheL1 _ \<Rightarrow> L1_Set (api_rist E) key val ttl w
      | CacheTiered _ _ \<Rightarrow> Tiered_Set (api_rist E) (api_redis E) key val ttl w)"

definition Cache_GetOrSet where
  "Cache_GetOrSet E ref key ttl loader w =
     (case ref of
        CacheL1 _ \<Rightarrow> L1_GetOrSet (api_rist E) key ttl loader w
      | CacheTiered _ _ \<Rightarrow> Tiered_GetOrSet (api_rist E) (api_redis E) key ttl loader w)"

section \<open>The programs\<close>

definition print where
  "print s w = w\<lparr>shown := shown w @ [s @ newline]\<rparr>"

definition bytes_of :: "string \<Rightarrow> bytes" where
  "bytes_of s = map (\<lambda>c. word_of_nat (of_char c)) s"

definition text_of :: "('rc, 'x) cache_world_scheme \<Rightarrow> slice \<Rightarrow> string" where
  "text_of w s = map (\<lambda>b. char_of (unat b)) (contents w s)"

text \<open>The loader: it may print a line, sleeps for 50 milliseconds and returns a text.\<close>

definition slow_loader ::
    "string list \<Rightarrow> string \<Rightarrow> (('rc, 'rd, 'x) cache_demo_world_scheme, slice \<times> gerror option) go" where
  "slow_loader lines result w =
     (let (v, w1) = alloc (bytes_of result) (w\<lparr>shown := shown w @ lines, loader_runs := loader_runs w + 1,
            cnow := cnow w + 50000000\<rparr>)
      in (Return (v, None), w1))"

text \<open>A call between two readings of the clock; \<open>lag\<close> is the time it takes beside the sleep.\<close>

definition timed_GetOrSet where
  "timed_GetOrSet E ref key loader lag w =
     map_option (\<lambda>(out, w1). (out, cnow w1 + lag - cnow w, w1\<lparr>cnow := cnow w1 + lag\<rparr>))
       (Cache_GetOrSet E ref key 10000000000 loader w)"

definition failed where
  "failed msg w = (Return 1, w\<lparr>complaints := complaints w @ [msg @ newline]\<rparr>)"

text \<open>
  Both programs: a first and a second call, each with its error, and the comparison of the
  times they took.  A program reports results and success in its own words.  \<open>None\<close> is a call
  that never returns.
\<close>

record wording =
  w_key :: string
  w_lines :: "string list"
  w_result :: string
  w_before :: "string list"
  w_between :: "string list"
  w_first :: "string \<Rightarrow> string \<Rightarrow> string"
  w_second :: "string \<Rightarrow> string \<Rightarrow> string"
  w_slow :: string
  w_success :: "string list"

definition two_calls where
  "two_calls W dur_text err_str E ref lag1 lag2 w =
     (let loader = slow_loader (w_lines W) (w_result W);
          say_all = (\<lambda>ls w. foldl (\<lambda>w s. print s w) w ls)
      in case timed_GetOrSet E ref (w_key W) loader lag1 (say_all (w_before W) w) of
           None \<Rightarrow> None
         | Some (Panic p, _, w1) \<Rightarrow> Some (Panic p, w1)
         | Some (Return (_, Some err), _, w1) \<Rightarrow> Some (failed (''first call error: '' @ err_str err) w1)
         | Some (Return (val, None), firstDur, w1) \<Rightarrow>
             (case timed_GetOrSet E ref (w_key W) loader lag2
                     (say_all (w_between W) (print (w_first W (text_of w1 val) (dur_text firstDur)) w1)) of
                None \<Rightarrow> None
              | Some (Panic p, _, w2) \<Rightarrow> Some (Panic p, w2)
              | Some (Return (_, Some err), _, w2) \<Rightarrow> Some (failed (''second call error: '' @ err_str err) w2)
              | Some (Return (val, None), secondDur, w2) \<Rightarrow>
                  (let w2 = print (w_second W (text_of w2 val) (dur_text secondDur)) w2
                   in if secondDur \<ge> firstDur then Some (failed (w_slow W) w2)
                      else Some (Return (0 :: int), say_all (w_success W) w2))))"

definition ellipsis :: string where
  "ellipsis = [CHR 0xE2, CHR 0x80, CHR 0xA6]"

definition cache_demo_main where
  "cache_demo_main A T E = NewServer (map (option_of A T E) [OptRecovery, OptCacheL1 1000])"

definition cache_demo_words :: wording where
  "cache_demo_words =
     \<lparr>w_key = ''demo-key'',
      w_lines = [''  '' @ arrow @ '' loader: computing value (sleeping 50 ms)'' @ ellipsis @ newline],
      w_result = ''expensive-result'',
      w_before = [bar @ '' first call (cache miss) '' @ bar],
      w_between = [[], bar @ '' second call (cache hit) '' @ bar],
      w_first = (\<lambda>val dur. ''  result: '' @ val @ ''  (took '' @ dur @ '')''),
      w_second = (\<lambda>val dur. ''  result: '' @ val @ ''  (took '' @ dur @ '')''),
      w_slow = ''expected second call to be faster than the first'',
      w_success = [[], tick @ '' cache-demo complete '' @ dash @ '' second call served from L1 cache, no loader invoked'']\<rparr>"

text \<open>The program exits when the server has no cache.\<close>

definition cache_demo_client where
  "cache_demo_client dur_text err_str E c lag1 lag2 w =
     (case c of
        None \<Rightarrow> Some (failed (''cache is nil '' @ dash @ '' WithCacheL1 did not initialise the cache'') w)
      | Some ref \<Rightarrow> two_calls cache_demo_words dur_text err_str E ref lag1 lag2 w)"

text \<open>\<open>addr\<close> is the environment's \<open>REDIS_ADDR\<close>.\<close>

definition cache_main where
  "cache_main A T E addr = NewServer (map (option_of A T E)
     ([OptRecovery, OptCacheL1 1000] @ (if addr \<noteq> [] then [OptCacheRedis addr [] 0] else [])))"

definition cache_words :: wording where
  "cache_words =
     \<lparr>w_key = ''demo'', w_lines = [], w_result = ''computed-result'', w_before = [], w_between = [],
      w_first = (\<lambda>val dur. ''first  call: '' @ val @ ''  ('' @ dur @ '')''),
      w_second = (\<lambda>val dur. ''second call: '' @ val @ ''  ('' @ dur @ '')''),
      w_slow = ''expected second call to be faster'',
      w_success = [tick @ '' second call was faster (served from cache)'']\<rparr>"

definition cache_client where
  "cache_client dur_text err_str E c lag1 lag2 w =
     (case c of
        None \<Rightarrow> Some (Panic ''nil pointer dereference'', w)
      | Some ref \<Rightarrow> two_calls cache_words dur_text err_str E ref lag1 lag2 w)"

section \<open>The two calls\<close>

text \<open>What the first call leaves: the text in the result and, under the key, in ristretto.\<close>

definition loaded where
  "loaded R key lines s w w1 a \<longleftrightarrow>
     contents w1 (Some a) = bytes_of s \<and> cnow w1 = cnow w + 50000000 \<and>
     (\<exists>v. contents w1 v = bytes_of s \<and>
        (\<exists>r. rc w1 = rist_Wait R (rist_SetWithTTL R (cnow w + 50000000) key v 1 10000000000 r))) \<and>
     loader_runs w1 = loader_runs w + 1 \<and> shown w1 = shown w @ lines \<and> complaints w1 = complaints w"

lemmas flight_defs = sf_run_def sf_enter_def slow_loader_def alloc_def Let_def sf_loaded_def L1_Set_def clone_def
  sf_signal_def sf_delete_def sf_result_def

lemma L1_first:
  assumes "fst (rist_Get R (cnow w) key (rc w)) = None" "loads w key = None"
  shows "\<exists>w1 a. L1_GetOrSet R key 10000000000 (slow_loader lines s) w = Some (Return (Some a, None), w1) \<and>
    loaded R key lines s w w1 a"
  using assms
  by (auto simp: L1_GetOrSet_def L1_miss L1_store_def flight_defs loaded_def contents_def
      intro!: exI [of _ "Some (Suc (next_addr w))"])

lemma L2_miss:
  "(\<And>b. fst (redis_Get D (cnow w) key (rd w)) \<noteq> RedisValue b) \<Longrightarrow>
   L2_Get D key w = ((None, False, None), w\<lparr>rd := snd (redis_Get D (cnow w) key (rd w))\<rparr>)"
  by (simp add: L2_Get_def Let_def split_beta split: redis_reply.split)

lemma Tiered_first:
  assumes "fst (rist_Get R (cnow w) key (rc w)) = None" "loads w key = None"
    and "\<And>b. fst (redis_Get D (cnow w) key (rd w)) \<noteq> RedisValue b"
  shows "\<exists>w1 a. Tiered_GetOrSet R D key 10000000000 (slow_loader lines s) w = Some (Return (Some a, None), w1) \<and>
    loaded R key lines s w w1 a"
proof -
  let ?w1 = "w\<lparr>rc := snd (rist_Get R (cnow w) key (rc w))\<rparr>"
  let ?w2 = "?w1\<lparr>rd := snd (redis_Get D (cnow w) key (rd w))\<rparr>"
  have "Tiered_lookup R D key 10000000000 w = (None, ?w2)"
    using L2_miss [of D ?w1 key] assms(3) by (simp add: Tiered_lookup_def L1_miss [OF assms(1)])
  then show ?thesis
    using assms(2)
    by (auto simp: Tiered_GetOrSet_def Tiered_store_def L2_Set_def split_beta flight_defs loaded_def contents_def
        intro!: exI [of _ "Some (Suc (next_addr w))"])
qed

lemma second_hits:
  assumes "fst (rist_Get (api_rist E) (cnow w) key (rc w)) = Some v" "contents w v = b"
  shows "\<exists>w1 u. Cache_GetOrSet E ref key ttl loader w = Some (Return (u, None), w1) \<and> contents w1 u = b \<and>
    cnow w1 = cnow w \<and> loader_runs w1 = loader_runs w \<and> shown w1 = shown w \<and> complaints w1 = complaints w"
  using assms
  by (auto simp: Cache_GetOrSet_def L1_GetOrSet_def Tiered_GetOrSet_def Tiered_lookup_def L1_Get_def Let_def split_beta
      clone_def alloc_def contents_def split: cache_ref.split option.split)

lemma text_of_bytes: "contents w v = bytes_of s \<Longrightarrow> text_of w v = s"
  by (simp add: text_of_def bytes_of_def o_def unsigned_of_nat take_bit_eq_mod)

lemma say_all_eq: "foldl (\<lambda>w s. print s w) w ls = w\<lparr>shown := shown w @ map (\<lambda>s. s @ newline) ls\<rparr>"
  by (induction ls arbitrary: w) (simp_all add: print_def)

lemma first_misses:
  assumes "fst (rist_Get (api_rist E) (cnow w) key (rc w)) = None" "loads w key = None"
    and "\<And>i j b. ref = CacheTiered i j \<Longrightarrow> fst (redis_Get (api_redis E) (cnow w) key (rd w)) \<noteq> RedisValue b"
  shows "\<exists>w1 a. Cache_GetOrSet E ref key 10000000000 (slow_loader lines s) w = Some (Return (Some a, None), w1) \<and>
    loaded (api_rist E) key lines s w w1 a"
  using L1_first [OF assms(1,2)] Tiered_first [OF assms(1,2)] assms(3)
  by (cases ref) (simp_all add: Cache_GetOrSet_def)

text \<open>What ristretto does with a value it does not evict.\<close>

definition keeps :: "'rc rist_api \<Rightarrow> int \<Rightarrow> bool" where
  "keeps R ttl \<longleftrightarrow> (\<forall>now now' key v r. now' < now + ttl \<longrightarrow>
     fst (rist_Get R now' key (rist_Wait R (rist_SetWithTTL R now key v 1 ttl r))) = Some v)"

text \<open>Through the interface, what is set is read back from either cache.\<close>

lemma interface_reads_back:
  fixes w :: "('rc, 'rd, 'x) tiered_world_scheme"
  assumes "keeps (api_rist E) ttl" "0 < ttl" "contents w val = b"
  shows "\<exists>v' w'. Cache_Get E ref key (snd (Cache_Set E ref key val ttl w)) = ((v', True, None), w') \<and> contents w' v' = b"
proof -
  have l1: "\<exists>v' w'. L1_Get (api_rist E) key (snd (L1_Set (api_rist E) key val ttl x)) = ((v', True, None), w') \<and>
      contents w' v' = contents x val" for x :: "('rc, 'rd, 'x) tiered_world_scheme"
  proof -
    obtain v y where c: "clone val x = (v, y)" by (cases "clone val x")
    let ?s = "y\<lparr>rc := rist_Wait (api_rist E) (rist_SetWithTTL (api_rist E) (cnow y) key v 1 ttl (rc y))\<rparr>"
    have "fst (rist_Get (api_rist E) (cnow ?s) key (rc ?s)) = Some v"
      using assms(1,2) by (simp add: keeps_def)
    moreover have "contents ?s v = contents x val" using clone_contents [OF c] by (simp add: contents_def split: option.splits)
    ultimately show ?thesis using L1_hit by (fastforce simp: L1_Set_def c)
  qed
  show ?thesis
  proof (cases ref)
    case (CacheL1 i)
    then show ?thesis using l1 [of w] assms(3) by (simp add: Cache_Get_def Cache_Set_def)
  next
    case (CacheTiered i j)
    have "contents (snd (L2_Set (api_redis E) key val ttl w)) val = b"
      using assms(3) by (simp add: L2_Set_def split_beta contents_def split: option.splits)
    then show ?thesis
      using CacheTiered l1 [of "snd (L2_Set (api_redis E) key val ttl w)"]
      by (auto simp: Cache_Get_def Cache_Set_def Tiered_Set_def Tiered_Get_def)
  qed
qed

lemma two_calls_hit:
  assumes "fst (rist_Get (api_rist E) (cnow w) (w_key W) (rc w)) = None" "loads w (w_key W) = None"
    and "\<And>i j b. ref = CacheTiered i j \<Longrightarrow> fst (redis_Get (api_redis E) (cnow w) (w_key W) (rd w)) \<noteq> RedisValue b"
    and "keeps (api_rist E) 10000000000" "lag1 < 10000000000"
  shows "\<exists>v. two_calls W dur_text err_str E ref lag1 lag2 w = Some (Return (if lag2 < 50000000 + lag1 then 0 else 1), v) \<and>
    loader_runs v = loader_runs w + 1 \<and>
    w_first W (w_result W) (dur_text (50000000 + lag1)) @ newline \<in> set (shown v) \<and>
    w_second W (w_result W) (dur_text lag2) @ newline \<in> set (shown v)"
proof -
  let ?loader = "slow_loader (w_lines W) (w_result W)"
  let ?w = "w\<lparr>shown := shown w @ map (\<lambda>s. s @ newline) (w_before W)\<rparr>"
  obtain w1 a where first: "Cache_GetOrSet E ref (w_key W) 10000000000 ?loader ?w = Some (Return (Some a, None), w1)"
    and l: "loaded (api_rist E) (w_key W) (w_lines W) (w_result W) ?w w1 a"
    using first_misses [of E ?w "w_key W" ref "w_lines W" "w_result W"] assms(1-3) by auto
  let ?w1 = "w1\<lparr>cnow := cnow w1 + lag1\<rparr>"
  let ?line = "w_first W (w_result W) (dur_text (50000000 + lag1)) @ newline"
  let ?w2 = "?w1\<lparr>shown := (shown w1 @ [?line]) @ map (\<lambda>s. s @ newline) (w_between W)\<rparr>"
  have t1: "timed_GetOrSet E ref (w_key W) ?loader lag1 ?w = Some (Return (Some a, None), 50000000 + lag1, ?w1)"
    using first l by (simp add: timed_GetOrSet_def loaded_def)
  have text1: "text_of ?w1 (Some a) = w_result W"
    by (rule text_of_bytes) (use l in \<open>simp add: loaded_def contents_def\<close>)
  obtain v r where vr: "contents w1 v = bytes_of (w_result W)" "cnow w1 = cnow w + 50000000"
    "rc w1 = rist_Wait (api_rist E) (rist_SetWithTTL (api_rist E) (cnow w + 50000000) (w_key W) v 1 10000000000 r)"
    using l by (auto simp: loaded_def)
  have v: "contents ?w2 v = bytes_of (w_result W)" "fst (rist_Get (api_rist E) (cnow ?w2) (w_key W) (rc ?w2)) = Some v"
    using vr assms(4,5) by (auto simp: keeps_def contents_def split: option.splits)
  obtain w3 u where second: "Cache_GetOrSet E ref (w_key W) 10000000000 ?loader ?w2 = Some (Return (u, None), w3)"
    and w3: "contents w3 u = bytes_of (w_result W)" "cnow w3 = cnow ?w2" "loader_runs w3 = loader_runs ?w2" "shown w3 = shown ?w2"
    using second_hits [OF v(2,1)] by blast
  let ?w3 = "w3\<lparr>cnow := cnow w3 + lag2\<rparr>"
  have t2: "timed_GetOrSet E ref (w_key W) ?loader lag2 ?w2 = Some (Return (u, None), lag2, ?w3)"
    using second w3(2) by (simp add: timed_GetOrSet_def)
  have text2: "text_of ?w3 u = w_result W"
    by (rule text_of_bytes) (use w3(1) in \<open>simp add: contents_def split: option.splits\<close>)
  have runs: "loader_runs w1 = loader_runs w + 1" using l by (simp add: loaded_def)
  let ?p = "print (w_first W (text_of ?w1 (Some a)) (dur_text (50000000 + lag1))) ?w1"
  have w2: "?p\<lparr>shown := shown ?p @ map (\<lambda>s. s @ newline) (w_between W)\<rparr> = ?w2"
    unfolding text1 by (simp add: print_def)
  show ?thesis
    unfolding two_calls_def Let_def say_all_eq t1 option.case prod.case outcome.case w2 t2 text2
    using w3(3,4) runs by (simp add: failed_def print_def)
qed

lemma no_runs: "loader_runs (open_cache v c now) = 0" "loads (open_cache v c now) = Map.empty" "cnow (open_cache v c now) = now"
  by (simp_all add: open_cache_def)

lemma words:
  "w_key cache_words = ''demo''"
  "w_first cache_demo_words (w_result cache_demo_words) d @ newline = ''  result: expensive-result  (took '' @ d @ '')'' @ newline"
  "w_second cache_demo_words (w_result cache_demo_words) d @ newline = ''  result: expensive-result  (took '' @ d @ '')'' @ newline"
  "w_first cache_words (w_result cache_words) d @ newline = ''first  call: computed-result  ('' @ d @ '')'' @ newline"
  "w_second cache_words (w_result cache_words) d @ newline = ''second call: computed-result  ('' @ d @ '')'' @ newline"
  by (simp_all add: cache_demo_words_def cache_words_def)

text \<open>The caches of the two servers.\<close>

lemma cache_demo_server:
  assumes "cache_demo_main A T E w = (Return s, w')"
  obtains r where "NewL1 (api_rist E) 1000 = Inr r" "Server_Cache s = Some (CacheL1 (length (l1_objs w)))"
    "rc (open_cache w' (CacheL1 (length (l1_objs w))) now) = r"
proof -
  note s = server_settings [OF assms [unfolded cache_demo_main_def]]
  have "\<not> isl (NewL1 (api_rist E) 1000)" using s(1) by (auto split: sum.splits)
  then obtain r where r: "NewL1 (api_rist E) 1000 = Inr r" by (cases "NewL1 (api_rist E) 1000") auto
  show thesis
    by (rule that [OF r]) (unfold Server_Cache_def s(2,3), simp_all add: zero_config_def open_cache_def r)
qed

definition cache_for where
  "cache_for addr w = (if addr \<noteq> [] then CacheTiered (length (l1_objs w)) (length (l2_objs w)) else CacheL1 (length (l1_objs w)))"

lemma cache_server:
  assumes "cache_main A T E addr w = (Return s, w')"
  obtains r where "NewL1 (api_rist E) 1000 = Inr r" "Server_Cache s = Some (cache_for addr w)"
    "rc (open_cache w' (cache_for addr w) now) = r"
    "addr = [] \<or> rd (open_cache w' (cache_for addr w) now) = NewL2 (api_redis E) addr [] 0"
proof -
  note s = server_settings [OF assms [unfolded cache_main_def]]
  have "\<not> isl (NewL1 (api_rist E) 1000)" using s(1) by (auto split: sum.splits)
  then obtain r where r: "NewL1 (api_rist E) 1000 = Inr r" by (cases "NewL1 (api_rist E) 1000") auto
  show thesis
    by (rule that [OF r]) (unfold Server_Cache_def s(2,3), simp_all add: zero_config_def open_cache_def r cache_for_def)
qed

section \<open>Property\<close>

text \<open>
  C22: the cache examples, from the options to the exit status: the server has the cache the
  options ask for, in \<open>cache\<close> with Redis behind it when an address is set; on a cache that does
  not have the key and a ristretto that does not evict, the loader runs once, both calls print
  its text, and the program exits with zero exactly when the second call takes less time than
  the first.
\<close>

theorem cache_examples_load_once:
  assumes "cache_demo_main A T E w = (Return s, w')" "cache_main A T E addr x = (Return t, x')"
    and fresh: "\<And>r now key. NewL1 (api_rist E) 1000 = Inr r \<Longrightarrow> fst (rist_Get (api_rist E) now key r) = None"
    and "keeps (api_rist E) 10000000000" "lag1 < 10000000000"
    and redis: "\<And>b. fst (redis_Get (api_redis E) now ''demo'' (NewL2 (api_redis E) addr [] 0)) \<noteq> RedisValue b"
  shows "(\<exists>c v. Server_Cache s = Some c \<and>
      cache_demo_client dur_text err_str E (Some c) lag1 lag2 (open_cache w' c now) =
        Some (Return (if lag2 < 50000000 + lag1 then 0 else 1), v) \<and> loader_runs v = 1 \<and>
      ''  result: expensive-result  (took '' @ dur_text (50000000 + lag1) @ '')'' @ newline \<in> set (shown v) \<and>
      ''  result: expensive-result  (took '' @ dur_text lag2 @ '')'' @ newline \<in> set (shown v)) \<and>
    (\<exists>c v. Server_Cache t = Some c \<and> (addr \<noteq> [] \<longleftrightarrow> (\<exists>i j. c = CacheTiered i j)) \<and>
      cache_client dur_text err_str E (Some c) lag1 lag2 (open_cache x' c now) =
        Some (Return (if lag2 < 50000000 + lag1 then 0 else 1), v) \<and> loader_runs v = 1 \<and>
      ''first  call: computed-result  ('' @ dur_text (50000000 + lag1) @ '')'' @ newline \<in> set (shown v) \<and>
      ''second call: computed-result  ('' @ dur_text lag2 @ '')'' @ newline \<in> set (shown v))"
proof
  obtain r where r: "NewL1 (api_rist E) 1000 = Inr r" "Server_Cache s = Some (CacheL1 (length (l1_objs w)))"
    "rc (open_cache w' (CacheL1 (length (l1_objs w))) now) = r"
    by (rule cache_demo_server [where now = now, OF assms(1)])
  have miss: "fst (rist_Get (api_rist E) n k (rc (open_cache w' (CacheL1 (length (l1_objs w))) now))) = None" for n k
    unfolding r(3) by (rule fresh [OF r(1)])
  show "\<exists>c v. Server_Cache s = Some c \<and>
      cache_demo_client dur_text err_str E (Some c) lag1 lag2 (open_cache w' c now) =
        Some (Return (if lag2 < 50000000 + lag1 then 0 else 1), v) \<and> loader_runs v = 1 \<and>
      ''  result: expensive-result  (took '' @ dur_text (50000000 + lag1) @ '')'' @ newline \<in> set (shown v) \<and>
      ''  result: expensive-result  (took '' @ dur_text lag2 @ '')'' @ newline \<in> set (shown v)"
    using miss two_calls_hit [OF _ _ _ assms(4,5), of "open_cache w' (CacheL1 (length (l1_objs w))) now" cache_demo_words
        "CacheL1 (length (l1_objs w))" dur_text err_str lag2]
    by (intro exI [of _ "CacheL1 (length (l1_objs w))"]) (simp add: r(2) cache_demo_client_def no_runs words)
  obtain q where q: "NewL1 (api_rist E) 1000 = Inr q" "Server_Cache t = Some (cache_for addr x)"
    "rc (open_cache x' (cache_for addr x) now) = q"
    "addr = [] \<or> rd (open_cache x' (cache_for addr x) now) = NewL2 (api_redis E) addr [] 0"
    by (rule cache_server [where now = now, OF assms(2)])
  have "fst (rist_Get (api_rist E) n k (rc (open_cache x' (cache_for addr x) now))) = None" for n k
    unfolding q(3) by (rule fresh [OF q(1)])
  moreover have "cache_for addr x = CacheTiered i j \<Longrightarrow>
      fst (redis_Get (api_redis E) now ''demo'' (rd (open_cache x' (cache_for addr x) now))) \<noteq> RedisValue b" for i j b
    using q(4) redis by (cases "addr = []") (auto simp: cache_for_def)
  ultimately show "\<exists>c v. Server_Cache t = Some c \<and> (addr \<noteq> [] \<longleftrightarrow> (\<exists>i j. c = CacheTiered i j)) \<and>
      cache_client dur_text err_str E (Some c) lag1 lag2 (open_cache x' c now) =
        Some (Return (if lag2 < 50000000 + lag1 then 0 else 1), v) \<and> loader_runs v = 1 \<and>
      ''first  call: computed-result  ('' @ dur_text (50000000 + lag1) @ '')'' @ newline \<in> set (shown v) \<and>
      ''second call: computed-result  ('' @ dur_text lag2 @ '')'' @ newline \<in> set (shown v)"
    using two_calls_hit [OF _ _ _ assms(4,5), of "open_cache x' (cache_for addr x) now" cache_words "cache_for addr x"
        dur_text err_str lag2]
    by (intro exI [of _ "cache_for addr x"]) (simp add: q(2) cache_client_def no_runs words, simp add: cache_for_def)
qed

section \<open>A concrete run\<close>

theorem cache_examples_load_once_witness:
  "\<forall>T. \<exists>t x' c v. cache_main demo_api (T :: demo_otel_api) demo_E ''localhost:6379'' demo_sw = (Return (t :: demo_server), x') \<and>
     Server_Cache t = Some c \<and>
     cache_client (\<lambda>_. ''some time'') (\<lambda>_. []) demo_E (Some c) 0 0 (open_cache x' c 0) = Some (Return 0, v) \<and>
     loader_runs v = 1 \<and> ''first  call: computed-result  (some time)'' @ newline \<in> set (shown v)"
proof
  fix T :: demo_otel_api
  obtain s w' where s: "demo_new T [OptRecovery, OptCacheL1 1000] = (Return s, w')"
    using demo_new_returns [of "[OptRecovery, OptCacheL1 1000]" T] by (auto simp: NewL1_def demo_E_def demo_rist_def)
  obtain t x' where t: "demo_new T [OptRecovery, OptCacheL1 1000, OptCacheRedis ''localhost:6379'' [] 0] = (Return t, x')"
    using demo_new_returns [of "[OptRecovery, OptCacheL1 1000, OptCacheRedis ''localhost:6379'' [] 0]" T]
    by (auto simp: NewL1_def demo_E_def demo_rist_def)
  have m: "cache_demo_main demo_api T demo_E demo_sw = (Return s, w')"
    "cache_main demo_api T demo_E ''localhost:6379'' demo_sw = (Return t, x')"
    using s t by (simp_all add: cache_demo_main_def cache_main_def demo_new_def)
  have k: "keeps (api_rist demo_E) 10000000000" by (simp add: keeps_def demo_E_def demo_rist_def)
  have "\<exists>c v. Server_Cache t = Some c \<and> (''localhost:6379'' \<noteq> [] \<longleftrightarrow> (\<exists>i j. c = CacheTiered i j)) \<and>
      cache_client (\<lambda>_. ''some time'') (\<lambda>_. []) demo_E (Some c) 0 0 (open_cache x' c 0) =
        Some (Return (if 0 < 50000000 + (0 :: int) then 0 else 1), v) \<and> loader_runs v = 1 \<and>
      ''first  call: computed-result  ('' @ ''some time'' @ '')'' @ newline \<in> set (shown v) \<and>
      ''second call: computed-result  ('' @ ''some time'' @ '')'' @ newline \<in> set (shown v)"
    by (rule cache_examples_load_once [OF m _ k, THEN conjunct2])
       (auto simp: demo_E_def demo_rist_def demo_redis_def NewL1_def NewL2_def split: if_splits)
  with m(2) show "\<exists>t x' c v. cache_main demo_api T demo_E ''localhost:6379'' demo_sw = (Return (t :: demo_server), x') \<and>
     Server_Cache t = Some c \<and>
     cache_client (\<lambda>_. ''some time'') (\<lambda>_. []) demo_E (Some c) 0 0 (open_cache x' c 0) = Some (Return 0, v) \<and>
     loader_runs v = 1 \<and> ''first  call: computed-result  (some time)'' @ newline \<in> set (shown v)"
    by auto
qed

end
