(* ===== verification/Retry.thy ===== *)
theory Retry
  imports Grpc Float64
begin

text \<open>
  Package retry: the delay between attempts (retry/backoff.go), computed in IEEE doubles, and
  the retry loop (retry/retry.go).

  The world holds what the loop takes from its surroundings: a clock, the moment the context
  is done and its error then, the numbers \<open>math/rand\<close> will return and the choices
  \<open>select\<close> makes when both of its channels are ready.
\<close>

section \<open>Configuration and world\<close>

record RetryConfig =
  MaxAttempts :: int
  BaseDelay :: int
  MaxDelay :: int
  Jitter :: f64
  RetryCodes :: "code list"

record retry_world =
  rnow :: int
  done_at :: "(int \<times> gerror) option"
  float_src :: "nat \<Rightarrow> rat"
  floats_drawn :: nat
  select_src :: "nat \<Rightarrow> bool"
  selects :: nat

text \<open>\<open>rand.Float64\<close>, and the wait for a timer or the end of the context.\<close>

definition rand_Float64 :: "'x retry_world_scheme \<Rightarrow> f64 \<times> 'x retry_world_scheme" where
  "rand_Float64 w = (Fin (float_src w (floats_drawn w)), w\<lparr>floats_drawn := floats_drawn w + 1\<rparr>)"

definition select_wait :: "int \<Rightarrow> 'x retry_world_scheme \<Rightarrow> gerror option \<times> 'x retry_world_scheme" where
  "select_wait delay w =
     (let fire = rnow w + max 0 delay
      in case done_at w of
           None \<Rightarrow> (None, w\<lparr>rnow := fire\<rparr>)
         | Some (t, e) \<Rightarrow>
             (let d = max (rnow w) t
              in if d < fire then (Some e, w\<lparr>rnow := d\<rparr>)
                 else if fire < d then (None, w\<lparr>rnow := fire\<rparr>)
                 else (if select_src w (selects w) then Some e else None,
                       w\<lparr>rnow := fire, selects := selects w + 1\<rparr>)))"

section \<open>The delay\<close>

text \<open>
  The arithmetic of \<open>backoff\<close> on a given random number; \<open>oob\<close> is the platform's conversion
  of a double outside the range of \<open>int64\<close>.
\<close>

definition backoff_delay :: "(f64 \<Rightarrow> int) \<Rightarrow> RetryConfig \<Rightarrow> int \<Rightarrow> f64 \<Rightarrow> int" where
  "backoff_delay oob c attempt r =
     (let delay = f64_mul (f64_of_int (BaseDelay c)) (f64_pow2 attempt);
          mx = f64_of_int (MaxDelay c);
          delay = (if f64_less mx delay then mx else delay);
          delay = (if f64_less (Fin 0) (Jitter c)
                   then f64_add delay (f64_mul (f64_mul delay (Jitter c)) (f64_sub (f64_mul r (Fin 2)) (Fin 1)))
                   else delay);
          delay = (if f64_less delay (Fin 0) then Fin 0 else delay)
      in f64_to_i64 oob delay)"

definition backoff ::
    "(f64 \<Rightarrow> int) \<Rightarrow> RetryConfig \<Rightarrow> int \<Rightarrow> 'x retry_world_scheme \<Rightarrow> int \<times> 'x retry_world_scheme" where
  "backoff oob c attempt w =
     (if f64_less (Fin 0) (Jitter c)
      then (let (r, w') = rand_Float64 w in (backoff_delay oob c attempt r, w'))
      else (backoff_delay oob c attempt NaN, w))"

section \<open>The loop\<close>

definition retryable :: "('b, 'md) grpc_api \<Rightarrow> RetryConfig \<Rightarrow> gerror \<Rightarrow> bool" where
  "retryable A c e = (let (st, ok) = status_FromError A (Some e) in ok \<and> st_code st \<in> set (RetryCodes c))"

text \<open>
  The iterations from \<open>i\<close> on, \<open>k\<close> of them left; the last line is the return after the loop.
\<close>

fun retry_loop ::
    "('b, 'md) grpc_api \<Rightarrow> (f64 \<Rightarrow> int) \<Rightarrow> 'a \<Rightarrow> RetryConfig \<Rightarrow> int
       \<Rightarrow> ('x retry_world_scheme, 'a \<times> gerror option) go \<Rightarrow> nat \<Rightarrow> int
       \<Rightarrow> ('x retry_world_scheme, 'a \<times> gerror option) go" where
  "retry_loop A oob zero c attempts fn (Suc k) i =
     go_bind fn (\<lambda>(result, err).
       case err of
         None \<Rightarrow> go_return (result, None)
       | Some e \<Rightarrow>
           if i = attempts - 1 then go_return (zero, Some e)
           else if \<not> retryable A c e then go_return (zero, Some e)
           else (\<lambda>w. let (delay, w1) = backoff oob c i w;
                         (ended, w2) = select_wait delay w1
                     in case ended of
                          Some e' \<Rightarrow> (Return (zero, Some e'), w2)
                        | None \<Rightarrow> retry_loop A oob zero c attempts fn k (i + 1) w2))"
| "retry_loop A oob zero c attempts fn 0 i = go_return (zero, None)"

text \<open>\<open>Do(ctx, cfg, fn)\<close> calls \<open>fn\<close> with one context throughout.\<close>

definition Do ::
    "('b, 'md) grpc_api \<Rightarrow> (f64 \<Rightarrow> int) \<Rightarrow> 'a \<Rightarrow> 'c \<Rightarrow> RetryConfig
       \<Rightarrow> ('c \<Rightarrow> ('x retry_world_scheme, 'a \<times> gerror option) go)
       \<Rightarrow> ('x retry_world_scheme, 'a \<times> gerror option) go" where
  "Do A oob zero ctx c fn =
     (let attempts = max (MaxAttempts c) 1
      in retry_loop A oob zero c attempts (fn ctx) (nat attempts) 0)"

section \<open>Doubles in the delay\<close>

lemma f64_pow2_small: "0 \<le> i \<Longrightarrow> i < 1024 \<Longrightarrow> f64_pow2 i = Fin (pow2 i)"
proof -
  assume i: "0 \<le> i" "i < 1024"
  have "is_double (1 * pow2 i)" using i by (intro is_double_scale is_double_int [of 1, simplified])
  moreover have "pow2 i < f64_max_bound"
    using pow2_less_iff [of i 1024] i by (simp add: f64_max_bound_def pow2_def [of 1024])
  ultimately show ?thesis using f64_round_double [of "pow2 i"] i by (simp add: f64_pow2_def less_imp_le)
qed

lemma small_double_bound: "m < 2 ^ 53 \<Longrightarrow> (of_int m :: rat) < f64_max_bound"
proof -
  assume "m < 2 ^ 53"
  then have "m < 2 ^ 1024" by (rule less_trans) (rule power_strict_increasing; simp)
  then have "(of_int m :: rat) < of_int (2 ^ 1024)" by (simp only: of_int_less_iff)
  then show ?thesis by (simp add: f64_max_bound_def)
qed

text \<open>The capped exponential, exact in doubles below \<open>2^53\<close> nanoseconds (104 days).\<close>

definition capped :: "RetryConfig \<Rightarrow> int \<Rightarrow> int" where
  "capped c i = min (BaseDelay c * 2 ^ nat i) (MaxDelay c)"

lemma cap_exact:
  assumes B: "0 < BaseDelay c" "BaseDelay c < 2 ^ 53" and M: "0 \<le> MaxDelay c" "MaxDelay c < 2 ^ 53" and i: "0 \<le> i"
  shows "(let delay = f64_mul (f64_of_int (BaseDelay c)) (f64_pow2 i); mx = f64_of_int (MaxDelay c)
          in if f64_less mx delay then mx else delay) = Fin (of_int (capped c i))"
proof (cases "i < 1024")
  case True
  let ?d = "of_int (BaseDelay c) * pow2 i"
  have d: "?d = of_int (BaseDelay c * 2 ^ nat i)" using i by (simp add: pow2_def)
  have "is_double ?d" using B i by (intro is_double_scale is_double_int) simp_all
  moreover have "0 \<le> ?d" using B by (simp add: less_imp_le)
  ultimately have r: "f64_round ?d = (if ?d < f64_max_bound then Fin ?d else PInf)"
    by (rule f64_round_double)
  have "of_int (MaxDelay c) < f64_max_bound" using M by (intro small_double_bound)
  moreover have "(of_int (MaxDelay c) :: rat) < ?d \<longleftrightarrow> MaxDelay c < BaseDelay c * 2 ^ nat i"
    unfolding d of_int_less_iff ..
  ultimately show ?thesis
    using B M r True i d by (auto simp: f64_of_int_exact f64_pow2_small capped_def min_def Let_def)
next
  case False
  have "MaxDelay c < 2 ^ 53" by (rule M)
  also have "(2 :: int) ^ 53 \<le> 2 ^ nat i" using False by (intro power_increasing) auto
  also have "\<dots> \<le> BaseDelay c * 2 ^ nat i" using B by simp
  finally have "capped c i = MaxDelay c" by (simp add: capped_def)
  with False B M show ?thesis by (simp add: f64_pow2_def f64_of_int_exact inf_times_def Let_def)
qed

text \<open>
  The draw \<open>2 r - 1\<close> and the jittered delay, with the error that rounding makes on the way:
  \<open>h\<close> is half the distance of the doubles at one.
\<close>

lemma draw_error:
  assumes r: "0 \<le> r" "r < 1" and h_def: "h = 1 / 2 ^ 53"
  shows "\<exists>u. f64_sub (f64_mul (Fin r) (Fin 2)) (Fin 1) = Fin u \<and> \<bar>u - (2 * r - 1)\<bar> \<le> 51 / 16 * h \<and> \<bar>u\<bar> \<le> 17 / 16"
proof -
  have h: "0 < h" "16 * 16 * h \<le> 1" by (simp_all add: h_def)
  obtain b where b: "f64_round (r * 2) = Fin b" "\<bar>b - r * 2\<bar> \<le> 2 * h + h / 16"
    using f64_round_near [of "r * 2" 2 h] r h_def by auto
  have "\<bar>b + - 1\<bar> \<le> 17 / 16" using b(2) r h by linarith
  then obtain u where u: "f64_round (b + - 1) = Fin u" "\<bar>u - (b + - 1)\<bar> \<le> 17 / 16 * h + h / 16"
    using f64_round_near [of "b + - 1" "17 / 16" h] h_def by auto
  have "\<bar>u - (2 * r - 1)\<bar> \<le> 51 / 16 * h" "\<bar>u\<bar> \<le> 17 / 16"
    using u(2) b(2) r h by linarith+
  with u(1) b(1) show ?thesis by (simp add: f64_sub_def)
qed

lemma jitter_error:
  assumes d: "1 \<le> d" and j: "0 < j" and r: "0 \<le> r" "r < 1" and small: "d * (1 + j) \<le> 2 ^ 62"
  shows "\<exists>t. f64_add (Fin d) (f64_mul (f64_mul (Fin d) (Fin j)) (f64_sub (f64_mul (Fin r) (Fin 2)) (Fin 1))) = Fin t \<and>
    \<bar>t - d * (1 + j * (2 * r - 1))\<bar> \<le> d * max 1 j / 2 ^ 50"
proof -
  define h :: rat where "h = 1 / 2 ^ 53"
  define M where "M = d * max 1 j"
  define E where "E = M * h"
  have h: "0 < h" "16 * 16 * h \<le> 1" by (simp_all add: h_def)
  have d0: "0 \<le> d" using d by simp
  have M: "1 \<le> M" "d \<le> M" "d * j \<le> M" "0 \<le> d * j"
    using d j mult_left_mono [of 1 "max 1 j" d] mult_left_mono [of j "max 1 j" d] d0 order_trans [OF d]
    unfolding M_def by simp_all
  have "M \<le> d * (1 + j)" unfolding M_def using d j by (intro mult_left_mono) simp_all
  then have big: "M \<le> 2 ^ 62" using small by simp
  have E: "h \<le> E" "16 * 16 * E \<le> M" "8 * E = M / 2 ^ 50"
    using mult_right_mono [OF M(1), of h] mult_left_mono [OF h(2), of M] M(1) h(1) unfolding E_def
    by (simp_all add: h_def)
  obtain a where a: "f64_round (d * j) = Fin a" "\<bar>a - d * j\<bar> \<le> M * h + h / 16"
    using f64_round_near [of "d * j" M h] M big h_def by auto
  obtain u where u: "f64_sub (f64_mul (Fin r) (Fin 2)) (Fin 1) = Fin u"
      "\<bar>u - (2 * r - 1)\<bar> \<le> 51 / 16 * h" "\<bar>u\<bar> \<le> 17 / 16"
    using draw_error [OF r h_def] by blast
  have "\<bar>a - d * j\<bar> \<le> 17 / 16 * E" using a(2) E(1) by (simp add: E_def)
  from abs_mult_error [OF this u(2) _ u(3), of M] M
  have au: "\<bar>a * u - d * j * (2 * r - 1)\<bar> \<le> 1105 / 256 * E"
    by (simp add: E_def)
  have x: "\<bar>d * j * (2 * r - 1)\<bar> \<le> M * 1"
    unfolding abs_mult using M r by (intro mult_mono) (auto simp: abs_le_iff)
  with au E(2) M(1) have "\<bar>a * u\<bar> \<le> 17 / 16 * M" by linarith
  then obtain v where v: "f64_round (a * u) = Fin v" "\<bar>v - a * u\<bar> \<le> 17 / 16 * E + h / 16"
    using f64_round_near [of "a * u" "17 / 16 * M" h] big h_def by (auto simp: E_def)
  have v': "\<bar>v - d * j * (2 * r - 1)\<bar> \<le> 1393 / 256 * E" using v(2) au E(1) by linarith
  have "\<bar>d + v\<bar> \<le> 33 / 16 * M" using v' M(2) E(2) x d0 by linarith
  then obtain t where t: "f64_round (d + v) = Fin t" "\<bar>t - (d + v)\<bar> \<le> 33 / 16 * E + h / 16"
    using f64_round_near [of "d + v" "33 / 16 * M" h] big h_def by (auto simp: E_def)
  have "\<bar>t - (d + d * j * (2 * r - 1))\<bar> \<le> 8 * E" using t(2) v' E(1) by linarith
  then show ?thesis
    using a(1) u(1) v(1) t(1) E(3) by (simp add: M_def algebra_simps)
qed

lemma f64_to_i64_bounds:
  "0 \<le> t \<Longrightarrow> t \<le> of_int k \<Longrightarrow> k \<le> max_i64 \<Longrightarrow>
   f64_to_i64 oob (Fin t) = \<lfloor>t\<rfloor> \<and> 0 \<le> \<lfloor>t\<rfloor> \<and> \<lfloor>t\<rfloor> \<le> k"
proof -
  assume t: "0 \<le> t" "t \<le> of_int k" "k \<le> max_i64"
  then have "0 \<le> \<lfloor>t\<rfloor>" "\<lfloor>t\<rfloor> \<le> k" by (simp_all add: floor_le_iff)
  moreover have "trunc_rat t = \<lfloor>t\<rfloor>" using t by (simp add: trunc_rat_def)
  ultimately show ?thesis using t by (simp add: in_i64_def)
qed

text \<open>The clamped and truncated delay.\<close>

lemma clamp_error:
  assumes "\<bar>t - x\<bar> \<le> e" "x \<le> 2 ^ 62" "e \<le> 2 ^ 32"
  shows "0 \<le> f64_to_i64 oob (if f64_less (Fin t) (Fin 0) then Fin 0 else Fin t) \<and>
    \<bar>of_int (f64_to_i64 oob (if f64_less (Fin t) (Fin 0) then Fin 0 else Fin t)) - max 0 x\<bar> \<le> 1 + e"
proof (cases "t < 0")
  case True
  then show ?thesis using assms(1) by (auto simp: trunc_rat_def in_i64_def)
next
  case False
  have "t \<le> of_int max_i64" using assms by (auto simp: abs_le_iff)
  with False have "f64_to_i64 oob (Fin t) = \<lfloor>t\<rfloor>" "0 \<le> \<lfloor>t\<rfloor>"
    using f64_to_i64_bounds [of t max_i64 oob] by auto
  moreover have "\<bar>of_int \<lfloor>t\<rfloor> - max 0 x\<bar> \<le> 1 + e" using assms(1) False by linarith
  ultimately show ?thesis using False by simp
qed

lemma backoff_delay_cap:
  assumes "0 < BaseDelay c" "BaseDelay c < 2 ^ 53" "0 \<le> MaxDelay c" "MaxDelay c < 2 ^ 53" "0 \<le> i"
  shows "backoff_delay oob c i r =
    (let delay = Fin (of_int (capped c i));
         delay = (if f64_less (Fin 0) (Jitter c)
                  then f64_add delay (f64_mul (f64_mul delay (Jitter c)) (f64_sub (f64_mul r (Fin 2)) (Fin 1)))
                  else delay)
     in f64_to_i64 oob (if f64_less delay (Fin 0) then Fin 0 else delay))"
  using cap_exact [OF assms] by (simp add: backoff_delay_def Let_def)

lemma capped_bounds:
  "0 < BaseDelay c \<Longrightarrow> 0 \<le> MaxDelay c \<Longrightarrow> 0 \<le> capped c i \<and> capped c i \<le> MaxDelay c"
  by (simp add: capped_def)

section \<open>Properties of the delay\<close>

text \<open>
  C31: without jitter the delay before retry \<open>i\<close> is exactly \<open>min(BaseDelay * 2^i, MaxDelay)\<close>,
  for every attempt number, with no rounding, overflow or conversion out of range, when both
  bounds are below \<open>2^53\<close> nanoseconds; no random number is drawn.
\<close>

theorem backoff_exponential:
  assumes "0 < BaseDelay c" "BaseDelay c < 2 ^ 53" "0 \<le> MaxDelay c" "MaxDelay c < 2 ^ 53"
    and "Jitter c = Fin 0" and "0 \<le> i"
  shows "backoff oob c i w = (min (BaseDelay c * 2 ^ nat i) (MaxDelay c), w)"
proof -
  note b = capped_bounds [OF assms(1,3), of i]
  have "f64_to_i64 oob (Fin (of_int (capped c i))) = capped c i"
    using f64_to_i64_bounds [of "of_int (capped c i)" "capped c i" oob] b assms(4) by simp
  moreover have "\<not> f64_less (Fin (of_int (capped c i))) (Fin 0)" using b by simp
  ultimately show ?thesis
    using assms by (simp add: backoff_def backoff_delay_cap capped_def del: f64_less.simps f64_to_i64.simps)
       (simp add: capped_def)
qed

text \<open>
  C32: with jitter \<open>j > 0\<close> one random number \<open>r\<close> is drawn, and the delay is the one of the
  formula, \<open>D (1 + j (2 r - 1))\<close> where \<open>D\<close> is the capped exponential, and zero where that is
  negative (which takes a jitter above one): within one nanosecond for the truncation, and
  \<open>2^-50\<close> of the larger of \<open>D\<close> and \<open>D j\<close> for all rounding on the way.  It is never negative.
  This holds when both bounds are below \<open>2^53\<close> nanoseconds, \<open>r\<close> is in the unit interval and
  the largest delay \<open>D (1 + j)\<close> is at most \<open>2^62\<close> nanoseconds.
\<close>

theorem backoff_jitter_bounds:
  assumes "0 < BaseDelay c" "BaseDelay c < 2 ^ 53" "0 \<le> MaxDelay c" "MaxDelay c < 2 ^ 53" "0 \<le> i"
    and "Jitter c = Fin j" "0 < j"
    and "r = float_src w (floats_drawn w)" "0 \<le> r" "r < 1"
    and "D = of_int (min (BaseDelay c * 2 ^ nat i) (MaxDelay c))" "D * (1 + j) \<le> 2 ^ 62"
  shows "\<exists>delay. backoff oob c i w = (delay, w\<lparr>floats_drawn := floats_drawn w + 1\<rparr>) \<and> 0 \<le> delay \<and>
    \<bar>of_int delay - max 0 (D * (1 + j * (2 * r - 1)))\<bar> \<le> 1 + D * max 1 j / 2 ^ 50"
proof -
  let ?x = "D * (1 + j * (2 * r - 1))" and ?e = "D * max 1 j / 2 ^ 50"
  have D: "D = of_int (capped c i)" using assms(11) by (simp add: capped_def)
  have "\<exists>t. f64_add (Fin D) (f64_mul (f64_mul (Fin D) (Fin j)) (f64_sub (f64_mul (Fin r) (Fin 2)) (Fin 1))) = Fin t \<and>
      \<bar>t - ?x\<bar> \<le> ?e"
  proof (cases "capped c i = 0")
    case True
    then show ?thesis using draw_error [OF assms(9,10) refl] by (auto simp: D f64_round_def)
  next
    case False
    then have "1 \<le> D" using capped_bounds [OF assms(1,3), of i] by (simp add: D)
    from jitter_error [OF this assms(7,9,10,12)] show ?thesis .
  qed
  then obtain t where t: "f64_add (Fin D) (f64_mul (f64_mul (Fin D) (Fin j)) (f64_sub (f64_mul (Fin r) (Fin 2)) (Fin 1))) = Fin t"
    "\<bar>t - ?x\<bar> \<le> ?e" by blast
  have D0: "0 \<le> D" using capped_bounds [OF assms(1,3), of i] by (simp add: D)
  have "?x \<le> D * (1 + j)" "D * max 1 j \<le> D * (1 + j)"
    using D0 assms(7,9,10) by (auto intro!: mult_left_mono)
  then have "?x \<le> 2 ^ 62" "?e \<le> 2 ^ 32" using assms(12) by simp_all
  note clamp = clamp_error [OF t(2) this, of oob]
  have "backoff oob c i w =
      (f64_to_i64 oob (if f64_less (Fin t) (Fin 0) then Fin 0 else Fin t), w\<lparr>floats_drawn := floats_drawn w + 1\<rparr>)"
    unfolding backoff_def rand_Float64_def backoff_delay_cap [OF assms(1-5)] assms(6) D [symmetric] assms(8) [symmetric] Let_def
    using t(1) assms(7) by (simp del: f64_add.simps f64_mul.simps)
  with clamp show ?thesis by blast
qed

text \<open>
  the jitter is added after the cap: with a cap of \<open>4k\<close> nanoseconds and a jitter of one
  half, a random number of three quarters gives a delay of \<open>5k\<close>, a quarter above the cap.
\<close>

theorem backoff_jitter_exceeds_cap:
  assumes "0 < k" "5 * k < 2 ^ 53" and "MaxDelay c = 4 * k" "BaseDelay c = 4 * k" "Jitter c = Fin (1 / 2)"
    and "float_src w (floats_drawn w) = 3 / 4"
  shows "fst (backoff oob c 0 w) = 5 * k \<and> MaxDelay c < fst (backoff oob c 0 w)"
proof -
  have int: "f64_round (of_int m) = Fin (of_int m)" if "0 \<le> m" "m < 2 ^ 53" for m
    using f64_of_int_exact [OF that] by (simp add: f64_of_int_def)
  have "is_double (3 / 2)" "is_double (1 / 2)"
    unfolding is_double_def
    by (intro exI [of _ 3] exI [of _ "- 1"], simp add: pow2_def)
       (intro exI [of _ 1] exI [of _ "- 1"], simp add: pow2_def)
  then have "f64_round (3 / 2) = Fin (3 / 2)" "f64_round (1 / 2) = Fin (1 / 2)"
    using f64_round_double [of "3 / 2"] f64_round_double [of "1 / 2"]
      small_double_bound [of 2] by (simp_all add: f64_max_bound_def)
  moreover have "f64_round (4 * of_int k * (1 / 2)) = Fin (of_int (2 * k))" "f64_round (of_int (2 * k) * (1 / 2)) = Fin (of_int k)"
    "f64_round (4 * of_int k + of_int k) = Fin (of_int (5 * k))"
    using int [of "2 * k"] int [of k] int [of "5 * k"] assms(1,2) by simp_all
  moreover have "capped c 0 = 4 * k" using assms by (simp add: capped_def)
  moreover have "f64_to_i64 oob (Fin (of_int (5 * k))) = 5 * k"
    using conjunct1 [OF f64_to_i64_bounds, of "of_int (5 * k)" "5 * k" oob] assms(1,2)
    by (simp only: floor_of_int) simp
  moreover have "backoff_delay oob c 0 r = (let delay = Fin (of_int (capped c 0));
         delay = (if f64_less (Fin 0) (Jitter c)
                  then f64_add delay (f64_mul (f64_mul delay (Jitter c)) (f64_sub (f64_mul r (Fin 2)) (Fin 1)))
                  else delay)
     in f64_to_i64 oob (if f64_less delay (Fin 0) then Fin 0 else delay))" for r
    by (rule backoff_delay_cap) (use assms in auto)
  ultimately have "backoff_delay oob c 0 (Fin (3 / 4)) = 5 * k"
    using assms(1,5) by (simp add: Let_def f64_sub_def del: f64_to_i64.simps)
  then have "fst (backoff oob c 0 w) = 5 * k"
    unfolding backoff_def rand_Float64_def assms(5,6) by simp
  then show ?thesis using assms(1,3) by simp
qed

section \<open>The loop\<close>

text \<open>
  A function that answers from a script: its \<open>j\<close>-th call returns the \<open>j\<close>-th entry.  Every
  behaviour of a function that neither panics nor looks at the clock is one.
\<close>

record 'a script_world = retry_world +
  script :: "nat \<Rightarrow> 'a \<times> gerror option"
  calls :: nat

definition scripted :: "'c \<Rightarrow> (('a, 'x) script_world_scheme, 'a \<times> gerror option) go" where
  "scripted ctx w = (Return (script w (calls w)), w\<lparr>calls := calls w + 1\<rparr>)"

definition retries_on :: "('b, 'md) grpc_api \<Rightarrow> RetryConfig \<Rightarrow> ('a \<times> gerror option) \<Rightarrow> bool" where
  "retries_on A c r = (case snd r of None \<Rightarrow> False | Some e \<Rightarrow> retryable A c e)"

lemma backoff_frame:
  fixes w :: "('a, 'x) script_world_scheme"
  shows "script (snd (backoff oob c i w)) = script w \<and> calls (snd (backoff oob c i w)) = calls w \<and>
    done_at (snd (backoff oob c i w)) = done_at w \<and> rnow (snd (backoff oob c i w)) = rnow w \<and>
    select_src (snd (backoff oob c i w)) = select_src w \<and> selects (snd (backoff oob c i w)) = selects w"
  by (simp add: backoff_def rand_Float64_def)

lemma select_frame:
  fixes w :: "('a, 'x) script_world_scheme"
  shows "script (snd (select_wait d w)) = script w \<and> calls (snd (select_wait d w)) = calls w \<and>
    done_at (snd (select_wait d w)) = done_at w"
  by (auto simp: select_wait_def Let_def split: option.splits)

lemma backoff_calls [simp]:
  "fst (backoff oob c i (w\<lparr>calls := n\<rparr>)) = fst (backoff oob c i w)"
  by (simp add: backoff_def rand_Float64_def)

lemma select_context:
  "done_at w = Some (t, e) \<Longrightarrow> max (rnow w) t < rnow w + max 0 d \<Longrightarrow>
   select_wait d w = (Some e, w\<lparr>rnow := max (rnow w) t\<rparr>)"
  by (simp add: select_wait_def Let_def)

lemma select_ended:
  "select_wait d w = (Some e, w') \<Longrightarrow> \<exists>t. done_at w = Some (t, e) \<and> t \<le> rnow w'"
  by (auto simp: select_wait_def Let_def split: option.splits if_splits)

text \<open>
  What a run of at most \<open>k\<close> calls that made \<open>n\<close> of them and returned \<open>r\<close> may look like: all
  answers before the last one were retryable errors; the last was a success and is returned;
  or an error that is returned with the zero value because it was the \<open>k\<close>-th or is not
  retryable; or a retryable error after which the context ended first.
\<close>

definition retry_outcome ::
    "('b, 'md) grpc_api \<Rightarrow> RetryConfig \<Rightarrow> 'a \<Rightarrow> nat \<Rightarrow> ('a, 'x) script_world_scheme \<Rightarrow> nat
       \<Rightarrow> 'a \<times> gerror option \<Rightarrow> ('a, 'x) script_world_scheme \<Rightarrow> bool" where
  "retry_outcome A c zero k w n r w' \<longleftrightarrow>
     1 \<le> n \<and> n \<le> k \<and> calls w' = calls w + n \<and>
     (\<forall>j. Suc j < n \<longrightarrow> retries_on A c (script w (calls w + j))) \<and>
     (let last = script w (calls w + (n - 1))
      in case snd last of
           None \<Rightarrow> r = last
         | Some e \<Rightarrow>
             r = (zero, Some e) \<and> (n = k \<or> \<not> retryable A c e) \<or>
             (\<exists>t e'. done_at w = Some (t, e') \<and> t \<le> rnow w' \<and> n < k \<and> retryable A c e \<and> r = (zero, Some e')))"

lemma retry_outcome_more:
  assumes "retry_outcome A c zero k w2 n r w'" and "retries_on A c (script w (calls w))"
    and "script w2 = script w" "calls w2 = Suc (calls w)" "done_at w2 = done_at w"
  shows "retry_outcome A c zero (Suc k) w (Suc n) r w'"
proof -
  have n: "1 \<le> n" "n \<le> k" using assms(1) by (simp_all add: retry_outcome_def)
  have "retries_on A c (script w (calls w + j))" if "Suc j < Suc n" for j
    using that assms by (cases j) (auto simp: retry_outcome_def)
  moreover have "Suc (calls w) + (n - 1) = calls w + (Suc n - 1)" using n by simp
  ultimately show ?thesis
    using assms(1,3-5) n by (simp add: retry_outcome_def Let_def split: option.splits)
qed

lemma retry_outcome_one:
  assumes "calls w' = calls w + 1"
    and "case snd (script w (calls w)) of
           None \<Rightarrow> r = script w (calls w)
         | Some e \<Rightarrow>
             r = (zero, Some e) \<and> (k = 0 \<or> \<not> retryable A c e) \<or>
             (\<exists>t e'. done_at w = Some (t, e') \<and> t \<le> rnow w' \<and> 0 < k \<and> retryable A c e \<and> r = (zero, Some e'))"
  shows "retry_outcome A c zero (Suc k) w 1 r w'"
  using assms by (auto simp: retry_outcome_def Let_def split: option.splits)

text \<open>An iteration whose call ends the loop, and one whose call is followed by a wait.\<close>

lemma retry_loop_last:
  assumes "script w (calls w) = (v, err)" and "attempts = i + int (Suc k)"
    and "\<And>e. err = Some e \<Longrightarrow> k = 0 \<or> \<not> retryable A c e"
  shows "retry_loop A oob zero c attempts (scripted ctx) (Suc k) i w =
    (Return (case err of None \<Rightarrow> (v, None) | Some e \<Rightarrow> (zero, Some e)), w\<lparr>calls := calls w + 1\<rparr>)"
  using assms by (auto simp: scripted_def go_bind_def go_return_def split: option.split)

lemma retry_loop_wait:
  assumes "script w (calls w) = (v, Some e)" "retryable A c e" and "attempts = i + int (Suc k)" "0 < k"
    and "select_wait (fst (backoff oob c i (w\<lparr>calls := calls w + 1\<rparr>))) (snd (backoff oob c i (w\<lparr>calls := calls w + 1\<rparr>)))
      = (ended, w3)"
  shows "retry_loop A oob zero c attempts (scripted ctx) (Suc k) i w =
      (case ended of
         Some e' \<Rightarrow> (Return (zero, Some e'), w3)
       | None \<Rightarrow> retry_loop A oob zero c attempts (scripted ctx) k (i + 1) w3)"
    and "script w3 = script w" "calls w3 = Suc (calls w)" "done_at w3 = done_at w"
proof -
  let ?w2 = "snd (backoff oob c i (w\<lparr>calls := calls w + 1\<rparr>))" and ?d = "fst (backoff oob c i (w\<lparr>calls := calls w + 1\<rparr>))"
  note frame = backoff_frame [of oob c i "w\<lparr>calls := calls w + 1\<rparr>"] select_frame [of ?d ?w2]
  show "script w3 = script w" "calls w3 = Suc (calls w)" "done_at w3 = done_at w"
    using frame assms(5) by auto
  show "retry_loop A oob zero c attempts (scripted ctx) (Suc k) i w =
      (case ended of
         Some e' \<Rightarrow> (Return (zero, Some e'), w3)
       | None \<Rightarrow> retry_loop A oob zero c attempts (scripted ctx) k (i + 1) w3)"
    using assms by (auto simp: scripted_def go_bind_def go_return_def split_beta Let_def split: option.splits)
qed

lemma retry_loop_outcome:
  "0 < k \<Longrightarrow> attempts = i + int k \<Longrightarrow>
   \<exists>n r w'. retry_loop A oob zero c attempts (scripted ctx) k i w = (Return r, w') \<and>
     retry_outcome A c zero k w n r w'"
proof (induction k arbitrary: i w)
  case (Suc k)
  obtain v err where last: "script w (calls w) = (v, err)" by (cases "script w (calls w)")
  show ?case
  proof (cases "\<exists>e. err = Some e \<and> 0 < k \<and> retryable A c e")
    case False
    let ?r = "case err of None \<Rightarrow> (v, None) | Some e \<Rightarrow> (zero, Some e)"
    have "retry_outcome A c zero (Suc k) w 1 ?r (w\<lparr>calls := calls w + 1\<rparr>)"
      by (rule retry_outcome_one) (use last False in \<open>auto split: option.splits\<close>)
    moreover have "retry_loop A oob zero c attempts (scripted ctx) (Suc k) i w = (Return ?r, w\<lparr>calls := calls w + 1\<rparr>)"
      by (rule retry_loop_last [OF last Suc.prems(2)]) (use False in auto)
    ultimately show ?thesis by blast
  next
    case True
    then obtain e where e: "script w (calls w) = (v, Some e)" "retryable A c e" "0 < k" using last by blast
    let ?b = "backoff oob c i (w\<lparr>calls := calls w + 1\<rparr>)"
    obtain ended w3 where sel: "select_wait (fst ?b) (snd ?b) = (ended, w3)" by (cases "select_wait (fst ?b) (snd ?b)")
    note wait = retry_loop_wait [OF e(1,2) Suc.prems(2) e(3) sel]
    show ?thesis
    proof (cases ended)
      case (Some e')
      with sel obtain t where t: "done_at w = Some (t, e')" "t \<le> rnow w3"
        using select_ended [of "fst ?b" "snd ?b" e' w3] backoff_frame [of oob c i "w\<lparr>calls := calls w + 1\<rparr>"] by auto
      have "retry_outcome A c zero (Suc k) w 1 (zero, Some e') w3"
        by (rule retry_outcome_one) (use wait(3) t e in auto)
      with wait(1) [of zero ctx, unfolded Some option.case] show ?thesis by blast
    next
      case None
      have "attempts = i + 1 + int k" using Suc.prems by simp
      from Suc.IH [OF e(3) this, of w3] obtain n r w' where
        rest: "retry_loop A oob zero c attempts (scripted ctx) k (i + 1) w3 = (Return r, w')"
          "retry_outcome A c zero k w3 n r w'" by blast
      have "retries_on A c (script w (calls w))" using e by (simp add: retries_on_def)
      from retry_outcome_more [OF rest(2) this wait(2-4)] wait(1) [of zero ctx, unfolded None option.case rest(1)]
      show ?thesis by blast
    qed
  qed
qed simp

section \<open>Properties of the loop\<close>

text \<open>
  C9: \<open>Do\<close> returns, after at least one and at most \<open>max(MaxAttempts, 1)\<close> calls, with the
  outcome of the specification: it goes on after retryable errors only, returns the first
  success, the zero value with the first error that is not retryable or the last allowed
  one, or the context's error once the context has ended; never the \<open>zero, nil\<close> after the
  loop.
\<close>

theorem Do_outcome:
  "\<exists>n r w'. Do A oob zero ctx c scripted w = (Return r, w') \<and>
     retry_outcome A c zero (nat (max (MaxAttempts c) 1)) w n r w'"
  unfolding Do_def Let_def by (rule retry_loop_outcome) (auto simp: max_def)

text \<open>The first iteration of a loop that has a second one.\<close>

lemma Do_first_failure:
  assumes "script w (calls w) = (v, Some e)" "retryable A c e" "1 < MaxAttempts c"
  shows "Do A oob zero ctx c scripted w =
    (let (delay, w1) = backoff oob c 0 (w\<lparr>calls := calls w + 1\<rparr>)
     in case select_wait delay w1 of
          (Some e', w2) \<Rightarrow> (Return (zero, Some e'), w2)
        | (None, w2) \<Rightarrow>
            retry_loop A oob zero c (MaxAttempts c) (scripted ctx) (nat (MaxAttempts c - 1)) 1 w2)"
proof -
  have "nat (MaxAttempts c) = Suc (nat (MaxAttempts c - 1))" using assms(3) by simp
  then show ?thesis
    using assms by (auto simp: Do_def Let_def max_def scripted_def go_bind_def split_beta split: option.splits)
qed

text \<open>
  a context that ends before the delay is over stops the loop at that moment: no further
  call is made and its error is returned.
\<close>

theorem Do_stops_when_context_ends:
  assumes "script w (calls w) = (v, Some e)" "retryable A c e" "1 < MaxAttempts c"
    and "done_at w = Some (t, ce)"
    and "max (rnow w) t < rnow w + max 0 (fst (backoff oob c 0 w))"
  shows "\<exists>w'. Do A oob zero ctx c scripted w = (Return (zero, Some ce), w') \<and>
    calls w' = calls w + 1 \<and> rnow w' = max (rnow w) t"
proof -
  let ?w1 = "snd (backoff oob c 0 (w\<lparr>calls := calls w + 1\<rparr>))"
  note fr = backoff_frame [of oob c 0 "w\<lparr>calls := calls w + 1\<rparr>"]
  have "rnow ?w1 = rnow w" "done_at ?w1 = Some (t, ce)" using fr assms(4) by simp_all
  then have "select_wait (fst (backoff oob c 0 w)) ?w1 = (Some ce, ?w1\<lparr>rnow := max (rnow w) t\<rparr>)"
    using select_context [of ?w1 t ce "fst (backoff oob c 0 w)"] assms(5) by (simp only:)
  with fr show ?thesis
    by (auto simp: Do_first_failure [OF assms(1-3)] split_beta Let_def)
qed

text \<open>
  with a zero delay the context is not reliably checked before a retry: the timer is
  ready as well, and when \<open>select\<close> takes it the function is called again although the
  context had already ended.
\<close>

theorem Do_zero_delay_race:
  assumes "script w (calls w) = (v, Some e)" "retryable A c e" "MaxAttempts c = 2"
    and "BaseDelay c = 0" "Jitter c = Fin 0" "0 \<le> MaxDelay c" "MaxDelay c < 2 ^ 53"
    and "done_at w = Some (t, ce)" "t \<le> rnow w" "\<not> select_src w (selects w)"
  shows "\<exists>r w'. Do A oob zero ctx c scripted w = (Return r, w') \<and> calls w' = calls w + 2"
proof -
  let ?w = "w\<lparr>calls := calls w + 1\<rparr>"
  have "f64_round 0 = Fin 0" by (simp add: f64_round_def)
  then have "backoff oob c 0 v = (0, v)" for v :: "('a, 'b) script_world_scheme"
    using assms(4-7) f64_pow2_small [of 0] f64_of_int_exact [of 0] f64_of_int_exact [of "MaxDelay c"]
    by (simp add: backoff_def backoff_delay_def Let_def trunc_rat_def in_i64_def)
  moreover have "max (rnow w) t = rnow w" using assms(9) by simp
  ultimately show ?thesis
    using assms(3,8,10)
    by (auto simp: Do_first_failure [OF assms(1,2)] select_wait_def Let_def numeral_2_eq_2 scripted_def
        go_bind_def go_return_def split_beta split: option.splits)
qed

section \<open>Witnesses\<close>

definition demo_retry :: RetryConfig where
  "demo_retry = \<lparr>MaxAttempts = 3, BaseDelay = 100, MaxDelay = 500, Jitter = Fin 0, RetryCodes = [Unavailable]\<rparr>"

definition demo_script :: "(nat \<Rightarrow> rat) \<Rightarrow> (int \<times> gerror) option \<Rightarrow> int script_world" where
  "demo_script rs d =
     \<lparr>rnow = 0, done_at = d, float_src = rs, floats_drawn = 0, select_src = (\<lambda>_. False), selects = 0,
      script = (\<lambda>n. if n < 2 then (0, Some (StatusError Unavailable ''down'')) else (7, None)), calls = 0\<rparr>"

lemma demo_retryable: "retryable demo_api demo_retry (StatusError Unavailable ''down'')"
  by (simp add: retryable_def demo_api_def demo_retry_def)

theorem backoff_exponential_witness:
  "map (\<lambda>i. fst (backoff (\<lambda>_. 0) demo_retry i (demo_script (\<lambda>_. 0) None))) [0, 1, 2, 3, 2000]
     = [100, 200, 400, 500, 500]"
proof -
  have "100 * 2 ^ nat 2000 \<ge> (500 :: int)"
    using power_increasing [of 3 "nat 2000" "2 :: int"] by simp
  then show ?thesis
    using backoff_exponential [of demo_retry _ "\<lambda>_. 0" "demo_script (\<lambda>_. 0) None"]
    by (simp add: demo_retry_def)
qed

theorem backoff_jitter_bounds_witness:
  "\<bar>of_int (fst (backoff (\<lambda>_. 0) (demo_retry\<lparr>Jitter := Fin (1 / 5)\<rparr>) 1 (demo_script (\<lambda>_. 1 / 4) None))) - (180 :: rat)\<bar>
      \<le> 1 + 200 / 2 ^ 50 \<and>
   \<bar>of_int (fst (backoff (\<lambda>_. 0) (demo_retry\<lparr>Jitter := Fin 2\<rparr>) 1 (demo_script (\<lambda>_. 0) None)))\<bar> \<le> (1 + 400 / 2 ^ 50 :: rat)"
  using backoff_jitter_bounds [of "demo_retry\<lparr>Jitter := Fin (1 / 5)\<rparr>" 1 "1 / 5" "1 / 4" "demo_script (\<lambda>_. 1 / 4) None" 200 "\<lambda>_. 0"]
    backoff_jitter_bounds [of "demo_retry\<lparr>Jitter := Fin 2\<rparr>" 1 2 0 "demo_script (\<lambda>_. 0) None" 200 "\<lambda>_. 0"]
  by (auto simp: demo_retry_def demo_script_def)

theorem backoff_jitter_exceeds_cap_witness:
  "fst (backoff (\<lambda>_. 0) (demo_retry\<lparr>BaseDelay := 400, MaxDelay := 400, Jitter := Fin (1 / 2)\<rparr>) 0
     (demo_script (\<lambda>_. 3 / 4) None)) = 500"
  using backoff_jitter_exceeds_cap [of 100 "demo_retry\<lparr>BaseDelay := 400, MaxDelay := 400, Jitter := Fin (1 / 2)\<rparr>"
      "demo_script (\<lambda>_. 3 / 4) None" "\<lambda>_. 0"]
  by (simp add: demo_retry_def demo_script_def)

theorem Do_stops_when_context_ends_witness:
  "\<exists>w'. Do demo_api (\<lambda>_. 0) 0 () demo_retry scripted (demo_script (\<lambda>_. 0) (Some (50, CtxCanceled)))
     = (Return (0, Some CtxCanceled), w') \<and> calls w' = 1 \<and> rnow w' = 50"
proof -
  let ?w = "demo_script (\<lambda>_. 0) (Some (50, CtxCanceled))"
  have "fst (backoff (\<lambda>_. 0) demo_retry 0 ?w) = 100"
    by (simp add: backoff_def backoff_delay_cap demo_retry_def capped_def trunc_rat_def in_i64_def)
  with Do_stops_when_context_ends [of ?w 0 _ demo_api demo_retry 50 CtxCanceled "\<lambda>_. 0" 0 "()", OF _ demo_retryable]
  show ?thesis by (simp add: demo_retry_def demo_script_def)
qed

theorem Do_zero_delay_race_witness:
  "\<exists>r w'. Do demo_api (\<lambda>_. 0) 0 () (demo_retry\<lparr>MaxAttempts := 2, BaseDelay := 0\<rparr>) scripted
     (demo_script (\<lambda>_. 0) (Some (0, CtxCanceled))) = (Return r, w') \<and> calls w' = 2"
  using Do_zero_delay_race [of "demo_script (\<lambda>_. 0) (Some (0, CtxCanceled))" 0 "StatusError Unavailable ''down''"
      demo_api "demo_retry\<lparr>MaxAttempts := 2, BaseDelay := 0\<rparr>" 0 CtxCanceled "\<lambda>_. 0" 0 "()"]
    demo_retryable
  by (simp add: demo_retry_def demo_script_def retryable_def numeral_2_eq_2)

end
