(* ===== verification/Retry_Demo.thy ===== *)
theory Retry_Demo
  imports Wiring Retry Json
begin

text \<open>
  The retry example (examples/retry-demo): a ping handler that fails a number of times, behind
  a server with recovery, called by a client through \<open>retry.Do\<close>.  The transport between client
  and server is not part of the repository: \<open>conn.Invoke\<close> is an argument.
\<close>

section \<open>The handler and the client\<close>

record ('lim, 'rc, 'rd) failing_world = "('lim, 'rc, 'rd) server_world" +
  server_unix :: int
  remaining :: "32 word"

definition failingHandler_Ping :: "(('lim, 'rc, 'rd, 'x) failing_world_scheme, 'b) ping_impl" where
  "failingHandler_Ping ctx req w =
     (let w1 = w\<lparr>remaining := remaining w - 1\<rparr>
      in if 0 \<le> sint (remaining w1) then (Return (None, Some (StatusError Unavailable ''not ready yet'')), w1)
         else (fst (the (defaultHandler_Ping ctx req \<lparr>unix_now = server_unix w1, src_drawn = 0\<rparr>)), w1))"

definition retry_demo_cfg :: RetryConfig where
  "retry_demo_cfg =
     \<lparr>MaxAttempts = 5, BaseDelay = 100000000, MaxDelay = 1000000000, Jitter = f64_round (1 / 5),
      RetryCodes = [Unavailable]\<rparr>"

text \<open>The client's world is that of \<open>retry.Do\<close> with the server's in it.\<close>

record 'sv client_world = retry_world +
  remote :: 'sv

type_synonym ('w, 'c) invoker = "'c \<Rightarrow> string \<Rightarrow> PingRequest \<Rightarrow> ('w, gerror + PingResponse) go"

definition retry_call :: "('w, 'c) invoker \<Rightarrow> 'c \<Rightarrow> ('w, PingResponse option \<times> gerror option) go" where
  "retry_call invoke ctx =
     go_bind (invoke ctx ''/rawr.Ping/Ping'' \<lparr>req_Message = ''hello with retry''\<rparr>) (\<lambda>r.
       case r of
         Inl err \<Rightarrow> go_return (None, Some err)
       | Inr out \<Rightarrow> go_return (Some out, None))"

definition retry_client where
  "retry_client A oob invoke ctx = Do A oob None ctx retry_demo_cfg (retry_call invoke)"

text \<open>
  What \<open>main\<close> makes of the result: the exit status, and what it prints to standard output and
  standard error.
\<close>

definition retry_report ::
    "(gerror \<Rightarrow> string) \<Rightarrow> PingResponse option \<times> gerror option \<Rightarrow> (int \<times> string list \<times> string list) outcome" where
  "retry_report err_text r =
     (case r of
        (_, Some err) \<Rightarrow> Return (1, [], [''Ping failed after retries: '' @ err_text err @ [CHR 0x0A]])
      | (Some resp, None) \<Rightarrow>
          Return (0, [''Message:        '' @ resp_Message resp @ [CHR 0x0A],
                      ''ServerTimeUnix: '' @ itoa (ServerTimeUnix resp) @ [CHR 0x0A]], [])
      | (None, None) \<Rightarrow> Panic ''nil pointer dereference'')"

definition retry_server where
  "retry_server A T E w = NewServer (map (option_of A T E) [OptRecovery]) w"

section \<open>What the transport promises\<close>

text \<open>
  A call runs the server's method handler once, in some context made from the client's; a
  response and a status error arrive as they are.  Time may pass, and the client's context is
  what it was.
\<close>

definition delivers ::
    "(('sv, 'y) client_world_scheme, 'c) invoker \<Rightarrow> ('c \<Rightarrow> 'b gctx) \<Rightarrow> ('sv, 'b) ping_impl
       \<Rightarrow> ('sv, 'b, ping_any, PingResponse) unary_interceptor \<Rightarrow> bool" where
  "delivers invoke server_ctx srv u \<longleftrightarrow>
     (\<forall>ctx req w r sv.
        pingHandler srv (server_ctx ctx) (decoded req) (Some u) (remote w) = (Return r, sv) \<longrightarrow>
        (\<exists>w'. remote w' = sv \<and> done_at w' = done_at w \<and>
           (\<forall>resp. r = (Some resp, None) \<longrightarrow> invoke ctx ''/rawr.Ping/Ping'' req w = (Return (Inr resp), w')) \<and>
           (\<forall>c m. c \<noteq> OK \<and> r = (None, Some (StatusError c m)) \<longrightarrow>
              invoke ctx ''/rawr.Ping/Ping'' req w = (Return (Inl (StatusError c m)), w'))))"

lemma delivers_error:
  "delivers invoke server_ctx srv u \<Longrightarrow>
   pingHandler srv (server_ctx ctx) (decoded req) (Some u) (remote w) = (Return (None, Some (StatusError Unavailable m)), sv) \<Longrightarrow>
   \<exists>w'. remote w' = sv \<and> done_at w' = done_at w \<and>
     invoke ctx ''/rawr.Ping/Ping'' req w = (Return (Inl (StatusError Unavailable m)), w')"
  unfolding delivers_def by fastforce

lemma delivers_response:
  "delivers invoke server_ctx srv u \<Longrightarrow>
   pingHandler srv (server_ctx ctx) (decoded req) (Some u) (remote w) = (Return (Some resp, None), sv) \<Longrightarrow>
   \<exists>w'. remote w' = sv \<and> done_at w' = done_at w \<and> invoke ctx ''/rawr.Ping/Ping'' req w = (Return (Inr resp), w')"
  unfolding delivers_def by fastforce

section \<open>One call\<close>

lemma failing_served:
  fixes v :: "('lim, 'rc, 'rd, 'x) failing_world_scheme"
  assumes "retry_server A T E w = (Return s, w')" "UnaryInterceptor u \<in> set (gs_options (Server_GRPC s))"
  shows "\<exists>v'. remaining v' = remaining v - 1 \<and> server_unix v' = server_unix v \<and>
    pingHandler failingHandler_Ping ctx (decoded req) (Some u) v =
      (Return (if 0 \<le> sint (remaining v - 1) then (None, Some (StatusError Unavailable ''not ready yet''))
               else (Some \<lparr>resp_Message = req_Message req, ServerTimeUnix = server_unix v\<rparr>, None)), v')"
proof -
  have u: "u ctx r info h = RecoveryUnary ctx r info (\<lambda>c r. RequestIDUnary c r info h)" for ctx r info h
    using installed(1) [OF assms(1) [unfolded retry_server_def] assms(2) [unfolded Server_GRPC_def], of ctx r info h]
    by (simp add: unary_spec_def onion_def)
  obtain ctx' v1 where e: "ensureRequestID ctx v = (ctx', v1)" by (cases "ensureRequestID ctx v")
  then have "remaining v1 = remaining v" "server_unix v1 = server_unix v"
    by (auto simp: ensureRequestID_def newRequestID_def rand_Read_def split: if_splits)
  then show ?thesis
    by (intro exI [of _ "v1\<lparr>remaining := remaining v - 1\<rparr>"])
       (simp add: pingHandler_def u RecoveryUnary_def RequestIDUnary_def e failingHandler_Ping_def Let_def
          defaultHandler_Ping_def go_unfold)
qed

lemma remaining_left:
  assumes "k < 2 ^ 31"
  shows "0 \<le> sint (word_of_nat k - 1 :: 32 word) \<longleftrightarrow> 0 < k"
proof (cases k)
  case (Suc j)
  then have "word_of_nat k - 1 = (word_of_nat j :: 32 word)" by simp
  moreover have "sint (word_of_nat j :: 32 word) = signed_take_bit 31 (int j)" by transfer simp
  moreover have "signed_take_bit 31 (int j) = int j"
    using assms Suc by (intro signed_take_bit_int_eq_self) auto
  ultimately show ?thesis using Suc by simp
qed simp

lemma call_result:
  assumes "delivers invoke server_ctx failingHandler_Ping u"
    and "retry_server A T E w0 = (Return s, w1)" "UnaryInterceptor u \<in> set (gs_options (Server_GRPC s))"
    and "remaining (remote w) = word_of_nat k" "k < 2 ^ 31"
  shows "\<exists>w'. remaining (remote w') = word_of_nat k - 1 \<and> server_unix (remote w') = server_unix (remote w) \<and>
    done_at w' = done_at w \<and>
    retry_call invoke ctx w =
      (Return (if 0 < k then (None, Some (StatusError Unavailable ''not ready yet''))
               else (Some \<lparr>resp_Message = ''hello with retry'', ServerTimeUnix = server_unix (remote w)\<rparr>, None)), w')"
proof -
  let ?req = "\<lparr>req_Message = ''hello with retry''\<rparr>"
  obtain sv where sv: "remaining sv = word_of_nat k - 1" "server_unix sv = server_unix (remote w)"
    "pingHandler failingHandler_Ping (server_ctx ctx) (decoded ?req) (Some u) (remote w) =
      (Return (if 0 < k then (None, Some (StatusError Unavailable ''not ready yet''))
               else (Some \<lparr>resp_Message = ''hello with retry'', ServerTimeUnix = server_unix (remote w)\<rparr>, None)), sv)"
    using failing_served [OF assms(2,3), of "remote w" "server_ctx ctx" ?req] assms(4) remaining_left [OF assms(5)] by auto
  show ?thesis
  proof (cases "0 < k")
    case True
    with delivers_error [OF assms(1) sv(3) [unfolded if_P [OF True]]] sv(1,2) show ?thesis
      by (auto simp: retry_call_def go_unfold)
  next
    case False
    with delivers_response [OF assms(1) sv(3) [unfolded if_not_P [OF False]]] sv(1,2) show ?thesis
      by (auto simp: retry_call_def go_unfold)
  qed
qed

text \<open>The loop of the client: it ends with the response iff the failures run out before the attempts.\<close>

lemma wait_no_deadline:
  fixes w :: "('sv, 'y) client_world_scheme"
  assumes "done_at w = None"
  shows "\<exists>w'. select_wait (fst (backoff oob c i w)) (snd (backoff oob c i w)) = (None, w') \<and>
    remote w' = remote w \<and> done_at w' = None"
  using assms by (simp add: select_wait_def backoff_def rand_Float64_def Let_def)

lemma demo_loop:
  assumes inv: "delivers invoke server_ctx failingHandler_Ping u"
    and srv: "retry_server A T E w0 = (Return s, w1)" "UnaryInterceptor u \<in> set (gs_options (Server_GRPC s))"
    and A: "status_errors_recognised A"
  shows "remaining (remote w) = word_of_nat k \<Longrightarrow> k < 2 ^ 31 \<Longrightarrow> done_at w = None \<Longrightarrow> 0 < n \<Longrightarrow> i + int n = 5 \<Longrightarrow>
    \<exists>w'. retry_loop A oob None retry_demo_cfg 5 (retry_call invoke ctx) n i w =
        (Return (if k < n
           then (Some \<lparr>resp_Message = ''hello with retry'', ServerTimeUnix = server_unix (remote w)\<rparr>, None)
           else (None, Some (StatusError Unavailable ''not ready yet''))), w') \<and>
      remaining (remote w') = (if k < n then - 1 else word_of_nat (k - n))"
proof (induction n arbitrary: i w k)
  case (Suc n)
  obtain w2 where w2: "remaining (remote w2) = word_of_nat k - 1" "server_unix (remote w2) = server_unix (remote w)"
    "done_at w2 = None" and call: "retry_call invoke ctx w =
      (Return (if 0 < k then (None, Some (StatusError Unavailable ''not ready yet''))
               else (Some \<lparr>resp_Message = ''hello with retry'', ServerTimeUnix = server_unix (remote w)\<rparr>, None)), w2)"
    using call_result [OF inv srv Suc.prems(1,2), of ctx] Suc.prems(3) by auto
  have re: "retryable A retry_demo_cfg (StatusError Unavailable m)" for m
    using A by (simp add: retryable_def status_errors_recognised_def retry_demo_cfg_def)
  show ?case
  proof (cases k)
    case 0
    then show ?thesis using call w2 by (simp add: go_unfold)
  next
    case (Suc j)
    show ?thesis
    proof (cases n)
      case 0
      then show ?thesis using call w2 Suc \<open>i + int (Suc n) = 5\<close> by (simp add: go_unfold)
    next
      case (Suc n')
      obtain w3 where w3: "remote w3 = remote w2" "done_at w3 = None"
        "select_wait (fst (backoff oob retry_demo_cfg i w2)) (snd (backoff oob retry_demo_cfg i w2)) = (None, w3)"
        using wait_no_deadline [OF w2(3), of oob retry_demo_cfg i] by blast
      have "retry_loop A oob None retry_demo_cfg 5 (retry_call invoke ctx) (Suc n) i w =
          retry_loop A oob None retry_demo_cfg 5 (retry_call invoke ctx) n (i + 1) w3"
        using call re \<open>k = Suc j\<close> Suc Suc.prems(5) by (simp add: go_unfold split_beta w3(3))
      moreover have "0 < n" using Suc by simp
      moreover have r3: "remaining (remote w3) = word_of_nat j" using w3(1) w2(1) \<open>k = Suc j\<close> by simp
      ultimately show ?thesis
        using Suc.IH [OF r3 _ w3(2), of "i + 1", unfolded w3(1) w2(2)] Suc.prems \<open>k = Suc j\<close>
        by (cases "j < n") (simp_all add: of_nat_diff del: retry_loop.simps)
    qed
  qed
qed simp

section \<open>Property\<close>

text \<open>
  the retry example from handler to result: with a transport that delivers and a context
  that does not end, a handler set to fail \<open>k\<close> times makes the client return its response, with
  the client's message, after \<open>k + 1\<close> calls when \<open>k < 5\<close>, and the handler's own error after five
  calls otherwise; the counter of the handler, 32 bits wide, shows how many calls there were.
  The program prints the one and exits with zero, or complains of the other and exits with one.
\<close>

theorem retry_example_outcome:
  assumes "delivers invoke server_ctx failingHandler_Ping u" and "status_errors_recognised A"
    and "retry_server A T E w0 = (Return s, w1)" "UnaryInterceptor u \<in> set (gs_options (Server_GRPC s))"
    and "remaining (remote w) = word_of_nat k" "k < 2 ^ 31" "done_at w = None"
  shows "\<exists>w'. retry_client A oob invoke ctx w =
      (Return (if k < 5
         then (Some \<lparr>resp_Message = ''hello with retry'', ServerTimeUnix = server_unix (remote w)\<rparr>, None)
         else (None, Some (StatusError Unavailable ''not ready yet''))), w') \<and>
    remaining (remote w') = remaining (remote w) - word_of_nat (min (k + 1) 5) \<and>
    (case fst (retry_client A oob invoke ctx w) of
       Return r \<Rightarrow> retry_report err_text r = Return (if k < 5
         then (0, [''Message:        hello with retry'' @ [CHR 0x0A],
                   ''ServerTimeUnix: '' @ itoa (server_unix (remote w)) @ [CHR 0x0A]], [])
         else (1, [], [''Ping failed after retries: '' @ err_text (StatusError Unavailable ''not ready yet'') @ [CHR 0x0A]]))
     | Panic _ \<Rightarrow> False)"
proof -
  have "retry_client A oob invoke ctx w = retry_loop A oob None retry_demo_cfg 5 (retry_call invoke ctx) 5 0 w"
    by (simp add: retry_client_def Do_def retry_demo_cfg_def Let_def del: retry_loop.simps)
  moreover have "word_of_nat (k - 5) = (word_of_nat k - 5 :: 32 word)" if "\<not> k < 5"
    using that by (simp add: of_nat_diff)
  ultimately show ?thesis
    using demo_loop [OF assms(1,3,4,2,5-7), of 5 0 oob ctx] assms(5)
    by (cases "k < 5") (auto simp: retry_report_def simp del: retry_loop.simps)
qed

section \<open>A concrete client\<close>

text \<open>A transport without loss or delay.\<close>

definition direct_invoke ::
    "('sv, 'b) ping_impl \<Rightarrow> ('sv, 'b, ping_any, PingResponse) unary_interceptor \<Rightarrow> 'b gctx
       \<Rightarrow> ('sv client_world, unit) invoker" where
  "direct_invoke srv u sctx ctx m req w =
     (case pingHandler srv sctx (decoded req) (Some u) (remote w) of
        (Return (Some resp, None), sv) \<Rightarrow> (Return (Inr resp), w\<lparr>remote := sv\<rparr>)
      | (Return (_, Some e), sv) \<Rightarrow> (Return (Inl e), w\<lparr>remote := sv\<rparr>)
      | (Return (None, None), sv) \<Rightarrow> (Return (Inl (StatusError Internal [])), w\<lparr>remote := sv\<rparr>)
      | (Panic _, sv) \<Rightarrow> (Return (Inl (StatusError Unavailable [])), w\<lparr>remote := sv\<rparr>))"

lemma direct_delivers:
  fixes srv :: "('sv, 'b) ping_impl"
  shows "delivers (direct_invoke srv u sctx) (\<lambda>_. sctx) srv u"
  unfolding delivers_def
proof (intro allI impI)
  fix ctx req r sv and w :: "'sv client_world"
  assume "pingHandler srv sctx (decoded req) (Some u) (remote w) = (Return r, sv)"
  then show "\<exists>w'. remote w' = sv \<and> done_at w' = done_at w \<and>
      (\<forall>resp. r = (Some resp, None) \<longrightarrow> direct_invoke srv u sctx ctx ''/rawr.Ping/Ping'' req w = (Return (Inr resp), w')) \<and>
      (\<forall>c m. c \<noteq> OK \<and> r = (None, Some (StatusError c m)) \<longrightarrow>
         direct_invoke srv u sctx ctx ''/rawr.Ping/Ping'' req w = (Return (Inl (StatusError c m)), w'))"
    by (intro exI [of _ "w\<lparr>remote := sv\<rparr>"]) (auto simp: direct_invoke_def)
qed

type_synonym demo_failing_world = "(int, string \<rightharpoonup> slice \<times> int, string \<rightharpoonup> bytes \<times> int) failing_world"

type_synonym demo_failing_server =
  "((demo_failing_world, demo_base, ping_any, PingResponse) unary_interceptor,
    (demo_failing_world, demo_base, unit, unit) stream_interceptor, unit, unit, unit ping_handler) Server"

type_synonym demo_failing_otel = "(demo_failing_world, demo_base, demo_md, unit, unit, nat) otel_api"

text \<open>The handler as \<open>main\<close> sets it: the first three calls fail.\<close>

definition demo_failing :: demo_failing_world where
  "demo_failing = \<lparr>entropy = (\<lambda>_. 0), drawn = 0, clock = 0, limiters = [], rl_states = [], l1_objs = [], l2_objs = [],
     server_unix = 1700000000, remaining = 3\<rparr>"

definition demo_client :: "demo_failing_world client_world" where
  "demo_client = \<lparr>rnow = 0, done_at = None, float_src = (\<lambda>_. 1 / 2), floats_drawn = 0, select_src = (\<lambda>_. False),
     selects = 0, remote = demo_failing\<rparr>"

theorem retry_example_outcome_witness:
  "\<forall>T. \<exists>s w1 u w'. retry_server demo_api (T :: demo_failing_otel) demo_E demo_failing = (Return (s :: demo_failing_server), w1) \<and>
     UnaryInterceptor u \<in> set (gs_options (Server_GRPC s)) \<and>
     retry_client demo_api (\<lambda>_. 0) (direct_invoke failingHandler_Ping u (peer_at ''127.0.0.1:1'')) () demo_client =
       (Return (Some \<lparr>resp_Message = ''hello with retry'', ServerTimeUnix = 1700000000\<rparr>, None), w') \<and>
     remaining (remote w') = - 1"
proof
  fix T :: demo_failing_otel
  obtain s :: demo_failing_server and w1 where srv: "retry_server demo_api T demo_E demo_failing = (Return s, w1)"
    unfolding retry_server_def by (rule server_returns [of demo_E "[OptRecovery]"]) auto
  have "\<exists>u. UnaryInterceptor u \<in> set (gs_options (Server_GRPC s))"
    using spec_nonempty(1) [of "[OptRecovery]" demo_api T demo_E "length (rl_states demo_failing)"]
    unfolding Server_GRPC_def server_grpc(1) [OF srv [unfolded retry_server_def]] BuildServerOptions_onion by auto
  then obtain u where u: "UnaryInterceptor u \<in> set (gs_options (Server_GRPC s))" ..
  have "\<exists>w'. retry_client demo_api (\<lambda>_. 0) (direct_invoke failingHandler_Ping u (peer_at ''127.0.0.1:1'')) () demo_client =
      (Return (Some \<lparr>resp_Message = ''hello with retry'', ServerTimeUnix = 1700000000\<rparr>, None), w') \<and>
      remaining (remote w') = - 1"
    using retry_example_outcome [OF direct_delivers demo_api_recognises srv u, of demo_client 3 "\<lambda>_. 0"]
    by (auto simp: demo_client_def demo_failing_def)
  with srv u show "\<exists>s w1 u w'. retry_server demo_api T demo_E demo_failing = (Return (s :: demo_failing_server), w1) \<and>
     UnaryInterceptor u \<in> set (gs_options (Server_GRPC s)) \<and>
     retry_client demo_api (\<lambda>_. 0) (direct_invoke failingHandler_Ping u (peer_at ''127.0.0.1:1'')) () demo_client =
       (Return (Some \<lparr>resp_Message = ''hello with retry'', ServerTimeUnix = 1700000000\<rparr>, None), w') \<and>
     remaining (remote w') = - 1"
    by blast
qed

end
