(* ===== verification/Process.thy ===== *)
theory Process
  imports Clients Retry_Demo
begin

text \<open>
  The \<open>main\<close> functions of the example programs that use the network (examples/), whole: the
  server is built, services are registered, a port is listened on, a connection is made, the
  client runs, and the process ends, by returning from \<open>main\<close>, which runs the deferred calls,
  or by \<open>os.Exit\<close>, which does not.
\<close>

section \<open>How a process ends\<close>

text \<open>
  What happens beside input and output.  \<open>defers\<close> holds the deferred calls, the last first; a
  deferred call is named by what happens when it runs.
\<close>

datatype event = Listening string | Serving | Dialled string | Closed | Stopped | Flushed

record 'w proc =
  io :: "'w cli"
  events :: "event list"
  defers :: "event list"

definition started :: "'w \<Rightarrow> 'w proc" where
  "started w = \<lparr>io = \<lparr>server_side = w, cli_out = [], cli_err = []\<rparr>, events = [], defers = []\<rparr>"

definition happens :: "event \<Rightarrow> 'w proc \<Rightarrow> 'w proc" where
  "happens e p = p\<lparr>events := events p @ [e]\<rparr>"

definition defer_call :: "event \<Rightarrow> 'w proc \<Rightarrow> 'w proc" where
  "defer_call e p = p\<lparr>defers := e # defers p\<rparr>"

definition print_out :: "string \<Rightarrow> 'w proc \<Rightarrow> 'w proc" where
  "print_out s p = p\<lparr>io := say s (io p)\<rparr>"

definition print_err :: "string \<Rightarrow> 'w proc \<Rightarrow> 'w proc" where
  "print_err s p = p\<lparr>io := complain s (io p)\<rparr>"

text \<open>
  How \<open>main\<close> ends, and the exit status that makes.  A panic that nothing recovers runs the
  deferred calls, prints the panic (and a trace, left out) and ends the process with 2.
  \<open>flush\<close> is what the deferred shutdown of a tracer provider does to the output.
\<close>

datatype ending = Returns | Exits int | Panics string

definition call_deferred :: "('w cli \<Rightarrow> 'w cli) \<Rightarrow> event \<Rightarrow> 'w proc \<Rightarrow> 'w proc" where
  "call_deferred flush e p = happens e (if e = Flushed then p\<lparr>io := flush (io p)\<rparr> else p)"

definition run_main :: "('w cli \<Rightarrow> 'w cli) \<Rightarrow> ('w proc \<Rightarrow> ending \<times> 'w proc) \<Rightarrow> 'w proc \<Rightarrow> int \<times> 'w proc" where
  "run_main flush m p =
     (case m p of
        (Returns, q) \<Rightarrow> (0, fold (call_deferred flush) (defers q) q)
      | (Exits n, q) \<Rightarrow> (n, q)
      | (Panics s, q) \<Rightarrow> (2, print_err (''panic: '' @ s) (fold (call_deferred flush) (defers q) q)))"

section \<open>The steps the programs share\<close>

text \<open>A step that works on the world behind the connection, as building the server does.\<close>

definition run_go :: "('w, 'a) go \<Rightarrow> ('a \<Rightarrow> 'w proc \<Rightarrow> ending \<times> 'w proc) \<Rightarrow> 'w proc \<Rightarrow> ending \<times> 'w proc" where
  "run_go m k p =
     (case m (server_side (io p)) of
        (Panic s, w) \<Rightarrow> (Panics s, p\<lparr>io := (io p)\<lparr>server_side := w\<rparr>\<rparr>)
      | (Return srv, w) \<Rightarrow> k srv (p\<lparr>io := (io p)\<lparr>server_side := w\<rparr>\<rparr>))"

text \<open>
  The network, which is not the repository's: \<open>net.Listen\<close> with the address of its listener,
  and \<open>grpc.NewClient\<close>, the \<open>n\<close>-th of the process, to that address where a server is serving.
\<close>

record ('g, 'conn) net_api =
  net_Listen :: "string \<Rightarrow> string \<Rightarrow> gerror + string"
  grpc_NewClient :: "nat \<Rightarrow> 'g \<Rightarrow> string \<Rightarrow> gerror + 'conn"

text \<open>
  Listening, \<open>go Serve\<close>, \<open>defer Stop\<close>, dialling and \<open>defer Close\<close>; each program has its own
  words for the two failures.
\<close>

definition listen_and_dial where
  "listen_and_dial N C cannot_listen cannot_dial g k p =
     (case net_Listen N ''tcp'' ''127.0.0.1:0'' of
        Inl err \<Rightarrow> (Exits 1, print_err (cannot_listen @ '': '' @ err_text C err) p)
      | Inr addr \<Rightarrow>
          (let p = defer_call Stopped (happens Serving (happens (Listening addr) p))
           in case grpc_NewClient N 0 g addr of
                Inl err \<Rightarrow> (Exits 1, print_err (cannot_dial @ '': '' @ err_text C err) p)
              | Inr conn \<Rightarrow> k addr conn (defer_call Closed (happens (Dialled addr) p))))"

text \<open>The rest of \<open>main\<close>, which exits with a status or returns.\<close>

definition client_part :: "('w cli \<Rightarrow> 'w run) \<Rightarrow> 'w proc \<Rightarrow> ending \<times> 'w proc" where
  "client_part f p = (let (status, c) = f (io p) in (if status = 0 then Returns else Exits status, p\<lparr>io := c\<rparr>))"

section \<open>Services\<close>

text \<open>A service description of the examples: the name of the service, and a handler for each method.\<close>

type_synonym ('w, 'b, 'req, 'resp) method_handler =
  "'b gctx \<Rightarrow> (gerror + 'req) \<Rightarrow> ('w, 'b, 'req, 'resp) unary_interceptor option \<Rightarrow> ('w, 'resp unary_result) go"

record 'mh example_desc =
  ex_service :: string
  ex_methods :: "(string \<times> 'mh) list"

definition basic_desc :: "('w, 'b, 'req, 'resp) method_handler example_desc" where
  "basic_desc = \<lparr>ex_service = ''example.PanicService'', ex_methods = [(''Boom'', Boom)]\<rparr>"

definition auth_desc :: "(('lim, 'rc, 'rd, 'x) out_world_scheme, 'b, unit, unit) method_handler example_desc" where
  "auth_desc = \<lparr>ex_service = ''example.Greeter'', ex_methods = [(''Hello'', Hello)]\<rparr>"

definition auth_demo_desc :: "(('lim, 'rc, 'rd, 'x) out_world_scheme, 'b, unit, unit) method_handler example_desc" where
  "auth_demo_desc = \<lparr>ex_service = ''demo.AuthService'', ex_methods = [(''Ping'', demo_Ping)]\<rparr>"

definition ratelimit_desc :: "('w, 'b, 'msg, 'msg) method_handler example_desc" where
  "ratelimit_desc =
     \<lparr>ex_service = ''example.EchoService'',
      ex_methods = [(''Heavy'', makeHandler ''/example.EchoService/Heavy''),
                    (''Light'', makeHandler ''/example.EchoService/Light'')]\<rparr>"

definition ratelimit_demo_desc :: "('w, 'b, 'req, unit) method_handler example_desc" where
  "ratelimit_demo_desc = \<lparr>ex_service = ''demo.PingService'', ex_methods = [(''Ping'', rapid_Ping)]\<rparr>"

definition RegisterService ::
    "('w, 'b, 'req, 'resp) method_handler example_desc
       \<Rightarrow> (('w, 'b, 'req, 'resp) unary_interceptor, 's, (string \<times> ('w, 'b, 'req, 'resp) method_handler) list) grpc_server
       \<Rightarrow> (('w, 'b, 'req, 'resp) unary_interceptor, 's, (string \<times> ('w, 'b, 'req, 'resp) method_handler) list) grpc_server" where
  "RegisterService d g = g\<lparr>gs_services := gs_services g @ [(ex_service d, ex_methods d)]\<rparr>"

text \<open>
  gRPC calls a method by the path made of the service's name and the method's.  The handlers
  of the examples spell that path out again for the interceptors, as policies match on it: it
  is the same.  So the group of the larger rate limit example holds its heavy method alone.
\<close>

definition method_path :: "string \<Rightarrow> string \<Rightarrow> string" where
  "method_path service m = ''/'' @ service @ ''/'' @ m"

definition announces :: "('w, 'b, 'req, 'resp) method_handler \<Rightarrow> string \<Rightarrow> bool" where
  "announces h p \<longleftrightarrow> (\<forall>req. \<exists>k. \<forall>ctx u. h ctx (Inr req) (Some u) = u ctx req p k)"

definition announces_paths :: "('w, 'b, 'req, 'resp) method_handler example_desc \<Rightarrow> bool" where
  "announces_paths d \<longleftrightarrow> list_all (\<lambda>(m, h). announces h (method_path (ex_service d) m)) (ex_methods d)"

lemma services_see_their_paths:
  "announces_paths auth_desc" "announces_paths auth_demo_desc" "announces_paths ratelimit_desc" "announces_paths ratelimit_demo_desc"
  "ping_full_method = method_path (ServiceName ServiceDesc) ''Ping''"
  by (auto simp: announces_paths_def announces_def method_path_def auth_desc_def auth_demo_desc_def ratelimit_desc_def
      ratelimit_demo_desc_def Hello_def demo_Ping_def rapid_Ping_def call_method_def makeHandler_def ping_full_method_def)

lemma heavy_alone:
  "limited_group (Some heavy_resolver) (method_path ''example.EchoService'' m) \<noteq> None \<longleftrightarrow> m = ''Heavy''"
  by (simp add: heavy_group method_path_def)

section \<open>The programs\<close>

definition basic_program where
  "basic_program A T E N C p =
     run_main id (run_go (basic_main A T E) (\<lambda>srv.
       listen_and_dial N C ''failed to listen'' ''failed to dial'' (RegisterService basic_desc (Server_GRPC srv))
         (\<lambda>addr conn. client_part (basic_client C conn)))) p"

definition auth_program where
  "auth_program A T E N C p =
     run_main id (run_go (auth_main A T E) (\<lambda>srv.
       listen_and_dial N C ''failed to listen'' ''failed to dial'' (RegisterService auth_desc (Server_GRPC srv))
         (\<lambda>addr conn. client_part (auth_client C conn)))) p"

definition auth_demo_program where
  "auth_demo_program A T E N C p =
     run_main id (\<lambda>p. run_go (auth_demo_main A T E) (\<lambda>srv.
       listen_and_dial N C ''listen'' ''dial'' (RegisterService auth_demo_desc (Server_GRPC srv))
         (\<lambda>addr conn. client_part (auth_demo_client C conn)))
       (print_out [] (print_out ''auth-demo: demonstrates goRawrSquirrel authentication middleware'' p))) p"

definition ratelimit_demo_program where
  "ratelimit_demo_program A T E N C p =
     run_main id (\<lambda>p. run_go (ratelimit_demo_main A T E) (\<lambda>srv.
       listen_and_dial N C ''listen'' ''dial'' (RegisterService ratelimit_demo_desc (Server_GRPC srv))
         (\<lambda>addr conn. client_part (ratelimit_demo_client C conn)))
       (print_out [] (print_out ''ratelimit-demo: demonstrates goRawrSquirrel token-bucket rate limiting'' p))) p"

text \<open>
  The larger rate limit example makes a second connection, with the interceptor that puts a
  peer into the context, and closes it after one call.
\<close>

definition ratelimit_calls where
  "ratelimit_calls N C g addr conn p =
     (let p = print_out blocked_header p
      in case grpc_NewClient N 1 g addr of
           Inl err \<Rightarrow> (Exits 1, print_err (''failed to dial (blocked): '' @ err_text C err) p)
         | Inr blockedConn \<Rightarrow>
             (let p = happens (Dialled addr) p;
                  p = happens Closed (p\<lparr>io := blocked_call C blockedConn (io p)\<rparr>)
              in (Returns, p\<lparr>io := echo_methods C conn (io p)\<rparr>)))"

definition ratelimit_program where
  "ratelimit_program A T E N C blocker_text p =
     run_main id (\<lambda>p.
       case loopback_blocker of
         Inl err \<Rightarrow> (Exits 1, print_err (''failed to create IP blocker: '' @ blocker_text err) p)
       | Inr _ \<Rightarrow> run_go (\<lambda>w. the (ratelimit_main A T E w)) (\<lambda>srv.
           let g = RegisterService ratelimit_desc (Server_GRPC srv)
           in listen_and_dial N C ''failed to listen'' ''failed to dial'' g (ratelimit_calls N C g)) p) p"

definition ping_basic_program where
  "ping_basic_program A T E N C seeded now p =
     run_main id (run_go (ping_basic_main A T E seeded now) (\<lambda>srv.
       listen_and_dial N C ''failed to listen'' ''failed to dial'' (Server_GRPC srv)
         (\<lambda>addr conn. client_part (ping_basic_client C conn)))) p"

text \<open>
  The tracing example: an exporter to standard output in a provider that batches, shut down by
  a deferred call, the first to be deferred and so the last to run.
\<close>

record ('ex, 'tp) trace_sdk =
  stdouttrace_New :: "gerror + 'ex"
  NewTracerProvider :: "'ex \<Rightarrow> 'tp"

definition otel_program where
  "otel_program A T E N C sdk flush seeded now p =
     run_main flush (\<lambda>p.
       case stdouttrace_New sdk of
         Inl err \<Rightarrow> (Exits 1, print_err (''failed to create stdout exporter: '' @ err_text C err) p)
       | Inr exporter \<Rightarrow>
           run_go (otel_main A T E (NewTracerProvider sdk exporter) seeded now) (\<lambda>srv.
             listen_and_dial N C ''failed to listen'' ''failed to dial'' (Server_GRPC srv)
               (\<lambda>addr conn. client_part (otel_client C conn)))
             (defer_call Flushed p)) p"

text \<open>
  The retry example.  Its world holds the timers of the client and, as \<open>remote\<close>, the world of
  the server with the handler's counter, set to three.
\<close>

definition on_remote :: "('sv, 'a) go \<Rightarrow> (('sv, 'y) client_world_scheme, 'a) go" where
  "on_remote m w = (let (out, sv) = m (remote w) in (out, w\<lparr>remote := sv\<rparr>))"

definition retry_main where
  "retry_main (A :: ('b, 'md) grpc_api) T E seeded now (sv :: ('lim, 'rc, 'rd, 'x) failing_world_scheme) =
     go_bind (retry_server A T E)
       (\<lambda>srv. go_return (RegisterPing seeded now
          (Some (UserPing (failingHandler_Ping :: (('lim, 'rc, 'rd, 'x) failing_world_scheme, 'b) ping_impl))) srv))
       (sv\<lparr>remaining := 3\<rparr>)"

definition retry_report_io :: "client_api \<Rightarrow> PingResponse option \<times> gerror option \<Rightarrow> 'w proc \<Rightarrow> ending \<times> 'w proc" where
  "retry_report_io C r p =
     (case retry_report (err_text C) r of
        Return (status, out, errs) \<Rightarrow>
          (if status = 0 then Returns else Exits status,
           p\<lparr>io := (io p)\<lparr>cli_out := cli_out (io p) @ out, cli_err := cli_err (io p) @ errs\<rparr>\<rparr>)
      | Panic s \<Rightarrow> (Panics s, p))"

definition retry_program where
  "retry_program A T E N C oob ctx seeded now p =
     run_main id (run_go (on_remote (retry_main A T E seeded now)) (\<lambda>srv.
       listen_and_dial N C ''listen'' ''dial'' (Server_GRPC srv)
         (\<lambda>addr conn. run_go (retry_client A oob conn ctx) (retry_report_io C)))) p"

end
