(* ===== verification/Programs.thy ===== *)
theory Programs
  imports Process
begin

text \<open>
  What the example programs do from start to exit, over the network as it is relied on: when
  nothing can be reached, when connections are made but carry nothing, and when they carry
  pings.
\<close>

section \<open>The network\<close>

text \<open>
  Nothing is reached: the port cannot be listened on, or it is and no client can be made.
\<close>

definition unreachable :: "('g, 'conn) net_api \<Rightarrow> gerror + string \<Rightarrow> gerror \<Rightarrow> bool" where
  "unreachable N L err \<longleftrightarrow>
     net_Listen N ''tcp'' ''127.0.0.1:0'' = L \<and>
     (case L of Inl e \<Rightarrow> e = err | Inr addr \<Rightarrow> \<forall>n g. grpc_NewClient N n g addr = Inl err)"

text \<open>The port is listened on, and connections to a server are made, of which \<open>P\<close> holds.\<close>

definition connects :: "('g, 'conn) net_api \<Rightarrow> string \<Rightarrow> ('g \<Rightarrow> 'conn \<Rightarrow> bool) \<Rightarrow> bool" where
  "connects N addr P \<longleftrightarrow>
     net_Listen N ''tcp'' ''127.0.0.1:0'' = Inr addr \<and> (\<forall>n g. \<exists>I. grpc_NewClient N n g addr = Inr I \<and> P g I)"

lemma listen_and_dial_unreachable:
  assumes "unreachable N L err"
  shows "listen_and_dial N C a b g k p =
    (Exits 1, print_err ((if isl L then a else b) @ '': '' @ err_text C err)
       (case L of Inl _ \<Rightarrow> p | Inr addr \<Rightarrow> defer_call Stopped (happens Serving (happens (Listening addr) p))))"
  using assms by (cases L) (simp_all add: unreachable_def listen_and_dial_def Let_def)

lemma listen_and_dial_connects:
  assumes "connects N addr P"
  obtains I where "P g I" "listen_and_dial N C a b g k p =
    k addr I (defer_call Closed (happens (Dialled addr) (defer_call Stopped (happens Serving (happens (Listening addr) p)))))"
proof -
  obtain I where "grpc_NewClient N 0 g addr = Inr I" "P g I" using assms unfolding connects_def by blast
  with assms that show thesis by (simp add: connects_def listen_and_dial_def Let_def)
qed

section \<open>Servers come up\<close>

text \<open>
  No program asks for a cache, so \<open>NewServer\<close> returns; there is an interceptor, since all of
  them ask for recovery, and no service yet.
\<close>

type_synonym ('w, 'b, 'req, 'resp, 'srv, 'ss, 'tp, 'pr, 'h) go_server =
  "(('w, 'b, 'req, 'resp) unary_interceptor, ('w, 'b, 'srv, 'ss) stream_interceptor, 'tp, 'pr, 'h) Server"

definition unary_of :: "('u, 's) ServerOption list \<Rightarrow> 'u option" where
  "unary_of opts = (case [u. UnaryInterceptor u \<leftarrow> opts] of [] \<Rightarrow> None | u # _ \<Rightarrow> Some u)"

lemma unary_of_some: "UnaryInterceptor u \<in> set opts \<Longrightarrow> \<exists>v. unary_of opts = Some v \<and> UnaryInterceptor v \<in> set opts"
proof (induction opts)
  case (Cons x xs)
  then show ?case by (cases x) (auto simp: unary_of_def split: list.splits)
qed simp

definition unary_is :: "'u \<Rightarrow> ('u, 's, 'tp, 'pr, 'h) Server \<Rightarrow> bool" where
  "unary_is u s \<longleftrightarrow> UnaryInterceptor u \<in> set (gs_options (Server_GRPC s)) \<and> unary_of (gs_options (Server_GRPC s)) = Some u"

lemma server_up:
  assumes "list_all (opt_ok E) opts" "OptRecovery \<in> set opts"
  obtains s u where "NewServer (map (option_of A T E) opts) w = (Return (s :: (_, _, 'req, 'resp, 'srv, 'ss, _, _, 'h) go_server), opts_world E w opts zero_config)"
    "unary_is u s" "gs_services (Server_GRPC s) = []"
proof -
  obtain s where s: "NewServer (map (option_of A T E) opts) w = (Return (s :: (_, _, 'req, 'resp, 'srv, 'ss, _, _, 'h) go_server), opts_world E w opts zero_config)"
    by (rule server_returns [OF assms(1)])
  have "\<exists>u. UnaryInterceptor u \<in> set (gs_options (Server_GRPC s))"
    using spec_nonempty(1) [OF assms(2), of A T E "length (rl_states w)"]
    unfolding Server_GRPC_def server_grpc(1) [OF s] BuildServerOptions_onion by auto
  then obtain u where "unary_is u s" using unary_of_some unfolding unary_is_def by fast
  then show thesis using that [OF s] server_grpc(2) [OF s] by (simp add: Server_GRPC_def)
qed

lemma register_ping_up:
  assumes "m w = (Return s0, w')" "unary_is u s0" "gs_services (Server_GRPC s0) = []"
  obtains s where "go_bind m (\<lambda>srv. go_return (RegisterPing seeded now (Some h) srv)) w = (Return s, w')"
    "unary_is u s" "gs_services (Server_GRPC s) = [(''rawr.Ping'', h)]"
  using assms by (simp add: go_bind_def go_return_def RegisterPing_def Register_def Server_GRPC_def Let_def unary_is_def)

lemma basic_up:
  obtains s u where "basic_main A T E w = (Return s, w)" "unary_is u s"
    "gs_services (Server_GRPC s) = []"
  by (rule server_up [of E "[OptRecovery]" A T w]) (auto simp: basic_main_def)

lemma auth_up:
  obtains s where "auth_main A T E w = (Return s, w)"
  by (rule server_up [of E "[OptRecovery, OptAuth (fakeAuthFunc A)]" A T w]) (auto simp: auth_main_def)

lemma auth_demo_up:
  obtains s where "auth_demo_main A T E w = (Return s, w)"
  by (rule server_up [of E "[OptRecovery, OptAuth (demoAuth A)]" A T w]) (auto simp: auth_demo_main_def)

lemma ratelimit_demo_up:
  obtains s w' where "ratelimit_demo_main A T E w = (Return (s :: (_, _, 'req, 'resp, 'srv, 'ss, _, _, 'h) go_server), w')"
    "limiters w' = limiters w @ [rate_NewLimiter (api_rate E) (Fin 2) 2]"
proof -
  let ?opts = "[OptRecovery, OptRateLimit (Fin 2) 2]"
  show thesis
    apply (rule server_up [of E ?opts A T w])
      apply simp
     apply simp
    apply (rule that)
     apply (simp only: ratelimit_demo_main_def)
    apply (simp add: Let_def)
    done
qed

lemma ratelimit_up:
  obtains b s w' where "loopback_blocker = Inr b"
    "the (ratelimit_main A T E w) = (Return (s :: (_, _, 'req, 'resp, 'srv, 'ss, _, _, 'h) go_server), w')"
    "limiters w' = limiters w @ [rate_NewLimiter (api_rate E) (Fin 10) 5]"
proof -
  obtain b where b: "loopback_blocker = Inr b" using loopback_blocker_built by blast
  let ?opts = "[OptRecovery, OptIPBlocker (Some b), OptResolver (Some heavy_resolver), OptRateLimit (Fin 10) 5]"
  show thesis
    apply (rule server_up [of E ?opts A T w])
      apply simp
     apply simp
    apply (rule that [OF b])
     apply (simp only: ratelimit_main_def b sum.case option.sel)
    apply (simp add: Let_def)
    done
qed

lemma ping_basic_up:
  obtains s u where "ping_basic_main A T E seeded now w = (Return (s :: (_, _, 'req, 'resp, 'srv, 'ss, _, _, 'h ping_handler) go_server), w)"
    "unary_is u s" "gs_services (Server_GRPC s) = [(''rawr.Ping'', DefaultHandler)]"
proof -
  obtain s0 u where s0: "NewServer (map (option_of A T E) [OptRecovery]) w = (Return (s0 :: (_, _, 'req, 'resp, 'srv, 'ss, _, _, 'h ping_handler) go_server), opts_world E w [OptRecovery] zero_config)"
    "unary_is u s0" "gs_services (Server_GRPC s0) = []"
    by (rule server_up [of E "[OptRecovery]" A T w]) auto
  show thesis
    by (rule register_ping_up [where m = "NewServer (map (option_of A T E) [OptRecovery])" and seeded = seeded and now = now and h = DefaultHandler, OF s0])
       (auto simp: ping_basic_main_def intro: that)
qed

lemma otel_up:
  obtains s u where "otel_main A T E tp seeded now w = (Return (s :: (_, _, 'req, 'resp, 'srv, 'ss, _, _, 'h ping_handler) go_server), w)"
    "unary_is u s" "gs_services (Server_GRPC s) = [(''rawr.Ping'', DefaultHandler)]"
proof -
  let ?opts = "[OptRecovery, OptTracing \<lparr>TracerProvider = Some tp, Propagators = None\<rparr>]"
  obtain s0 u where s0: "NewServer (map (option_of A T E) ?opts) w = (Return (s0 :: (_, _, 'req, 'resp, 'srv, 'ss, _, _, 'h ping_handler) go_server), opts_world E w ?opts zero_config)"
    "unary_is u s0" "gs_services (Server_GRPC s0) = []"
    by (rule server_up [of E ?opts A T w]) auto
  show thesis
    by (rule register_ping_up [where m = "NewServer (map (option_of A T E) ?opts)" and seeded = seeded and now = now
          and h = DefaultHandler, OF s0])
       (auto simp: otel_main_def intro: that)
qed

lemma retry_up:
  fixes sv :: "('lim, 'rc, 'rd, 'x) failing_world_scheme" and A :: "('b, 'md) grpc_api"
  obtains s0 s u where "retry_server A T E (sv\<lparr>remaining := 3\<rparr>) =
      (Return (s0 :: (_, _, 'req, 'resp, 'srv, 'ss, _, _, (('lim, 'rc, 'rd, 'x) failing_world_scheme, 'b) ping_impl ping_handler) go_server), sv\<lparr>remaining := 3\<rparr>)"
    "unary_is u s0"
    "retry_main A T E seeded now sv = (Return (s :: (_, _, 'req, 'resp, 'srv, 'ss, _, _, (('lim, 'rc, 'rd, 'x) failing_world_scheme, 'b) ping_impl ping_handler) go_server), sv\<lparr>remaining := 3\<rparr>)"
    "unary_is u s"
    "gs_services (Server_GRPC s) = [(''rawr.Ping'', UserPing failingHandler_Ping)]"
proof -
  obtain s0 u where s0: "NewServer (map (option_of A T E) [OptRecovery]) (sv\<lparr>remaining := 3\<rparr>) =
      (Return (s0 :: (_, _, 'req, 'resp, 'srv, 'ss, _, _, (('lim, 'rc, 'rd, 'x) failing_world_scheme, 'b) ping_impl ping_handler) go_server), opts_world E (sv\<lparr>remaining := 3\<rparr>) [OptRecovery] zero_config)"
    "unary_is u s0" "gs_services (Server_GRPC s0) = []"
    by (rule server_up [of E "[OptRecovery]" A T "sv\<lparr>remaining := 3\<rparr>"]) auto
  then have srv: "retry_server A T E (sv\<lparr>remaining := 3\<rparr>) = (Return s0, sv\<lparr>remaining := 3\<rparr>)"
    by (simp add: retry_server_def)
  show thesis
    by (rule register_ping_up [where m = "retry_server A T E" and seeded = seeded and now = now
          and h = "UserPing failingHandler_Ping", OF srv s0(2,3)])
       (rule that [OF srv s0(2)]; simp add: retry_main_def)
qed

lemma retry_up_remote:
  fixes w :: "(('lim, 'rc, 'rd, 'x) failing_world_scheme, 'y) client_world_scheme" and A :: "('b, 'md) grpc_api"
  obtains s0 s u where "retry_server A T E (remote w\<lparr>remaining := 3\<rparr>) =
      (Return (s0 :: (_, _, 'req, 'resp, 'srv, 'ss, _, _, (('lim, 'rc, 'rd, 'x) failing_world_scheme, 'b) ping_impl ping_handler) go_server),
       remote w\<lparr>remaining := 3\<rparr>)"
    "unary_is u s0"
    "on_remote (retry_main A T E seeded now) w =
      (Return (s :: (_, _, 'req, 'resp, 'srv, 'ss, _, _, (('lim, 'rc, 'rd, 'x) failing_world_scheme, 'b) ping_impl ping_handler) go_server),
       w\<lparr>remote := remote w\<lparr>remaining := 3\<rparr>\<rparr>)"
    "unary_is u s"
    "gs_services (Server_GRPC s) = [(''rawr.Ping'', UserPing failingHandler_Ping)]"
proof -
  show thesis
    apply (rule retry_up [of A T E "remote w" seeded now])
    apply (rule that)
        apply assumption
       apply assumption
      apply (simp add: on_remote_def)
     apply assumption
    apply assumption
    done
qed

section \<open>Nothing is reached\<close>

lemma proc_simps [simp]:
  "io (happens e p) = io p" "events (happens e p) = events p @ [e]" "defers (happens e p) = defers p"
  "io (defer_call e p) = io p" "events (defer_call e p) = events p" "defers (defer_call e p) = e # defers p"
  "events (print_out s p) = events p" "defers (print_out s p) = defers p" "io (print_out s p) = say s (io p)"
  "events (print_err s p) = events p" "defers (print_err s p) = defers p" "io (print_err s p) = complain s (io p)"
  "io (started w) = \<lparr>server_side = w, cli_out = [], cli_err = []\<rparr>" "events (started w) = []" "defers (started w) = []"
  by (simp_all add: happens_def defer_call_def print_out_def print_err_def started_def)

text \<open>A program that gives up: it exits with one, prints one complaint, and has got as far as \<open>evs\<close>.\<close>

definition gives_up :: "int \<times> 'w proc \<Rightarrow> string \<Rightarrow> event list \<Rightarrow> bool" where
  "gives_up r complaint evs \<longleftrightarrow>
     fst r = 1 \<and> cli_err (io (snd r)) = [complaint @ newline] \<and> events (snd r) = evs"

definition reached :: "gerror + string \<Rightarrow> event list" where
  "reached L = (case L of Inl _ \<Rightarrow> [] | Inr addr \<Rightarrow> [Listening addr, Serving])"

definition cannot :: "client_api \<Rightarrow> gerror + string \<Rightarrow> gerror \<Rightarrow> string \<Rightarrow> string \<Rightarrow> string" where
  "cannot C L err listen dial = (if isl L then listen else dial) @ '': '' @ err_text C err"

lemma listen_gives_up:
  assumes "unreachable N L err" "cli_err (io p) = []" "events p = []"
  shows "\<exists>q. listen_and_dial N C a b g k p = (Exits 1, q) \<and> gives_up (1, q) (cannot C L err a b) (reached L)"
  using assms by (cases L) (simp_all add: listen_and_dial_unreachable gives_up_def reached_def complain_def cannot_def)

lemma gives_up_main:
  assumes "unreachable N L err" "m (server_side (io p)) = (Return s, w')" "cli_err (io p) = []" "events p = []"
    and "M q = run_go m (\<lambda>srv. listen_and_dial N C a b (g srv) (k srv)) p"
  shows "gives_up (run_main flush M q) (cannot C L err a b) (reached L)"
  using listen_gives_up [OF assms(1), of "p\<lparr>io := (io p)\<lparr>server_side := w'\<rparr>\<rparr>" C a b "g s" "k s"] assms(2-5)
  by (auto simp: run_main_def run_go_def)

lemma basic_unreachable:
  assumes "unreachable N L err"
  shows "gives_up (basic_program A T E N C (started w)) (cannot C L err ''failed to listen'' ''failed to dial'') (reached L)"
  unfolding basic_program_def
  by (rule basic_up [of A T E w]) (rule gives_up_main [OF assms, where m = "basic_main A T E" and p = "started w"], auto)

lemma auth_unreachable:
  assumes "unreachable N L err"
  shows "gives_up (auth_program A T E N C (started w)) (cannot C L err ''failed to listen'' ''failed to dial'') (reached L)"
  unfolding auth_program_def
  by (rule auth_up [of A T E w]) (rule gives_up_main [OF assms, where m = "auth_main A T E" and p = "started w"], auto)

lemma auth_demo_unreachable:
  assumes "unreachable N L err"
  shows "gives_up (auth_demo_program A T E N C (started w)) (cannot C L err ''listen'' ''dial'') (reached L)"
  unfolding auth_demo_program_def
  by (rule auth_demo_up [of A T E w]) (rule gives_up_main [OF assms, where m = "auth_demo_main A T E"
        and p = "print_out [] (print_out ''auth-demo: demonstrates goRawrSquirrel authentication middleware'' (started w))"], auto)

lemma ratelimit_demo_unreachable:
  assumes "unreachable N L err"
  shows "gives_up (ratelimit_demo_program A T E N C (started w)) (cannot C L err ''listen'' ''dial'') (reached L)"
  unfolding ratelimit_demo_program_def
  by (rule ratelimit_demo_up [of A T E w]) (rule gives_up_main [OF assms, where m = "ratelimit_demo_main A T E"
        and p = "print_out [] (print_out ''ratelimit-demo: demonstrates goRawrSquirrel token-bucket rate limiting'' (started w))"], auto)

lemma ratelimit_unreachable:
  assumes "unreachable N L err"
  shows "gives_up (ratelimit_program A T E N C blocker_text (started w))
    (cannot C L err ''failed to listen'' ''failed to dial'') (reached L)"
proof -
  obtain b where b: "loopback_blocker = Inr b" using loopback_blocker_built by blast
  show ?thesis
    unfolding ratelimit_program_def Let_def b sum.case
    by (rule ratelimit_up [of A T E w]) (rule gives_up_main [OF assms, where m = "\<lambda>w. the (ratelimit_main A T E w)"
          and p = "started w"], auto)
qed

lemma ping_basic_unreachable:
  assumes "unreachable N L err"
  shows "gives_up (ping_basic_program A T E N C seeded now (started w))
    (cannot C L err ''failed to listen'' ''failed to dial'') (reached L)"
  unfolding ping_basic_program_def
  by (rule ping_basic_up [of A T E seeded now w])
     (rule gives_up_main [OF assms, where m = "ping_basic_main A T E seeded now" and p = "started w"], auto)

lemma otel_unreachable:
  assumes "unreachable N L err" "stdouttrace_New sdk = Inr ex"
  shows "gives_up (otel_program A T E N C sdk flush seeded now (started w))
    (cannot C L err ''failed to listen'' ''failed to dial'') (reached L)"
  unfolding otel_program_def assms(2) sum.case
  by (rule otel_up [of A T E "NewTracerProvider sdk ex" seeded now w])
     (rule gives_up_main [OF assms(1), where m = "otel_main A T E (NewTracerProvider sdk ex) seeded now"
        and p = "defer_call Flushed (started w)"], auto)

lemma retry_unreachable:
  assumes "unreachable N L err"
  shows "gives_up (retry_program A T E N C oob ctx seeded now (started w)) (cannot C L err ''listen'' ''dial'') (reached L)"
  unfolding retry_program_def
  by (rule retry_up_remote [where A = A and T = T and E = E and seeded = seeded and now = now and w = w])
     (rule gives_up_main [OF assms, where m = "on_remote (retry_main A T E seeded now)" and p = "started w"], auto)

text \<open>
  C39: no example program outlives a failure of the network: when the port cannot be listened on,
  or it can but no client be made, every program exits with one after one complaint, in its own
  words, and does nothing else; in the second case its server is left serving, because
  \<open>os.Exit\<close> does not run the deferred \<open>Stop\<close>.
\<close>

theorem programs_without_network:
  assumes "unreachable N L err" "unreachable P L err" "unreachable R L err"
    and "stdouttrace_New sdk = Inr ex"
    and failed: "failed = cannot C L err ''failed to listen'' ''failed to dial''"
    and short: "short = cannot C L err ''listen'' ''dial''"
    and evs: "evs = (case L of Inl _ \<Rightarrow> [] | Inr addr \<Rightarrow> [Listening addr, Serving])"
  shows "gives_up (basic_program A T E N C (started w)) failed evs \<and>
    gives_up (auth_program A T E N C (started w)) failed evs \<and>
    gives_up (auth_demo_program A T E N C (started w)) short evs \<and>
    gives_up (ratelimit_demo_program A T E N C (started w)) short evs \<and>
    gives_up (ratelimit_program A T E N C blocker_text (started w)) failed evs \<and>
    gives_up (ping_basic_program A U E P C seeded now (started v)) failed evs \<and>
    gives_up (otel_program A U E P C sdk flush seeded now (started v)) failed evs \<and>
    gives_up (retry_program A V E R C oob ctx seeded now (started x)) short evs"
  unfolding failed short evs
  by (intro conjI; unfold reached_def [symmetric];
      rule basic_unreachable [OF assms(1)] auth_unreachable [OF assms(1)] auth_demo_unreachable [OF assms(1)]
        ratelimit_demo_unreachable [OF assms(1)] ratelimit_unreachable [OF assms(1)]
        ping_basic_unreachable [OF assms(2)] otel_unreachable [OF assms(2,4)] retry_unreachable [OF assms(3)])

section \<open>A connection is made\<close>

text \<open>What has happened when \<open>main\<close> returns, and when the client exits.\<close>

abbreviation went_well :: "string \<Rightarrow> event list" where
  "went_well addr \<equiv> [Listening addr, Serving, Dialled addr, Closed, Stopped]"

abbreviation left_serving :: "string \<Rightarrow> event list" where
  "left_serving addr \<equiv> [Listening addr, Serving, Dialled addr]"

lemma client_main:
  assumes "connects N addr P" "m (server_side (io p)) = (Return s, w')" "events p = []"
    and "M q = run_go m (\<lambda>srv. listen_and_dial N C a b (g srv) (\<lambda>addr conn. client_part (f conn))) p"
  obtains I st c r where "P (g s) I" "f I ((io p)\<lparr>server_side := w'\<rparr>) = (st, c)" "run_main flush M q = (st, r)"
    "events r = (if st = 0 then went_well addr @ defers p else left_serving addr)"
    "st = 0 \<Longrightarrow> defers p = [] \<Longrightarrow> io r = c" "st = 0 \<Longrightarrow> defers p = [Flushed] \<Longrightarrow> io r = flush c" "st \<noteq> 0 \<Longrightarrow> io r = c"
proof -
  let ?p = "p\<lparr>io := (io p)\<lparr>server_side := w'\<rparr>\<rparr>"
  obtain I where I: "P (g s) I" "listen_and_dial N C a b (g s) (\<lambda>addr conn. client_part (f conn)) ?p =
      client_part (f I) (defer_call Closed (happens (Dialled addr) (defer_call Stopped (happens Serving (happens (Listening addr) ?p)))))"
    by (rule listen_and_dial_connects [OF assms(1)])
  obtain st c where f: "f I ((io p)\<lparr>server_side := w'\<rparr>) = (st, c)" by (cases "f I ((io p)\<lparr>server_side := w'\<rparr>)")
  have events_fold: "events (fold (call_deferred flush) ds x) = events x @ ds" for ds x
    by (induction ds arbitrary: x) (simp_all add: call_deferred_def)
  obtain r where "run_main flush M q = (st, r)" "events r = (if st = 0 then went_well addr @ defers p else left_serving addr)"
    "st = 0 \<longrightarrow> defers p = [] \<longrightarrow> io r = c" "st = 0 \<longrightarrow> defers p = [Flushed] \<longrightarrow> io r = flush c" "st \<noteq> 0 \<longrightarrow> io r = c"
    using assms(2-4) I(2) f
    by (cases "st = 0") (simp_all add: run_main_def run_go_def client_part_def events_fold call_deferred_def)
  with I(1) f that show thesis by blast
qed

section \<open>Connections that carry nothing\<close>

text \<open>
  gRPC's client encodes with a codec of its registry, here the one for \<open>proto\<close>; a call whose
  request that codec refuses fails with \<open>Internal\<close>.  The stream may have been opened by then,
  but no message follows, so no interceptor and no handler of the server runs: its state is as
  it was.
\<close>

definition encodes_with :: "'m Codec \<Rightarrow> ('sv, 'm) invoke \<Rightarrow> bool" where
  "encodes_with c I \<longleftrightarrow>
     (\<forall>ctx method args reply sv. isl (codec_Marshal c args) \<longrightarrow>
        (\<exists>t. I ctx method args reply sv = ((Some (StatusError Internal t), reply), sv)))"

definition uses_registry :: "('g \<Rightarrow> string \<Rightarrow> 'm Codec option) \<Rightarrow> 'g \<Rightarrow> 's \<Rightarrow> ('sv, 'm) invoke \<Rightarrow> bool" where
  "uses_registry GetCodec reg srv I \<longleftrightarrow> (\<exists>c. GetCodec reg ''proto'' = Some c \<and> encodes_with c I)"

lemma registry_marshals_first:
  "finds_codecs RegisterCodec GetCodec \<Longrightarrow> uses_registry GetCodec (ping_init RegisterCodec K reg) srv I \<Longrightarrow> marshals_first K I"
  by (simp add: uses_registry_def init_replaces_proto encodes_with_def marshals_first_def pingCodec_def)

text \<open>A program whose client fails, with one complaint, and whose server is left as it was built.\<close>

definition fails_unserved :: "string \<Rightarrow> string \<Rightarrow> 'w \<Rightarrow> int \<times> 'w proc \<Rightarrow> bool" where
  "fails_unserved addr complaint w r \<longleftrightarrow>
     fst r = 1 \<and> cli_err (io (snd r)) = [complaint @ newline] \<and> server_side (io (snd r)) = w \<and>
     events (snd r) = left_serving addr"

lemma fails_unserved_main:
  assumes "connects N addr P" "m (server_side (io p)) = (Return s, w')" "events p = []"
    and "M q = run_go m (\<lambda>srv. listen_and_dial N C a b (g srv) (\<lambda>addr conn. client_part (f conn))) p"
    and "\<And>I c. P (g s) I \<Longrightarrow> \<exists>d. f I c = (1, d) \<and> server_side d = server_side c \<and> cli_err d = cli_err c @ [complaint @ newline]"
    and "cli_err (io p) = []"
  shows "fails_unserved addr complaint w' (run_main flush M q)"
proof (rule client_main [where m = m and p = p and M = M and q = q and g = g and f = f and s = s, OF assms(1-4)])
  fix I st c r
  assume I: "P (g s) I" and f: "f I ((io p)\<lparr>server_side := w'\<rparr>) = (st, c)" and r: "run_main flush M q = (st, r)"
    "events r = (if st = 0 then went_well addr @ defers p else left_serving addr)" "st \<noteq> 0 \<Longrightarrow> io r = c"
  from assms(5) [OF I, of "(io p)\<lparr>server_side := w'\<rparr>"] f r assms(6)
  show ?thesis by (auto simp: fails_unserved_def)
qed

lemma runs_main:
  assumes "connects N addr P" "m (server_side (io p)) = (Return s, w')" "events p = []"
    and "M q = run_go m (\<lambda>srv. listen_and_dial N C a b (g srv) (\<lambda>addr conn. client_part (f conn))) p"
    and "\<And>I. P (g s) I \<Longrightarrow> \<exists>d. f I ((io p)\<lparr>server_side := w'\<rparr>) = (0, d) \<and> Q d"
    and "defers p = [] \<or> defers p = [Flushed]"
  shows "\<exists>d r. run_main flush M q = (0, r) \<and> events r = went_well addr @ defers p \<and> Q d \<and>
    io r = (if defers p = [] then d else flush d)"
proof (rule client_main [where m = m and p = p and M = M and q = q and g = g and f = f and s = s, OF assms(1-4)])
  fix I st c r
  assume I: "P (g s) I" and f: "f I ((io p)\<lparr>server_side := w'\<rparr>) = (st, c)" and r: "run_main flush M q = (st, r)"
    "events r = (if st = 0 then went_well addr @ defers p else left_serving addr)"
    "st = 0 \<Longrightarrow> defers p = [] \<Longrightarrow> io r = c" "st = 0 \<Longrightarrow> defers p = [Flushed] \<Longrightarrow> io r = flush c"
  have "st = 0" "Q c" using assms(5) [OF I] f by auto
  with r assms(6) show ?thesis by auto
qed

lemma auth_program_fails:
  assumes "connects N addr P" "\<And>g I. P g I \<Longrightarrow> marshals_first K I" "reads_statuses C"
  shows "fails_unserved addr (''expected Unauthenticated, got '' @ code_name C Internal) w (auth_program A T E N C (started w))"
    "fails_unserved addr (''expected Unauthenticated, got '' @ code_name C Internal) w (auth_demo_program A T E N C (started w))"
proof -
  show "fails_unserved addr (''expected Unauthenticated, got '' @ code_name C Internal) w (auth_program A T E N C (started w))"
    unfolding auth_program_def
    by (rule auth_up [of A T E w]) (rule fails_unserved_main [OF assms(1), where m = "auth_main A T E" and p = "started w"],
        use auth_clients_refused(1) [OF assms(2,3)] in auto)
  show "fails_unserved addr (''expected Unauthenticated, got '' @ code_name C Internal) w (auth_demo_program A T E N C (started w))"
    unfolding auth_demo_program_def
    by (rule auth_demo_up [of A T E w]) (rule fails_unserved_main [OF assms(1), where m = "auth_demo_main A T E"
        and p = "print_out [] (print_out ''auth-demo: demonstrates goRawrSquirrel authentication middleware'' (started w))"],
        use auth_clients_refused(2) [OF assms(2,3)] in auto)
qed

lemma ratelimit_demo_program_fails:
  assumes "connects N addr P" "\<And>g I. P g I \<Longrightarrow> marshals_first K I" "reads_statuses C"
  shows "\<exists>w'. fails_unserved addr ''expected at least one request to be rate-limited'' w' (ratelimit_demo_program A T E N C (started w)) \<and>
    limiters w' = limiters w @ [rate_NewLimiter (api_rate E) (Fin 2) 2]"
  unfolding ratelimit_demo_program_def
  by (rule ratelimit_demo_up [of A T E w]) (rule exI, rule conjI, rule fails_unserved_main [OF assms(1),
        where m = "ratelimit_demo_main A T E"
        and p = "print_out [] (print_out ''ratelimit-demo: demonstrates goRawrSquirrel token-bucket rate limiting'' (started w))"],
        use ratelimit_demo_refused [OF assms(2,3)] in auto)

lemma basic_program_runs:
  assumes "connects N addr P" "\<And>g I. P g I \<Longrightarrow> marshals_first K I" "reads_statuses C"
  shows "\<exists>q. basic_program A T E N C (started w) = (0, q) \<and> events q = went_well addr \<and>
    io q = \<lparr>server_side = w, cli_out = [code_name C Internal @ newline], cli_err = []\<rparr>"
proof -
  have "\<exists>d r. basic_program A T E N C (started w) = (0, r) \<and> events r = went_well addr @ defers (started w) \<and>
      d = \<lparr>server_side = w, cli_out = [code_name C Internal @ newline], cli_err = []\<rparr> \<and>
      io r = (if defers (started w) = [] then d else id d)"
    unfolding basic_program_def
    by (rule basic_up [of A T E w]) (rule runs_main [OF assms(1), where m = "basic_main A T E" and p = "started w"],
        use basic_refused [OF assms(2,3)] in \<open>auto simp: say_def\<close>)
  then show ?thesis by auto
qed

text \<open>
  The larger rate limit example: the second connection comes and goes before the first; the
  program ends well, with nothing but unexpected codes for what it wanted to show.
\<close>

definition nothing_shown :: "string \<Rightarrow> client_api \<Rightarrow> 'w \<Rightarrow> int \<times> 'w proc \<Rightarrow> bool" where
  "nothing_shown addr C w r \<longleftrightarrow>
     fst r = 0 \<and> cli_err (io (snd r)) = [] \<and> server_side (io (snd r)) = w \<and>
     events (snd r) = [Listening addr, Serving, Dialled addr, Dialled addr, Closed, Closed, Stopped] \<and>
     (\<forall>i \<in> {0..3}. ''  request '' @ itoa (i + 1) @ '': unexpected code '' @ code_name C Internal @ newline
        \<in> set (cli_out (io (snd r))))"

lemma two_connections:
  assumes "connects N addr P" "m (server_side (io p)) = (Return s, w')" "p = started w"
    and "M q = run_go m (\<lambda>srv. listen_and_dial N C a b (g srv) (ratelimit_calls N C (g srv))) p"
    and "\<And>g I. P g I \<Longrightarrow> marshals_first K I" "reads_statuses C"
  shows "nothing_shown addr C w' (run_main id M q)"
proof -
  have net: "net_Listen N ''tcp'' ''127.0.0.1:0'' = Inr addr" "\<exists>I. grpc_NewClient N n (g s) addr = Inr I \<and> marshals_first K I" for n
    using assms(1,5) unfolding connects_def by blast+
  obtain I where I: "grpc_NewClient N 0 (g s) addr = Inr I" "marshals_first K I" using net(2) by blast
  obtain J where J: "grpc_NewClient N 1 (g s) addr = Inr J" "marshals_first K J" using net(2) by blast
  show ?thesis
    using assms(2) blocked_call_refused [OF J(2) assms(6)] echo_methods_refused [OF I(2) assms(6)]
    by (simp add: run_main_def assms(3,4) run_go_def listen_and_dial_def net(1) I(1) J(1) [simplified] call_deferred_def
        ratelimit_calls_def Let_def nothing_shown_def)
qed

lemma ratelimit_program_runs:
  assumes "connects N addr P" "\<And>g I. P g I \<Longrightarrow> marshals_first K I" "reads_statuses C"
  shows "\<exists>w'. nothing_shown addr C w' (ratelimit_program A T E N C blocker_text (started w)) \<and>
    limiters w' = limiters w @ [rate_NewLimiter (api_rate E) (Fin 10) 5]"
proof -
  obtain b where b: "loopback_blocker = Inr b" using loopback_blocker_built by blast
  show ?thesis
    unfolding ratelimit_program_def Let_def b sum.case
    by (rule ratelimit_up [of A T E w]) (rule exI, rule conjI,
        rule two_connections [OF assms(1), where m = "\<lambda>w. the (ratelimit_main A T E w)" and p = "started w"], use assms in auto)
qed

text \<open>
  C17: importing package ping is enough to break the examples that send messages of their own: its
  \<open>init\<close> has replaced the codec for \<open>proto\<close>, whatever it was, and the new one refuses their
  messages.  Over a network on which connections are made, both authentication examples and the
  rate limit demo exit with one and one complaint, with their server still serving; the basic
  example ends well for the wrong reason, and the larger rate limit example with nothing shown.
  No server is asked: the limiters are as they were made, none of their tokens taken.
\<close>

theorem example_programs_never_call:
  assumes "finds_codecs RegisterCodec GetCodec"
    and "connects N addr (uses_registry GetCodec (ping_init RegisterCodec K reg))" "reads_statuses C"
  shows "fails_unserved addr (''expected Unauthenticated, got '' @ code_name C Internal) w (auth_program A T E N C (started w)) \<and>
    fails_unserved addr (''expected Unauthenticated, got '' @ code_name C Internal) w (auth_demo_program A T E N C (started w)) \<and>
    (\<exists>w'. fails_unserved addr ''expected at least one request to be rate-limited'' w'
        (ratelimit_demo_program A T E N C (started w)) \<and>
      limiters w' = limiters w @ [rate_NewLimiter (api_rate E) (Fin 2) 2]) \<and>
    (\<exists>w'. nothing_shown addr C w' (ratelimit_program A T E N C blocker_text (started w)) \<and>
      limiters w' = limiters w @ [rate_NewLimiter (api_rate E) (Fin 10) 5]) \<and>
    (\<exists>q. basic_program A T E N C (started w) = (0, q) \<and> events q = went_well addr \<and>
      io q = \<lparr>server_side = w, cli_out = [code_name C Internal @ newline], cli_err = []\<rparr>)"
proof -
  note refusing = registry_marshals_first [OF assms(1)]
  show ?thesis
    by (intro conjI auth_program_fails [OF assms(2) refusing assms(3)] ratelimit_demo_program_fails [OF assms(2) refusing assms(3)]
        ratelimit_program_runs [OF assms(2) refusing assms(3)] basic_program_runs [OF assms(2) refusing assms(3)])
qed

section \<open>Connections that carry pings\<close>

text \<open>
  What the ping method of a server makes of a call is what the client gets; \<open>impl\<close> is the
  method of a handler, and \<open>sctx\<close> the context the server makes for a call.
\<close>

definition serves_pings where
  "serves_pings K status impl sctx g I \<longleftrightarrow>
     (\<forall>h u. map_of (gs_services g) ''rawr.Ping'' = Some h \<longrightarrow> unary_of (gs_options g) = Some u \<longrightarrow>
        carries_pings K status (impl h) u sctx I)"

lemma ping_basic_runs:
  assumes "connects N addr (serves_pings K status impl sctx)" "implements (impl DefaultHandler) (method_of DefaultHandler)"
    and "in_i64 (unix_now (ping w))"
  shows "\<exists>d r. ping_basic_program A T E N C seeded now (started w) = (0, r) \<and>
    events r = went_well addr @ defers (started w) \<and>
    (cli_err d = [] \<and> cli_out d =
      [''Message:        hello'' @ newline, ''ServerTimeUnix: '' @ itoa (unix_now (ping w)) @ newline]) \<and>
    io r = (if defers (started w) = [] then d else id d)"
  unfolding ping_basic_program_def
  apply (rule ping_basic_up [of A T E seeded now w])
  apply (rule runs_main [OF assms(1), where m = "ping_basic_main A T E seeded now" and p = "started w"])
      apply simp
     apply simp
    apply (rule refl)
   apply simp
  subgoal premises prems for s u I
    using ping_basic_prints(2) [OF prems(1) prems(2) [unfolded unary_is_def, THEN conjunct1] _ assms(2) _ assms(3), of K status sctx I _ C] prems(4) prems(2,3)
    by (simp add: serves_pings_def unary_is_def)
  apply simp
  done

lemma otel_runs:
  assumes "connects N addr (serves_pings K status impl sctx)" "implements (impl DefaultHandler) (method_of DefaultHandler)"
    and "in_i64 (unix_now (ping w))" "stdouttrace_New sdk = Inr ex"
    and tracer: "\<And>tp n ctx m v. ping (snd (Tracer_Start T tp n ctx m v)) = ping v"
      "\<And>sp a v. ping (SetAttributes T sp a v) = ping v"
  shows "\<exists>d r. otel_program A T E N C sdk flush seeded now (started w) = (0, r) \<and>
    events r = went_well addr @ defers (defer_call Flushed (started w)) \<and>
    (cli_err d = [] \<and> cli_out d =
      [''Message:        hello from otel-demo'' @ newline, ''ServerTimeUnix: '' @ itoa (unix_now (ping w)) @ newline,
       newline, ''(trace output appears above via stdout exporter)'' @ newline]) \<and>
    io r = (if defers (defer_call Flushed (started w)) = [] then d else flush d)"
  unfolding otel_program_def assms(4) sum.case
  apply (rule otel_up [of A T E "NewTracerProvider sdk ex" seeded now w])
  apply (rule runs_main [OF assms(1), where m = "otel_main A T E (NewTracerProvider sdk ex) seeded now"
        and p = "defer_call Flushed (started w)"])
      apply simp
     apply simp
    apply (rule refl)
   apply simp
  subgoal premises prems for s u I
    using otel_prints(2) [OF prems(1) prems(2) [unfolded unary_is_def, THEN conjunct1] tracer _ assms(2) _ assms(3), of K status sctx I _ C] prems(4) prems(2,3)
    by (simp add: serves_pings_def unary_is_def)
  apply simp
  done

text \<open>
  C21: the two programs that ping, from start to exit: over a network that carries pings both print
  their own greeting and the server's time and nothing else, exit with zero, and close the
  connection before they stop the server.  The tracing example announces the trace above its
  last line; but its provider is shut down by the first deferred call, so the spans it still
  holds are written after that line, and after the server has stopped.
\<close>

theorem ping_programs_print:
  assumes "connects N addr (serves_pings K status impl sctx)" "implements (impl DefaultHandler) (method_of DefaultHandler)"
    and "in_i64 (unix_now (ping w))" "stdouttrace_New sdk = Inr ex"
    and "\<And>tp n ctx m v. ping (snd (Tracer_Start T tp n ctx m v)) = ping v" "\<And>sp a v. ping (SetAttributes T sp a v) = ping v"
    and flush: "\<And>c. cli_out (flush c) = cli_out c @ spans"
  shows "\<exists>q r. ping_basic_program A T E N C seeded now (started w) = (0, q) \<and>
    otel_program A T E N C sdk flush seeded now (started w) = (0, r) \<and>
    cli_err (io q) = [] \<and> cli_out (io q) =
      [''Message:        hello'' @ newline, ''ServerTimeUnix: '' @ itoa (unix_now (ping w)) @ newline] \<and>
    events q = [Listening addr, Serving, Dialled addr, Closed, Stopped] \<and>
    cli_out (io r) =
      [''Message:        hello from otel-demo'' @ newline, ''ServerTimeUnix: '' @ itoa (unix_now (ping w)) @ newline,
       newline, ''(trace output appears above via stdout exporter)'' @ newline] @ spans \<and>
    events r = [Listening addr, Serving, Dialled addr, Closed, Stopped, Flushed]"
proof -
  note basic = ping_basic_runs [OF assms(1-3), where A = A and T = T and E = E and C = C and seeded = seeded and now = now]
    and otel = otel_runs [OF assms(1-6), where A = A and E = E and C = C and seeded = seeded and now = now and flush = flush]
  from basic otel show ?thesis by (simp add: flush) (metis (no_types, lifting) flush append.assoc append_Cons append_Nil)
qed

text \<open>The retry example: its handler is the caller's own, and its transport that of \<open>retry_call\<close>.\<close>

definition delivers_pings where
  "delivers_pings sctx g I \<longleftrightarrow>
     (\<forall>h u. map_of (gs_services g) ''rawr.Ping'' = Some (UserPing h) \<longrightarrow> unary_of (gs_options g) = Some u \<longrightarrow>
        delivers I sctx h u)"

lemma retry_main_runs:
  assumes "connects N addr P" "m w = (Return s, w1)"
    and "M (started w) = run_go m (\<lambda>srv. listen_and_dial N C a b (g srv)
      (\<lambda>addr conn. run_go (retry_client A oob conn ctx) (retry_report_io C))) (started w)"
    and "\<And>I. P (g s) I \<Longrightarrow> \<exists>w2. retry_client A oob I ctx w1 = (Return r, w2) \<and> Q w2"
    and "retry_report (err_text C) r = Return (0, out, [])"
  shows "\<exists>q. run_main id M (started w) = (0, q) \<and> cli_err (io q) = [] \<and> cli_out (io q) = out \<and>
    Q (server_side (io q)) \<and> events q = went_well addr"
proof -
  let ?p = "(started w)\<lparr>io := (io (started w))\<lparr>server_side := w1\<rparr>\<rparr>"
  obtain I where I: "P (g s) I" "listen_and_dial N C a b (g s)
      (\<lambda>addr conn. run_go (retry_client A oob conn ctx) (retry_report_io C)) ?p =
    run_go (retry_client A oob I ctx) (retry_report_io C)
      (defer_call Closed (happens (Dialled addr) (defer_call Stopped (happens Serving (happens (Listening addr) ?p)))))"
    by (rule listen_and_dial_connects [OF assms(1)])
  obtain w2 where "retry_client A oob I ctx w1 = (Return r, w2)" "Q w2" using assms(4) [OF I(1)] by blast
  with I(2) assms(2,5) show ?thesis
    by (simp add: run_main_def assms(3) run_go_def retry_report_io_def call_deferred_def)
qed

lemma retry_client_answers:
  assumes "delivers I sctx failingHandler_Ping u" "status_errors_recognised A"
    and "retry_server A T E w0 = (Return s, w1)" "UnaryInterceptor u \<in> set (gs_options (Server_GRPC s))"
    and "remaining (remote w) = 3" "done_at w = None"
  shows "\<exists>w'. retry_client A oob I ctx w =
      (Return (Some \<lparr>resp_Message = ''hello with retry'', ServerTimeUnix = server_unix (remote w)\<rparr>, None), w') \<and>
    remaining (remote w') = - 1"
  using retry_example_outcome [OF assms(1-4), of w 3 oob ctx] assms(5,6) by auto

text \<open>
  C20: the retry example, from start to exit: the handler its \<open>main\<close> sets up fails three times, so the
  client gets its answer at the fourth of at most five attempts, prints it, and the program
  exits with zero, having closed the connection and then stopped the server.
\<close>

theorem retry_program_prints:
  fixes w :: "(('lim, 'rc, 'rd, 'x) failing_world_scheme, 'y) client_world_scheme" and A :: "('b, 'md) grpc_api"
  assumes "connects N addr (delivers_pings sctx)" "status_errors_recognised A" "done_at w = None"
  shows "\<exists>q. retry_program A T E N C oob ctx seeded now (started w) = (0, q) \<and>
    cli_err (io q) = [] \<and> cli_out (io q) =
      [''Message:        hello with retry'' @ newline, ''ServerTimeUnix: '' @ itoa (server_unix (remote w)) @ newline] \<and>
    remaining (remote (server_side (io q))) = - 1 \<and>
    events q = [Listening addr, Serving, Dialled addr, Closed, Stopped]"
  unfolding retry_program_def
  apply (rule retry_up_remote [where A = A and T = T and E = E and seeded = seeded and now = now and w = w])
  apply (rule retry_main_runs [OF assms(1), where m = "on_remote (retry_main A T E seeded now)"
        and Q = "\<lambda>w'. remaining (remote w') = - 1"
        and r = "(Some \<lparr>resp_Message = ''hello with retry'', ServerTimeUnix = server_unix (remote w)\<rparr>, None)"])
     apply assumption
    apply (rule refl)
  subgoal premises prems for s0 s u I
    using retry_client_answers [OF _ assms(2) prems(1) prems(2) [unfolded unary_is_def, THEN conjunct1], of I sctx "w\<lparr>remote := remote w\<lparr>remaining := 3\<rparr>\<rparr>"] prems(4-6) assms(3)
    by (simp add: delivers_pings_def unary_is_def)
  apply (simp add: retry_report_def newline_def)
  done

section \<open>Concrete networks\<close>

text \<open>A port that can be listened on, and what is dialled at it.\<close>

definition loopback_net :: "('g \<Rightarrow> gerror + 'conn) \<Rightarrow> ('g, 'conn) net_api" where
  "loopback_net dial = \<lparr>net_Listen = (\<lambda>_ _. Inr ''127.0.0.1:1''), grpc_NewClient = (\<lambda>_ g _. dial g)\<rparr>"

definition demo_sdk :: "(unit, unit) trace_sdk" where
  "demo_sdk = \<lparr>stdouttrace_New = Inr (), NewTracerProvider = (\<lambda>_. ())\<rparr>"

lemma loopback_connects:
  "(\<And>g. \<exists>I. dial g = Inr I \<and> P g I) \<Longrightarrow> connects (loopback_net dial) ''127.0.0.1:1'' P"
  by (simp add: connects_def loopback_net_def)

lemma loopback_unreachable: "unreachable (loopback_net (\<lambda>_. Inl e)) (Inr ''127.0.0.1:1'') e"
  by (simp add: unreachable_def loopback_net_def)

theorem programs_without_network_witness:
  "\<forall>T V. gives_up (auth_program demo_api (T :: demo_out_otel) demo_E (loopback_net (\<lambda>_. Inl CtxCanceled)) printing_client (started demo_out))
       ''failed to dial: error'' [Listening ''127.0.0.1:1'', Serving] \<and>
     gives_up (retry_program demo_api (V :: demo_failing_otel) demo_E (loopback_net (\<lambda>_. Inl CtxCanceled)) printing_client
       (\<lambda>_. 0) () (\<lambda>_ _. 0) 0 (started demo_client)) ''dial: error'' [Listening ''127.0.0.1:1'', Serving]"
proof (intro allI)
  fix T :: demo_out_otel and V :: demo_failing_otel
  have sdk: "stdouttrace_New demo_sdk = Inr ()" by (simp add: demo_sdk_def)
  have words: "''failed to dial: error'' = cannot printing_client (Inr ''127.0.0.1:1'') CtxCanceled ''failed to listen'' ''failed to dial''"
    "''dial: error'' = cannot printing_client (Inr ''127.0.0.1:1'') CtxCanceled ''listen'' ''dial''"
    "[Listening ''127.0.0.1:1'', Serving] = (case Inr ''127.0.0.1:1'' of Inl _ \<Rightarrow> [] | Inr addr \<Rightarrow> [Listening addr, Serving])"
    by (simp_all add: cannot_def printing_client_def)
  from programs_without_network [OF loopback_unreachable loopback_unreachable loopback_unreachable sdk words,
      where A = demo_api and T = T and U = silent_otel and V = V and E = demo_E and w = demo_out
        and v = demo_ping_start and x = demo_client and oob = "\<lambda>_. 0" and ctx = "()" and seeded = "\<lambda>_ _. 0" and now = 0
        and blocker_text = "\<lambda>_. []" and flush = id]
  show "gives_up (auth_program demo_api T demo_E (loopback_net (\<lambda>_. Inl CtxCanceled)) printing_client (started demo_out))
       ''failed to dial: error'' [Listening ''127.0.0.1:1'', Serving] \<and>
     gives_up (retry_program demo_api V demo_E (loopback_net (\<lambda>_. Inl CtxCanceled)) printing_client
       (\<lambda>_. 0) () (\<lambda>_ _. 0) 0 (started demo_client)) ''dial: error'' [Listening ''127.0.0.1:1'', Serving]"
    by (elim conjE) (intro conjI; assumption)
qed

text \<open>A registry that is a map, and a connection that fails after encoding.\<close>

definition unsent :: "('sv, nat) invoke" where
  "unsent ctx m args reply sv = ((Some (StatusError Internal ''encode''), reply), sv)"

theorem example_programs_never_call_witness:
  "\<forall>T. fails_unserved ''127.0.0.1:1'' ''expected Unauthenticated, got Internal'' demo_out
     (auth_program demo_api (T :: demo_out_otel) demo_E (loopback_net (\<lambda>_. Inr unsent)) printing_client (started demo_out))"
proof
  fix T :: demo_out_otel
  let ?register = "\<lambda>c (reg :: string \<rightharpoonup> nat Codec). reg(codec_Name c \<mapsto> c)"
  have found: "finds_codecs ?register (\<lambda>reg. reg)" by (simp add: finds_codecs_def)
  have "connects (loopback_net (\<lambda>_. Inr unsent)) ''127.0.0.1:1'' (uses_registry (\<lambda>reg. reg) (ping_init ?register demo_codec Map.empty))"
    by (rule loopback_connects) (simp add: uses_registry_def init_replaces_proto [OF found] encodes_with_def unsent_def)
  moreover have "reads_statuses printing_client" by (simp add: reads_statuses_def printing_client_def)
  ultimately have "fails_unserved ''127.0.0.1:1'' (''expected Unauthenticated, got '' @ code_name printing_client Internal) demo_out
      (auth_program demo_api T demo_E (loopback_net (\<lambda>_. Inr unsent)) printing_client (started demo_out))"
    using example_programs_never_call [OF found, where w = demo_out] by blast
  then show "fails_unserved ''127.0.0.1:1'' ''expected Unauthenticated, got Internal'' demo_out
      (auth_program demo_api T demo_E (loopback_net (\<lambda>_. Inr unsent)) printing_client (started demo_out))"
    by (simp add: printing_client_def)
qed

text \<open>Connections that run the server's handler behind its interceptor, if it has both.\<close>

definition ping_net where
  "ping_net = loopback_net (\<lambda>g. Inr
     (case (map_of (gs_services g) ''rawr.Ping'', unary_of (gs_options g)) of
        (Some h, Some u) \<Rightarrow> demo_carrier (\<lambda>ctx req w. the (method_of h ctx req w)) u
      | _ \<Rightarrow> (\<lambda>ctx m args reply v. ((Some (StatusError Unavailable []), reply), v))))"

theorem ping_programs_print_witness:
  "\<exists>q. otel_program demo_api silent_otel demo_E ping_net printing_client demo_sdk (say ''{span}'') (\<lambda>_ _. 0) 0 (started demo_ping_start) = (0, q) \<and>
     cli_out (io q) = [''Message:        hello from otel-demo'' @ newline, ''ServerTimeUnix: '' @ itoa 7 @ newline,
       newline, ''(trace output appears above via stdout exporter)'' @ newline, ''{span}'' @ newline]"
proof -
  let ?impl = "\<lambda>h ctx req w. the (method_of h ctx req w)"
  have c: "connects ping_net ''127.0.0.1:1'' (serves_pings demo_codec id ?impl (\<lambda>_. BaseCtx (None, None)))"
    unfolding ping_net_def
    by (rule loopback_connects) (auto simp: serves_pings_def demo_carrier_carries)
  have impl: "implements (?impl DefaultHandler) (method_of DefaultHandler)" by (simp add: implements_def)
  have now: "unix_now (ping demo_ping_start) = 7" by (simp add: demo_ping_start_def)
  have sdk: "stdouttrace_New demo_sdk = Inr ()" by (simp add: demo_sdk_def)
  note printed = ping_programs_print [OF c impl _ sdk, where T = silent_otel and w = demo_ping_start and spans = "[''{span}'' @ newline]"
      and flush = "say ''{span}''" and A = demo_api and E = demo_E and C = printing_client and seeded = "\<lambda>_ _. 0" and now = 0, unfolded now]
  have "in_i64 7" by (simp add: in_i64_def)
  from printed [OF this] show ?thesis by (auto simp: silent_otel_def)
qed

definition retry_net where
  "retry_net = loopback_net (\<lambda>g. Inr
     (case (map_of (gs_services g) ''rawr.Ping'', unary_of (gs_options g)) of
        (Some (UserPing h), Some u) \<Rightarrow> direct_invoke h u (peer_at ''127.0.0.1:1'')
      | _ \<Rightarrow> (\<lambda>ctx m req w. (Return (Inl (StatusError Unavailable [])), w))))"

theorem retry_program_prints_witness:
  "\<forall>T. \<exists>q. retry_program demo_api (T :: demo_failing_otel) demo_E retry_net printing_client (\<lambda>_. 0) () (\<lambda>_ _. 0) 0 (started demo_client) = (0, q) \<and>
     cli_out (io q) = [''Message:        hello with retry'' @ newline, ''ServerTimeUnix: '' @ itoa 1700000000 @ newline]"
proof
  fix T :: demo_failing_otel
  have c: "connects retry_net ''127.0.0.1:1'' (delivers_pings (\<lambda>_. peer_at ''127.0.0.1:1''))"
    unfolding retry_net_def
    by (rule loopback_connects) (auto simp: delivers_pings_def direct_delivers)
  have "done_at demo_client = None" "server_unix (remote demo_client) = 1700000000"
    by (simp_all add: demo_client_def demo_failing_def)
  with retry_program_prints [OF c demo_api_recognises, where w = demo_client and T = T and E = demo_E and C = printing_client
      and oob = "\<lambda>_. 0" and ctx = "()" and seeded = "\<lambda>_ _. 0" and now = 0]
  show "\<exists>q. retry_program demo_api T demo_E retry_net printing_client (\<lambda>_. 0) () (\<lambda>_ _. 0) 0 (started demo_client) = (0, q) \<and>
      cli_out (io q) = [''Message:        hello with retry'' @ newline, ''ServerTimeUnix: '' @ itoa 1700000000 @ newline]"
    by auto
qed

end
