(* ===== verification/Spec2Isabelle.thy ===== *)
theory Spec2Isabelle
  imports Netip_Text Breaker_Clock Singleflight Cache_Demo Programs
begin

text \<open>
  goRawrSquirrel, a Go library that puts a gRPC server together from middleware: panic
  recovery, IP blocking, rate limiting, authentication, request ids, tracing, caches and a
  ping service, with a circuit breaker and a retry helper beside it.  This development models
  the library's own code and proves what makes it correct.

  Parts and how they interact.  \<open>NewServer\<close> (server.go) applies a list of options
  (options.go) to a configuration (config.go).  An option stores a setting, creates shared
  objects (limiters, caches), or adds a pair of interceptors with a priority to the middleware
  builder (internal/core/middleware.go).  The builder's stable sort by priority gives two
  lists, \<open>ChainUnary\<close> and \<open>ChainStream\<close> (interceptors/chain.go) nest them, and
  internal/core/builder.go hands the two results to gRPC.  At run time a request passes
  through the nested interceptors: each guard looks at the context and the method, consults
  its component (security, policy, ratelimit, the authentication function) and rejects or
  goes on.

  Conventions.  A Go function with effects is a state-passing computation whose outcome is a
  value or a panic (\<open>go\<close> in Prelude).  A pointer that may be nil is an option; an object
  shared by pointer is an index into a store of the world.  \<open>int\<close>, \<open>int64\<close> and
  \<open>time.Duration\<close> are mathematical integers with \<open>wrap64\<close> at the operations that can
  overflow; \<open>float64\<close> is the datatype \<open>f64\<close> with correct rounding.  Code of third parties
  (gRPC, OpenTelemetry, ristretto, go-redis, x/time/rate, the regexp engine, the protobuf
  encoder) is a record of functions or a function argument; what a theorem needs of it is
  among its hypotheses.

  Theories, the code they model, and what their lemmas show.

  Prelude: outcomes and effects, 64-bit wrap-around, stable sorting by bands, reachable
  states of a step relation and the locale \<open>inductive_invariant\<close> every step relation
  interprets.

  Contextx (contextx/): actor, group and request id in a context, as the locale \<open>ctx_slot\<close>.

  Netip, Netip_Text: the parts of net/netip, net and strings the library uses on addresses:
  parsing, prefixes, containment, and how addresses are printed.

  Grpc: status codes, errors, the types of handlers and interceptors.

  Security (security/ipblock.go, resolver.go): configuration parsing, the client address, the
  verdict; refinement of a set-based specification (\<open>Evaluate_refines_spec\<close>), headers of
  untrusted peers have no influence, unknown clients are refused.

  Policy (policy/): group builders and \<open>Resolve\<close>; the two nested loops find the first
  minimum of a key (locale \<open>best_fold\<close>), which gives the priority cascade.

  Chain (interceptors/chain.go, internal/core/): the loops build the onion (locale
  \<open>chaining\<close>, interpreted for unary and stream), stable sorting, server options.

  Guards (auth/, interceptors/auth.go, ipblock.go, recovery.go, requestid.go): every
  interceptor, with the contracts \<open>unary_guard\<close> and \<open>stream_guard\<close> of those that reject or
  admit.

  Float64: IEEE double precision as rationals with rounding, overflow and NaN; rounding is
  exact on doubles, monotone, and wrong by at most half a unit in the last place.

  Ratelimit (ratelimit/limiter.go, interceptors/ratelimit.go): limiters in a store, group
  limiters created on demand; under every interleaving of requests (\<open>rl_step\<close>) the limiters
  behave as independent budgets; the rate of a group's bucket up to rounding.

  Breaker (breaker/breaker.go): each method runs under the mutex, so a concurrent use is a
  sequence of whole calls (\<open>br_step\<close>); simulation of a three-state specification, trip,
  block and recovery behaviour.  Breaker_Clock: the same methods reading the clock where the
  code does, at most once; calls at any non-decreasing times of the clock are answered as the
  specification answers them at the same times.

  Retry (retry/): \<open>Do\<close> with timers, contexts and random jitter; its outcome on every sequence
  of answers, exact delays without jitter, the formula up to rounding with it.

  Tracing (tracing/interceptors.go): spans around a call on return, error and panic.

  Ping (ping/ping.go): the two handlers over \<open>math/rand\<close>, the service description, the method
  handler.

  Json, Json_Roundtrip: what the codec uses of encoding/json, unicode/utf8 and strconv:
  quoting, the scanner's state machine, the decoding of members into struct fields; what is
  quoted or printed is scanned whole and read back.

  Ping_Codec (ping/ping.go): the codec, its registration by \<open>init\<close>, and its round trip.
  Ping_Service: a ping from the client's bytes through the installed interceptors to the
  answer's bytes.

  Cache (cache/l1.go, redis.go, tiered.go): the sequential operations over a heap of byte
  slices; Singleflight: \<open>GetOrSet\<close> again as a step relation of callers that interleave, with
  the locale \<open>singleflight\<close> interpreted for L1 and Tiered: at most one loader per key, every
  caller can return unless a loader of its key has panicked.  That the sequential function is
  one of the runs (\<open>GetOrSet_is_a_run\<close>) ties the two models to each other.

  Server (config.go, options.go, defaults.go, server.go): the options, \<open>NewServer\<close>,
  \<open>RegisterPing\<close>; Wiring: what is installed for every list of options, and the properties
  that span components (recovery, blocked and throttled requests, order of options, the
  buckets and the cache of a server).

  Demos (examples/auth, auth-demo, ratelimit), Retry_Demo (examples/retry-demo): the servers the
  example programs configure and what requests to them are answered, as instances of the
  whole: options, chain, guards, buckets, handlers and, for retry, the client's loop over a
  transport that delivers.  What Demos shows of the two kinds of server holds of requests that
  have been decoded.  Clients (all examples but those of the caches and of retry): the calls
  the programs make and what they print.  Process, Programs: every \<open>main\<close> that uses the
  network, whole: the server is built, services are registered, a port is listened on, a
  connection is made, the client runs, and the process ends by returning, which runs the
  deferred calls, or by \<open>os.Exit\<close>, which does not.  A process is its input and output, a list
  of events and the calls it has deferred; the network is a record of functions, of which
  \<open>unreachable\<close> and \<open>connects\<close> say how it behaves.  With the codec of package ping the
  programs that send messages of their own make no call at all
  (\<open>example_programs_never_call\<close>), those that ping work (\<open>ping_programs_print\<close>,
  \<open>retry_program_prints\<close>), and all give up when nothing is reached
  (\<open>programs_without_network\<close>).  Cache_Demo (examples/cache, cache-demo): the cache of a
  configured server through the interface of cache/cache.go, asked twice.

  Bounds and fuel.  No definition takes fuel: loops recurse on their list or counter.  The
  rejection loop of \<open>Intn\<close> may not end for a source of the caller's own; it is a partial
  function whose \<open>None\<close> is such a run, and the same value stands for a caller that waits for
  a load that never ends.  The theorems on delays assume base and maximum below \<open>2^53\<close>
  nanoseconds, about 104 days; the one on jitter also that the largest jittered delay is at
  most \<open>2^62\<close> nanoseconds, so that it fits an \<open>int64\<close>.

  Not modelled.  What \<open>Server.MetricsHandler\<close> returns is the Prometheus client's, a parameter.
  The gRPC server itself is represented by the options it is created with and the services
  registered with it; network and stream I/O are outside.  A nil function value (an option, an
  authentication function) is one that panics when called, as \<open>nil_AuthFunc\<close>; a nil rate
  limiter, which no option makes, is not represented.  Of the programs under examples/ the
  trace Go prints after a panic, signals, and the banner of cache-demo are left out.
  Data races (the fun handler shares a random generator without a lock) are outside the model,
  which runs each of its steps whole.  In particular the lookup and the store of a \<open>GetOrSet\<close>
  are one step each, the requests to Redis they make included, where the code of other callers
  can run in between.  \<open>DefaultFunMessages\<close> is the value the variable of that name starts with,
  and a regex rule without an expression, which the builder does not make, matches nothing.
\<close>

end
